(* ===== verification/Prelude.thy ===== *)
theory Prelude
  imports Main "HOL-Library.Word" "HOL-Library.While_Combinator"
begin

text \<open>
  What every component shares: the names of the C integer types, the two named theorem
  collections of the development and the generic lemmas on words and address ranges.
  \<^item> \<open>frame\<close> collects the lemmas that say what an operation leaves alone.
  \<^item> \<open>src_consts\<close> collects the definitions of the \<open>#define\<close> constants, so that
    \<open>simp add: src_consts\<close> turns an address into its numeral.
\<close>

unbundle bit_operations_syntax

type_synonym u8 = "8 word"
type_synonym u16 = "16 word"
type_synonym u32 = "32 word"

named_theorems frame
named_theorems src_consts

section \<open>Words as naturals\<close>

lemma unat_of_nat_u32: "n < 4294967296 \<Longrightarrow> unat (word_of_nat n :: u32) = n"
  by (simp add: unat_of_nat take_bit_nat_eq_self)

lemma unat_u32_less [simp]: "unat (x :: u32) < 4294967296"
  using unsigned_less [of x] by simp

lemma unat_add_u32: "unat (a + b :: u32) = (unat a + unat b) mod 4294967296"
  by (simp add: unat_word_ariths)

lemma unat_add_lt: "unat a + unat b < 4294967296 \<Longrightarrow> unat (a + b :: u32) = unat a + unat b"
  by (simp add: unat_add_u32)

lemma unat_add_of_nat:
  "unat a + n < 4294967296 \<Longrightarrow> unat (a + word_of_nat n :: u32) = unat a + n"
  by (simp add: unat_add_u32 unat_of_nat_u32)

lemma unat_sub_u32: "unat (a - b :: u32) = (if b \<le> a then unat a - unat b else 4294967296 + unat a - unat b)"
proof (cases "b \<le> a")
  case True
  then show ?thesis by (simp add: unat_sub)
next
  case False
  then show ?thesis by (simp add: unat_sub_if' word_le_nat_alt)
qed

lemma unat_and_mask29: "unat (a AND 0x1fffffff :: u32) = unat a mod 536870912"
proof -
  have "a AND 0x1fffffff = take_bit 29 a"
    by (simp add: take_bit_eq_mask mask_numeral)
  then show ?thesis
    by (simp add: unsigned_take_bit_eq) (simp add: take_bit_eq_mod)
qed

lemma unat_and_mask16: "unat (a AND 0xffff :: u32) = unat a mod 65536"
proof -
  have "a AND 0xffff = take_bit 16 a"
    by (simp add: take_bit_eq_mask mask_numeral)
  then show ?thesis
    by (simp add: unsigned_take_bit_eq) (simp add: take_bit_eq_mod)
qed

lemma unat_and_mask5: "unat (a AND 31 :: u32) = unat a mod 32"
proof -
  have "a AND 31 = take_bit 5 a"
    by (simp add: take_bit_eq_mask mask_numeral)
  then show ?thesis
    by (simp add: unsigned_take_bit_eq) (simp add: take_bit_eq_mod)
qed

lemma unat_and_mask2: "unat (a AND 3 :: u32) = unat a mod 4"
proof -
  have "a AND 3 = take_bit 2 a"
    by (simp add: take_bit_eq_mask mask_numeral)
  then show ?thesis
    by (simp add: unsigned_take_bit_eq) (simp add: take_bit_eq_mod)
qed

section \<open>Lists\<close>

lemma map_upt_shift: "map f [a ..< a + n] = map (\<lambda>i. f (a + i)) [0 ..< n]"
  by (rule nth_equalityI) auto

lemma upt_split3:
  "a \<le> b \<Longrightarrow> b \<le> c \<Longrightarrow> [a ..< c] = [a ..< b] @ [b ..< c]" for a b c :: nat
  by (metis le_add_diff_inverse upt_add_eq_append)

end
