(* ===== verification/Iface.thy ===== *)
theory Iface
  imports Prelude
begin

text \<open>
  The address constants and pure macros of \<^verbatim>\<open>shims/include/shim_iface.h\<close>, the single
  source of truth shared by the shim, the loader and the patch generator. The build switches
  of the same header (\<open>CART_FAD\<close>, \<open>SHIM_GD_DMA\<close>, \<open>SHIM_LOADBAR\<close>, ...) are fields of the
  build configuration in theory \<open>Machine\<close>.
\<close>

definition SHIM_BASE :: u32 where [src_consts]: "SHIM_BASE = 0x8cfc0000"
definition SHIM_CODE_MAX :: u32 where [src_consts]: "SHIM_CODE_MAX = 0x00008000"
definition SHIM_ERR :: u32 where [src_consts]: "SHIM_ERR = SHIM_BASE + 0x8000"
definition G1_MIRROR :: u32 where [src_consts]: "G1_MIRROR = SHIM_BASE + 0x8800"
definition MAPLE_TX :: u32 where [src_consts]: "MAPLE_TX = SHIM_BASE + 0x9000"
definition MAPLE_RX :: u32 where [src_consts]: "MAPLE_RX = SHIM_BASE + 0x9040"
definition SHIM_BOUNCE :: u32 where [src_consts]: "SHIM_BOUNCE = SHIM_BASE + 0xa000"
definition BIOS_DATA_60000 :: u32 where [src_consts]: "BIOS_DATA_60000 = SHIM_BASE + 0xb000"
definition BIOS_DATA_60000_LEN :: u32 where [src_consts]: "BIOS_DATA_60000_LEN = 0x7000"
definition BIOS_DATA_1FFD00 :: u32 where [src_consts]: "BIOS_DATA_1FFD00 = SHIM_BASE + 0x12000"
definition BIOS_DATA_1FFD00_LEN :: u32 where [src_consts]: "BIOS_DATA_1FFD00_LEN = 0x70"
definition MAPLE_MIRROR :: u32 where [src_consts]: "MAPLE_MIRROR = SHIM_BASE + 0x13000"
definition MAPLE_MIRROR_LEN :: u32 where [src_consts]: "MAPLE_MIRROR_LEN = 0x100"
definition GD_STACK_BOTTOM :: u32 where [src_consts]: "GD_STACK_BOTTOM = SHIM_BASE + 0x14000"
definition GD_STACK_TOP :: u32 where [src_consts]: "GD_STACK_TOP = SHIM_BASE + 0x18000"
definition STAGING_ADDR :: u32 where [src_consts]: "STAGING_ADDR = 0x8cd00000"
definition GAME_LOAD_ADDR :: u32 where [src_consts]: "GAME_LOAD_ADDR = 0x8c020000"
definition GAME_LEN :: u32 where [src_consts]: "GAME_LEN = 0x00100000"
definition GAME_ENTRY :: u32 where [src_consts]: "GAME_ENTRY = 0x8c04ae2c"
definition CART_SIZE :: u32 where [src_consts]: "CART_SIZE = 0x06800000"

definition P2ADDR :: "u32 \<Rightarrow> u32" where
  "P2ADDR a = a OR 0xa0000000"

text \<open>The macro works on \<open>int\<close>-promoted 16-bit pixels and truncates the result to 16 bits.\<close>

definition RGB565_TO_0555 :: "u16 \<Rightarrow> u16" where
  "RGB565_TO_0555 p =
     (drop_bit 1 (p AND 0xffc0)) OR (p AND 0x1f)"

section \<open>Physical and uncached addresses\<close>

lemma unat_P2ADDR_phys:
  assumes "unat p < 536870912"
  shows "unat (P2ADDR p) = unat p + 2684354560"
proof -
  have "take_bit 29 p = p"
    using assms by (simp add: word_unat_eq_iff unsigned_take_bit_eq take_bit_nat_eq_self)
  then have p: "p AND 0x1fffffff = p"
    by (simp add: take_bit_eq_mask mask_numeral)
  have "p AND 0xa0000000 = (p AND 0x1fffffff) AND 0xa0000000"
    by (simp only: p)
  also have "\<dots> = p AND (0x1fffffff AND 0xa0000000)"
    by (simp only: and.assoc)
  also have "\<dots> = 0"
    by simp
  finally have "p AND 0xa0000000 = 0" .
  then have "p OR 0xa0000000 = p + 0xa0000000"
    using word_plus_and_or [of p "0xa0000000"] by simp
  then show ?thesis
    using assms by (simp add: P2ADDR_def unat_add_lt)
qed

end
