(* ===== verification/Machine.thy ===== *)
theory Machine
  imports Iface
begin

text \<open>
  The machine the shim runs on: byte memory behind the SH-4's cached and uncached address
  windows, the operand cache, the log of device-register writes, the processor context that
  \<^verbatim>\<open>gdstack.S\<close> saves, and the shim's own static variables, one record per source file.
  The record \<open>env\<close> holds what is not under \<^verbatim>\<open>src/\<close>: the build switches, the GD-ROM syscall
  behind vector \<^verbatim>\<open>0x8c0000bc\<close>, the devices that move while a loop polls them, the two routines
  of the game that the shim calls, and the data blobs embedded at build time.
\<close>

section \<open>State\<close>

text \<open>Statics of \<^verbatim>\<open>shims/src/cart.c\<close>.\<close>

record cart_data =
  cart_first :: u32
  cart_count :: u32
  pb_left :: u32

text \<open>Statics of \<^verbatim>\<open>shims/src/gd.c\<close>.\<close>

record gd_data =
  gd_last_err :: u32

text \<open>Statics of \<^verbatim>\<open>shims/src/gdstack.S\<close>.\<close>

record gdstack_data =
  gdc_saved_sp :: u32
  gdc_saved_mmucr :: u32
  gdc_mmu_gate :: u32

text \<open>Statics of \<^verbatim>\<open>shims/src/maple.c\<close>; the two-element arrays are functions of the port.\<close>

record maple_data =
  maple_hdr :: "u32 \<Rightarrow> u32"
  bus_init_done :: u32
  devinfo_hdr :: "u32 \<Rightarrow> u32"

text \<open>Statics of \<^verbatim>\<open>shims/src/util.c\<close>.\<close>

record util_data =
  cable_latch :: u32

text \<open>Statics of \<^verbatim>\<open>shims/src/main.c\<close>.\<close>

record main_data =
  hud_marks :: u8
  ee_wr_count :: u32
  steady_beat :: u32
  trig_seen :: u32
  rc_ok_seen :: u32
  reply_ticks :: u32
  pending_jvs :: u8
  pending_cfg :: u8
  cfg_seen :: u8
  in_last :: u32
  in_hb :: u32
  ee_logged :: u8
  wr_left :: u8
  in_tcnt :: u32
  raw_cache_a :: u32
  raw_cache_b :: u32
  getcond_total :: u32
  gc_rate :: u32
  cc_rate :: u32
  pad_thresh :: u32
  last_gc :: u32
  last_cc :: u32
  eeread_logged :: u8

text \<open>
  Statics that only the diagnostic builds have: the start-up timeline (\<^verbatim>\<open>la_\<close>) of \<^verbatim>\<open>main.c\<close>, the stream
  counters (\<^verbatim>\<open>ls_\<close>) of \<^verbatim>\<open>cart.c\<close>, the interrupt accumulator of the probes.
\<close>

record diag_data =
  la_ticks :: u32
  la_last :: u32
  la_beat :: u32
  la_sh :: u32
  la_stamp :: "u32 list"
  la_seen :: u8
  mie_count :: u32
  la_mie :: "u32 list"
  ls_bytes :: u32
  ls_reads :: u32
  ls_ticks :: u32
  ls_sh :: u32
  ist_seen :: u32

text \<open>The processor state that \<^verbatim>\<open>gdc_call\<close> and \<^verbatim>\<open>pad_reboot\<close> touch.\<close>

record cpu =
  sp :: u32
  pr :: u32
  sr :: u32
  fpscr :: u32
  fpul :: u32
  fbank0 :: "u32 list"
  fbank1 :: "u32 list"

text \<open>
  \<open>ram\<close> is indexed by bus address (main memory, video memory, Holly registers; the on-chip
  registers of area P4 keep their full address). \<open>dcache q = Some v\<close> says that the operand cache
  holds \<open>v\<close> for the byte at bus address \<open>q\<close>. \<open>bios\<close> is the working state of code that is not in
  the repository. \<open>io\<close> is the log of the device-register stores the modelled code makes, oldest
  first.
\<close>

record machine =
  ram :: "u32 \<Rightarrow> u8"
  dcache :: "u32 \<Rightarrow> u8 option"
  bios :: "u32 list"
  io :: "(u32 \<times> u32) list"
  cpu :: cpu
  gds :: gdstack_data
  cartd :: cart_data
  gdd :: gd_data
  mapled :: maple_data
  utild :: util_data
  maind :: main_data
  diagd :: diag_data

text \<open>The values the statics have when the loader starts the game: the image of \<^verbatim>\<open>.data\<close>.\<close>

definition cart_init :: "u32 \<Rightarrow> cart_data" where
  "cart_init n = \<lparr>cart_first = 1, cart_count = 1, pb_left = n\<rparr>"

definition gd_init :: gd_data where
  "gd_init = \<lparr>gd_last_err = 0xcafe0000\<rparr>"

definition gdstack_init :: gdstack_data where
  "gdstack_init = \<lparr>gdc_saved_sp = 0, gdc_saved_mmucr = 0, gdc_mmu_gate = 0\<rparr>"

definition maple_init :: maple_data where
  "maple_init = \<lparr>maple_hdr = (\<lambda>p. if p = 0 then 0xaaaa0000 else 0xaaaa0001), bus_init_done = 0x10000,
     devinfo_hdr = (\<lambda>p. if p = 0 then 0xbbbb0000 else 0xbbbb0001)\<rparr>"

definition util_init :: util_data where
  "util_init = \<lparr>cable_latch = 0xff\<rparr>"

definition main_init :: main_data where
  "main_init = \<lparr>hud_marks = 0x80, ee_wr_count = 0x10000, steady_beat = 0x10000, trig_seen = 0x10000,
     rc_ok_seen = 0x10000, reply_ticks = 0x10000, pending_jvs = 0xff, pending_cfg = 0xf1, cfg_seen = 0,
     in_last = 0xffffffff, in_hb = 1, ee_logged = 1, wr_left = 32, in_tcnt = 1, raw_cache_a = 0xffff,
     raw_cache_b = 0xffff, getcond_total = 1, gc_rate = 1, cc_rate = 1, pad_thresh = 1, last_gc = 1,
     last_cc = 1, eeread_logged = 1\<rparr>"

definition diag_init :: diag_data where
  "diag_init = \<lparr>la_ticks = 0, la_last = 0, la_beat = 0, la_sh = 0xff, la_stamp = replicate 5 0, la_seen = 0,
     mie_count = 0, la_mie = replicate 5 0, ls_bytes = 0, ls_reads = 0, ls_ticks = 0, ls_sh = 0xff, ist_seen = 0\<rparr>"

section \<open>The world outside the repository\<close>

text \<open>The data arrays that \<^verbatim>\<open>shims/Makefile\<close> embeds with \<^verbatim>\<open>xxd\<close> from gitignored files.\<close>

datatype blob =
  EEPROM_IMG | MIE_SUB01 | MIE_SUB13 | MIE_SUB17 | MIE_SUB27 | MIE_SUB31 | MIE_SUBFF
| MIE_JVSF1 | MIE_JVS10 | MIE_JVS11 | MIE_JVS12 | MIE_JVS13 | MIE_JVS14

text \<open>They are finitely many, so a condition on all of them can be evaluated.\<close>

lemma UNIV_blob: "UNIV = {EEPROM_IMG, MIE_SUB01, MIE_SUB13, MIE_SUB17, MIE_SUB27, MIE_SUB31, MIE_SUBFF,
  MIE_JVSF1, MIE_JVS10, MIE_JVS11, MIE_JVS12, MIE_JVS13, MIE_JVS14}"
  by (auto intro: blob.exhaust)

instantiation blob :: enum
begin

definition blob_enum: "Enum.enum = [EEPROM_IMG, MIE_SUB01, MIE_SUB13, MIE_SUB17, MIE_SUB27, MIE_SUB31, MIE_SUBFF,
  MIE_JVSF1, MIE_JVS10, MIE_JVS11, MIE_JVS12, MIE_JVS13, MIE_JVS14]"

definition blob_enum_all: "Enum.enum_all P \<longleftrightarrow> list_all P (Enum.enum :: blob list)"

definition blob_enum_ex: "Enum.enum_ex P \<longleftrightarrow> list_ex P (Enum.enum :: blob list)"

instance
proof
qed (simp_all only: blob_enum blob_enum_all blob_enum_ex UNIV_blob, simp_all)

end

type_synonym block4 = "u32 \<times> u32 \<times> u32 \<times> u32"

text \<open>
  \<open>gd_vector c blk f\<close> is a call through the live syscall vector with \<^verbatim>\<open>r4 = c\<close>, \<^verbatim>\<open>r5\<close> pointing to
  the four-word block \<open>blk\<close> (\<open>None\<close> for a null pointer), \<^verbatim>\<open>r6 = 0\<close> and \<^verbatim>\<open>r7 = f\<close>; it returns \<^verbatim>\<open>r0\<close>, the block's
  contents after the call and the machine. The blocks are locals of the caller, so they are
  passed by contents. \<open>maple_hw\<close> and \<open>scif_hw\<close> are what the Maple DMA engine and the serial port do
  between two polls of their status registers. \<open>stc_spc\<close>, \<open>stc_vbr\<close> and \<open>stc_sgr\<close>
  are what the instructions of that name read. \<open>uninit\<close> is what an uninitialised local block holds.
\<close>

record env =
  CART_FAD :: u32
  SHIM_CDXA :: bool
  SHIM_GD_DMA :: bool
  SHIM_GD_STACK :: bool
  SHIM_LOADBAR :: bool
  SHIM_HUD :: bool
  SHIM_TRACE :: bool
  SHIM_SERIAL :: bool
  SHIM_LOADSTAT :: bool
  SHIM_PROBES :: bool
  SHIM_GD_DIAG :: bool
  gd_vector :: "u32 \<Rightarrow> block4 option \<Rightarrow> u32 \<Rightarrow> machine \<Rightarrow> u32 \<times> block4 \<times> machine"
  uninit :: block4
  maple_hw :: "machine \<Rightarrow> machine"
  scif_hw :: "machine \<Rightarrow> machine"
  engine :: "machine \<Rightarrow> u32 \<times> machine"
  stc_spc :: "machine \<Rightarrow> u32"
  stc_vbr :: "machine \<Rightarrow> u32"
  stc_sgr :: "machine \<Rightarrow> u32"
  vid_sdk :: "u32 \<Rightarrow> u32 \<Rightarrow> u32 \<Rightarrow> u32 \<Rightarrow> machine \<Rightarrow> u32 \<times> machine"
  blob_bytes :: "blob \<Rightarrow> u8 list"

section \<open>How a routine ends\<close>

text \<open>
  A routine returns; or ends in \<^verbatim>\<open>shim_die\<close>, which paints the failure and never returns; or
  jumps to the reset vector; or spins forever on a device that never answers.
\<close>

datatype 'a outcome =
  Ret 'a machine
| Die u32 u32 u32 machine
| Reboot machine
| Hang

fun bindo :: "'a outcome \<Rightarrow> ('a \<Rightarrow> machine \<Rightarrow> 'b outcome) \<Rightarrow> 'b outcome" where
  "bindo (Ret a m) f = f a m"
| "bindo (Die c a b m) f = Die c a b m"
| "bindo (Reboot m) f = Reboot m"
| "bindo Hang f = Hang"

lemma bindo_assoc: "bindo (bindo x f) g = bindo x (\<lambda>a m. bindo (f a m) g)"
  by (cases x) auto

lemma bindo_eq_Ret:
  "bindo x f = Ret b m' \<longleftrightarrow> (\<exists>a m. x = Ret a m \<and> f a m = Ret b m')"
  by (cases x) auto

section \<open>Addresses\<close>

text \<open>
  P1 (\<^verbatim>\<open>0x8...\<close>) and U0/P0, P3 go through the operand cache, P2 (\<^verbatim>\<open>0xa...\<close>) and P4 (\<^verbatim>\<open>0xe...\<close> and up)
  do not; all but P4 drop the top three address bits.
\<close>

definition cached :: "u32 \<Rightarrow> bool" where
  "cached a \<longleftrightarrow> a < 0xa0000000 \<or> (0xc0000000 \<le> a \<and> a < 0xe0000000)"

definition bus :: "u32 \<Rightarrow> u32" where
  "bus a = (if 0xe0000000 \<le> a then a else a AND 0x1fffffff)"

text \<open>A cache line is 32 bytes.\<close>

definition line :: "u32 \<Rightarrow> nat" where
  "line q = unat q div 32"

text \<open>\<open>span a n\<close>: the \<open>n\<close> bytes from \<open>a\<close> on stay inside one 512 MB address window.\<close>

definition span :: "u32 \<Rightarrow> nat \<Rightarrow> bool" where
  "span a n \<longleftrightarrow> unat a mod 536870912 + n \<le> 536870912"

lemma span_mono: "span a n \<Longrightarrow> k \<le> n \<Longrightarrow> span a k"
  by (simp add: span_def)

lemma span_unat:
  assumes "span a n" "i < n"
  shows "unat (a + word_of_nat i) = unat a + i"
proof -
  have "unat a = 536870912 * (unat a div 536870912) + unat a mod 536870912"
    by simp
  moreover have "unat a div 536870912 < 8"
    by (simp add: less_mult_imp_div_less)
  moreover have "unat a mod 536870912 + i < 536870912"
    using assms by (simp add: span_def)
  ultimately have "unat a + i < 4294967296"
    by linarith
  then show ?thesis by (simp add: unat_add_of_nat)
qed

lemma div_block: "(x :: nat) mod k + i < k \<Longrightarrow> (x + i) div k = x div k"
  by (simp add: div_add1_eq [of x i k])

lemma mod_block: "(x :: nat) mod k + i < k \<Longrightarrow> (x + i) mod k = x mod k + i"
  by (metis mod_add_left_eq mod_less)

lemma cached_div: "cached a \<longleftrightarrow> unat a div 536870912 \<noteq> 5 \<and> unat a div 536870912 \<noteq> 7"
proof -
  have "unat a div 536870912 < 8"
    by (simp add: less_mult_imp_div_less)
  moreover have "unat a = 536870912 * (unat a div 536870912) + unat a mod 536870912"
    by simp
  moreover have "unat a mod 536870912 < 536870912" by simp
  ultimately show ?thesis
    unfolding cached_def word_less_nat_alt word_le_nat_alt by auto
qed

end
