(* ===== verification/Memory.thy ===== *)
theory Memory
  imports Machine
begin

text \<open>
  Loads and stores. A cached store allocates the whole line (the SH-4's copy-back mode), an
  uncached access goes to the bus; a cached load that misses reads the bus. The locale
  \<open>byte_store\<close> states what byte arrays, block copies and word cells need of a byte memory; it is
  interpreted on the machine's own loads and stores.
\<close>

section \<open>Bytes\<close>

definition ld8 :: "u32 \<Rightarrow> machine \<Rightarrow> u8" where
  "ld8 a m = (if cached a
     then (case dcache m (bus a) of Some v \<Rightarrow> v | None \<Rightarrow> ram m (bus a))
     else ram m (bus a))"

definition fill_line :: "u32 \<Rightarrow> machine \<Rightarrow> machine" where
  "fill_line q m = m\<lparr>dcache := (\<lambda>p. if line p = line q \<and> dcache m p = None
     then Some (ram m p) else dcache m p)\<rparr>"

definition st8 :: "u32 \<Rightarrow> u8 \<Rightarrow> machine \<Rightarrow> machine" where
  "st8 a v m = (if cached a
     then (fill_line (bus a) m)\<lparr>dcache := (dcache (fill_line (bus a) m))(bus a \<mapsto> v)\<rparr>
     else m\<lparr>ram := (ram m)(bus a := v)\<rparr>)"

text \<open>\<^verbatim>\<open>ocbi\<close>: discard the line, dirty or not.\<close>

definition ocbi :: "u32 \<Rightarrow> machine \<Rightarrow> machine" where
  "ocbi a m = m\<lparr>dcache := (\<lambda>p. if line p = line (bus a) then None else dcache m p)\<rparr>"

lemma ld8_st8_same: "bus b = bus a \<Longrightarrow> cached b = cached a \<Longrightarrow> ld8 b (st8 a v m) = v"
  by (simp add: ld8_def st8_def)

lemma ld8_st8_other: "bus b \<noteq> bus a \<Longrightarrow> ld8 b (st8 a v m) = ld8 b m"
  by (auto simp: ld8_def st8_def fill_line_def split: option.splits)

lemma ram_st8: "ram (st8 a v m) q = (if \<not> cached a \<and> q = bus a then v else ram m q)"
  by (simp add: st8_def fill_line_def)

lemma dcache_st8_uncached: "\<not> cached a \<Longrightarrow> dcache (st8 a v m) = dcache m"
  by (simp add: st8_def)

lemma dcache_st8_line: "line q \<noteq> line (bus a) \<Longrightarrow> dcache (st8 a v m) q = dcache m q"
  by (auto simp: st8_def fill_line_def)

text \<open>Everything but the memory is left alone by a store.\<close>

definition same_regs :: "machine \<Rightarrow> machine \<Rightarrow> bool" where
  "same_regs m m' \<longleftrightarrow> bios m' = bios m \<and> io m' = io m \<and> cpu m' = cpu m \<and> gds m' = gds m
     \<and> cartd m' = cartd m \<and> gdd m' = gdd m \<and> mapled m' = mapled m \<and> utild m' = utild m
     \<and> maind m' = maind m \<and> diagd m' = diagd m"

lemma st8_fields [simp, frame]:
  "bios (st8 a v m) = bios m" "io (st8 a v m) = io m" "cpu (st8 a v m) = cpu m"
  "gds (st8 a v m) = gds m" "cartd (st8 a v m) = cartd m" "gdd (st8 a v m) = gdd m"
  "mapled (st8 a v m) = mapled m" "utild (st8 a v m) = utild m" "maind (st8 a v m) = maind m"
  "diagd (st8 a v m) = diagd m"
  by (simp_all add: st8_def fill_line_def)

section \<open>Halfwords and words, little-endian\<close>

definition ld16 :: "u32 \<Rightarrow> machine \<Rightarrow> u16" where
  "ld16 a m = ucast (ld8 a m) OR push_bit 8 (ucast (ld8 (a + 1) m))"

definition ld32 :: "u32 \<Rightarrow> machine \<Rightarrow> u32" where
  "ld32 a m = ucast (ld8 a m) OR push_bit 8 (ucast (ld8 (a + 1) m))
     OR push_bit 16 (ucast (ld8 (a + 2) m)) OR push_bit 24 (ucast (ld8 (a + 3) m))"

definition st16 :: "u32 \<Rightarrow> u16 \<Rightarrow> machine \<Rightarrow> machine" where
  "st16 a v m = st8 (a + 1) (ucast (drop_bit 8 v)) (st8 a (ucast v) m)"

definition st32 :: "u32 \<Rightarrow> u32 \<Rightarrow> machine \<Rightarrow> machine" where
  "st32 a v m = st8 (a + 3) (ucast (drop_bit 24 v)) (st8 (a + 2) (ucast (drop_bit 16 v))
     (st8 (a + 1) (ucast (drop_bit 8 v)) (st8 a (ucast v) m)))"

lemma bytes_of_u32:
  "ucast (ucast (v :: u32) :: u8) OR push_bit 8 (ucast (ucast (drop_bit 8 v) :: u8))
    OR push_bit 16 (ucast (ucast (drop_bit 16 v) :: u8))
    OR push_bit 24 (ucast (ucast (drop_bit 24 v) :: u8)) = v" (is "?l = v")
proof (rule bit_eqI)
  fix n
  assume "possible_bit TYPE(u32) n"
  then have n: "n < 32" by simp
  then consider "n < 8" | "8 \<le> n" "n < 16" | "16 \<le> n" "n < 24" | "24 \<le> n" "n < 32"
    by linarith
  then show "bit ?l n = bit v n"
    using n by cases (auto simp: bit_simps)
qed

lemma bytes_of_u16:
  "ucast (ucast (v :: u16) :: u8) OR push_bit 8 (ucast (ucast (drop_bit 8 v) :: u8)) = v" (is "?l = v")
proof (rule bit_eqI)
  fix n
  assume "possible_bit TYPE(u16) n"
  then have n: "n < 16" by simp
  then show "bit ?l n = bit v n"
    by (cases "n < 8") (auto simp: bit_simps)
qed

lemma ld8_other_field [simp]:
  "ld8 b (m\<lparr>bios := x_bios\<rparr>) = ld8 b m"
  "ld8 b (m\<lparr>io := x_io\<rparr>) = ld8 b m"
  "ld8 b (m\<lparr>cpu := x_cpu\<rparr>) = ld8 b m"
  "ld8 b (m\<lparr>gds := x_gds\<rparr>) = ld8 b m"
  "ld8 b (m\<lparr>cartd := x_cartd\<rparr>) = ld8 b m"
  "ld8 b (m\<lparr>gdd := x_gdd\<rparr>) = ld8 b m"
  "ld8 b (m\<lparr>mapled := x_mapled\<rparr>) = ld8 b m"
  "ld8 b (m\<lparr>utild := x_utild\<rparr>) = ld8 b m"
  "ld8 b (m\<lparr>maind := x_maind\<rparr>) = ld8 b m"
  "ld8 b (m\<lparr>diagd := x_diagd\<rparr>) = ld8 b m"
  by (simp_all add: ld8_def split: option.split)

lemma ld32_other_field [simp]:
  "ld32 b (m\<lparr>bios := x_bios\<rparr>) = ld32 b m"
  "ld32 b (m\<lparr>io := x_io\<rparr>) = ld32 b m"
  "ld32 b (m\<lparr>cpu := x_cpu\<rparr>) = ld32 b m"
  "ld32 b (m\<lparr>gds := x_gds\<rparr>) = ld32 b m"
  "ld32 b (m\<lparr>cartd := x_cartd\<rparr>) = ld32 b m"
  "ld32 b (m\<lparr>gdd := x_gdd\<rparr>) = ld32 b m"
  "ld32 b (m\<lparr>mapled := x_mapled\<rparr>) = ld32 b m"
  "ld32 b (m\<lparr>utild := x_utild\<rparr>) = ld32 b m"
  "ld32 b (m\<lparr>maind := x_maind\<rparr>) = ld32 b m"
  "ld32 b (m\<lparr>diagd := x_diagd\<rparr>) = ld32 b m"
  by (simp_all add: ld32_def)

text \<open>A store to a device register is also logged.\<close>

definition reg_w :: "u32 \<Rightarrow> u32 \<Rightarrow> machine \<Rightarrow> machine" where
  "reg_w a v m = (st32 a v m)\<lparr>io := io m @ [(a, v)]\<rparr>"

section \<open>Byte arrays\<close>

fun store_bytes :: "u32 \<Rightarrow> u8 list \<Rightarrow> machine \<Rightarrow> machine" where
  "store_bytes a [] m = m"
| "store_bytes a (b # bs) m = store_bytes (a + 1) bs (st8 a b m)"

definition load_bytes :: "u32 \<Rightarrow> nat \<Rightarrow> machine \<Rightarrow> u8 list" where
  "load_bytes a n m = map (\<lambda>i. ld8 (a + word_of_nat i) m) [0 ..< n]"

lemma length_load_bytes [simp]: "length (load_bytes a n m) = n"
  by (simp add: load_bytes_def)

lemma nth_load_bytes: "i < n \<Longrightarrow> load_bytes a n m ! i = ld8 (a + word_of_nat i) m"
  by (simp add: load_bytes_def)

lemma load_bytes_0 [simp]: "load_bytes a 0 m = []"
  by (simp add: load_bytes_def)

lemma load_bytes_Suc: "load_bytes a (Suc n) m = ld8 a m # load_bytes (a + 1) n m"
  by (rule nth_equalityI)
    (auto simp: nth_load_bytes nth_Cons algebra_simps split: nat.splits)

section \<open>The interface of a byte memory\<close>

text \<open>
  \<open>loc a\<close> is the cell behind address \<open>a\<close>, \<open>view a\<close> the window it is seen through, \<open>win a n\<close> says
  that the \<open>n\<close> addresses from \<open>a\<close> on are consecutive cells of one window.
\<close>

locale byte_store =
  fixes ld :: "u32 \<Rightarrow> 'm \<Rightarrow> u8" and st :: "u32 \<Rightarrow> u8 \<Rightarrow> 'm \<Rightarrow> 'm"
    and loc :: "u32 \<Rightarrow> u32" and view :: "u32 \<Rightarrow> bool" and win :: "u32 \<Rightarrow> nat \<Rightarrow> bool"
    and stores :: "u32 \<Rightarrow> u8 list \<Rightarrow> 'm \<Rightarrow> 'm"
  assumes same: "loc b = loc a \<Longrightarrow> view b = view a \<Longrightarrow> ld b (st a v m) = v"
    and other: "loc b \<noteq> loc a \<Longrightarrow> ld b (st a v m) = ld b m"
    and win_loc: "win a n \<Longrightarrow> i < n \<Longrightarrow> unat (loc (a + word_of_nat i)) = unat (loc a) + i"
    and win_view: "win a n \<Longrightarrow> i < n \<Longrightarrow> view (a + word_of_nat i) = view a"
    and win_Suc: "win a (Suc n) \<Longrightarrow> 0 < n \<Longrightarrow> win (a + 1) n"
    and stores_Nil: "stores a [] m = m"
    and stores_Cons: "stores a (c # bs) m = stores (a + 1) bs (st a c m)"
begin

definition apart :: "u32 \<Rightarrow> u32 \<Rightarrow> nat \<Rightarrow> bool" where
  "apart b a n \<longleftrightarrow> unat (loc b) < unat (loc a) \<or> unat (loc a) + n \<le> unat (loc b)"

lemma win_next: "win a (Suc n) \<Longrightarrow> 0 < n \<Longrightarrow> unat (loc (a + 1)) = unat (loc a) + 1"
  using win_loc [of a "Suc n" 1] by simp

lemma stores_other:
  "win a (length bs) \<Longrightarrow> apart b a (length bs) \<Longrightarrow> ld b (stores a bs m) = ld b m"
proof (induction bs arbitrary: a m)
  case Nil
  then show ?case by (simp add: stores_Nil)
next
  case (Cons x xs)
  have ne: "loc b \<noteq> loc a"
    using Cons.prems(2) by (auto simp: apart_def)
  show ?case
  proof (cases "xs = []")
    case True
    then show ?thesis by (simp add: stores_Cons stores_Nil other [OF ne])
  next
    case False
    with Cons.prems have w: "win (a + 1) (length xs)" and l: "unat (loc (a + 1)) = unat (loc a) + 1"
      by (auto intro: win_Suc simp: win_next)
    with Cons.prems(2) have "apart b (a + 1) (length xs)"
      by (auto simp: apart_def)
    with w Cons.IH show ?thesis by (simp add: stores_Cons other [OF ne])
  qed
qed

lemma stores_nth:
  "win a (length bs) \<Longrightarrow> i < length bs \<Longrightarrow> ld (a + word_of_nat i) (stores a bs m) = bs ! i"
proof (induction bs arbitrary: a i m)
  case Nil
  then show ?case by simp
next
  case (Cons x xs)
  show ?case
  proof (cases i)
    case 0
    show ?thesis
    proof (cases "xs = []")
      case True
      with 0 show ?thesis by (simp add: stores_Cons stores_Nil same)
    next
      case False
      with Cons.prems have w: "win (a + 1) (length xs)" and l: "unat (loc (a + 1)) = unat (loc a) + 1"
        by (auto intro: win_Suc simp: win_next)
      then have "apart a (a + 1) (length xs)" by (simp add: apart_def)
      with w have "ld a (stores (a + 1) xs (st a x m)) = ld a (st a x m)"
        by (rule stores_other)
      with 0 show ?thesis by (simp add: stores_Cons same)
    qed
  next
    case (Suc j)
    with Cons.prems have "win (a + 1) (length xs)" "j < length xs"
      by (auto intro: win_Suc)
    then have "ld (a + 1 + word_of_nat j) (stores (a + 1) xs (st a x m)) = xs ! j"
      by (rule Cons.IH)
    with Suc show ?thesis by (simp add: stores_Cons add.assoc)
  qed
qed

text \<open>A read through another window of a cell the stores do not touch, or of none of them.\<close>

lemma stores_map:
  assumes "win a (length bs)"
  shows "map (\<lambda>i. ld (a + word_of_nat i) (stores a bs m)) [0 ..< length bs] = bs"
  using assms by (intro nth_equalityI) (simp_all add: stores_nth)

end

section \<open>The machine's memory is a byte memory\<close>

lemma unat_bus: "unat (bus a) = (if 3758096384 \<le> unat a then unat a else unat a mod 536870912)"
  by (simp add: bus_def unat_and_mask29 word_le_nat_alt)

lemma span_div:
  "span a n \<Longrightarrow> i < n \<Longrightarrow> unat (a + word_of_nat i) div 536870912 = unat a div 536870912"
  by (simp add: span_unat) (simp add: span_def div_block)

lemma span_mod:
  "span a n \<Longrightarrow> i < n \<Longrightarrow> unat (a + word_of_nat i) mod 536870912 = unat a mod 536870912 + i"
  by (simp add: span_unat) (simp add: span_def mod_block)

lemma p4_div: "3758096384 \<le> unat (a :: u32) \<longleftrightarrow> unat a div 536870912 = 7"
proof -
  have "unat a div 536870912 < 8"
    by (simp add: less_mult_imp_div_less)
  moreover have "unat a = 536870912 * (unat a div 536870912) + unat a mod 536870912"
    by simp
  moreover have "unat a mod 536870912 < 536870912" by simp
  ultimately show ?thesis by linarith
qed

lemma unat_bus_div:
  "unat (bus a) = (if unat a div 536870912 = 7 then unat a else unat a mod 536870912)"
  by (simp only: unat_bus p4_div)

lemma span_bus:
  assumes "span a n" "i < n"
  shows "unat (bus (a + word_of_nat i)) = unat (bus a) + i"
  unfolding unat_bus_div [of "a + word_of_nat i"] span_div [OF assms] span_mod [OF assms]
  unfolding span_unat [OF assms] by (simp add: unat_bus_div)

lemma span_cached: "span a n \<Longrightarrow> i < n \<Longrightarrow> cached (a + word_of_nat i) = cached a"
  by (simp add: cached_div span_div)

lemma span_Suc: "span a (Suc n) \<Longrightarrow> 0 < n \<Longrightarrow> span (a + 1) n"
  using span_mod [of a "Suc n" 1] by (simp add: span_def)

interpretation mem: byte_store ld8 st8 bus cached span store_bytes
  by unfold_locales
    (simp_all add: ld8_st8_same ld8_st8_other span_bus span_cached span_Suc)

section \<open>Word cells\<close>

lemma st16_bytes: "st16 a v m = store_bytes a [ucast v, ucast (drop_bit 8 v)] m"
  by (simp add: st16_def)

lemma st32_bytes:
  "st32 a v m = store_bytes a
     [ucast v, ucast (drop_bit 8 v), ucast (drop_bit 16 v), ucast (drop_bit 24 v)] m"
  by (simp add: st32_def add.assoc)

lemma span_lit [simp]:
  "span a (Suc (Suc 0)) = span a 2" "span a (Suc (Suc (Suc (Suc 0)))) = span a 4"
  by (simp_all add: eval_nat_numeral)

lemma apart_lit [simp]:
  "mem.apart b a (Suc (Suc 0)) = mem.apart b a 2"
  "mem.apart b a (Suc (Suc (Suc (Suc 0)))) = mem.apart b a 4"
  by (simp_all add: eval_nat_numeral)

lemma store_nth4:
  assumes "span a 4"
  shows "ld8 a (store_bytes a [x, y, z, w] m) = x"
    and "ld8 (a + 1) (store_bytes a [x, y, z, w] m) = y"
    and "ld8 (a + 2) (store_bytes a [x, y, z, w] m) = z"
    and "ld8 (a + 3) (store_bytes a [x, y, z, w] m) = w"
  using assms mem.stores_nth [of a "[x, y, z, w]" 0 m] mem.stores_nth [of a "[x, y, z, w]" 1 m]
    mem.stores_nth [of a "[x, y, z, w]" 2 m] mem.stores_nth [of a "[x, y, z, w]" 3 m]
  by (simp_all del: store_bytes.simps)

lemma ld32_st32_same: "span a 4 \<Longrightarrow> ld32 a (st32 a v m) = v"
  by (simp add: ld32_def st32_bytes store_nth4 bytes_of_u32 del: store_bytes.simps)

lemma ld16_st16_same: "span a 2 \<Longrightarrow> ld16 a (st16 a v m) = v"
  using mem.stores_nth [of a "[ucast v, ucast (drop_bit 8 v)]" 0 m]
    mem.stores_nth [of a "[ucast v, ucast (drop_bit 8 v)]" 1 m]
  by (simp add: ld16_def st16_bytes bytes_of_u16 del: store_bytes.simps)

lemma ld8_st32_other: "span a 4 \<Longrightarrow> mem.apart b a 4 \<Longrightarrow> ld8 b (st32 a v m) = ld8 b m"
  by (simp add: st32_bytes mem.stores_other del: store_bytes.simps)

lemma ld8_st16_other: "span a 2 \<Longrightarrow> mem.apart b a 2 \<Longrightarrow> ld8 b (st16 a v m) = ld8 b m"
  by (simp add: st16_bytes mem.stores_other del: store_bytes.simps)

text \<open>Two cells that do not overlap.\<close>

definition cells_apart :: "u32 \<Rightarrow> nat \<Rightarrow> u32 \<Rightarrow> nat \<Rightarrow> bool" where
  "cells_apart b k a n \<longleftrightarrow> span b k \<and> span a n \<and>
     (unat (bus b) + k \<le> unat (bus a) \<or> unat (bus a) + n \<le> unat (bus b))"

lemma cells_apart_byte:
  "cells_apart b k a n \<Longrightarrow> i < k \<Longrightarrow> mem.apart (b + word_of_nat i) a n"
  by (auto simp: cells_apart_def mem.apart_def span_bus)

lemma ld32_st32_other:
  assumes "cells_apart b 4 a 4"
  shows "ld32 b (st32 a v m) = ld32 b m"
  using cells_apart_byte [OF assms, of 0] cells_apart_byte [OF assms, of 1]
    cells_apart_byte [OF assms, of 2] cells_apart_byte [OF assms, of 3] assms
  by (simp add: ld32_def ld8_st32_other cells_apart_def)

section \<open>Frames of block stores\<close>

lemma store_bytes_fields [simp, frame]:
  "bios (store_bytes a bs m) = bios m" "io (store_bytes a bs m) = io m"
  "cpu (store_bytes a bs m) = cpu m" "gds (store_bytes a bs m) = gds m"
  "cartd (store_bytes a bs m) = cartd m" "gdd (store_bytes a bs m) = gdd m"
  "mapled (store_bytes a bs m) = mapled m" "utild (store_bytes a bs m) = utild m"
  "maind (store_bytes a bs m) = maind m" "diagd (store_bytes a bs m) = diagd m"
  by (induction bs arbitrary: a m) simp_all

lemma st32_fields [simp, frame]:
  "bios (st32 a v m) = bios m" "io (st32 a v m) = io m" "cpu (st32 a v m) = cpu m"
  "gds (st32 a v m) = gds m" "cartd (st32 a v m) = cartd m" "gdd (st32 a v m) = gdd m"
  "mapled (st32 a v m) = mapled m" "utild (st32 a v m) = utild m" "maind (st32 a v m) = maind m" "diagd (st32 a v m) = diagd m"
  by (simp_all add: st32_def)

lemma st16_fields [simp, frame]:
  "bios (st16 a v m) = bios m" "io (st16 a v m) = io m" "cpu (st16 a v m) = cpu m"
  "gds (st16 a v m) = gds m" "cartd (st16 a v m) = cartd m" "gdd (st16 a v m) = gdd m"
  "mapled (st16 a v m) = mapled m" "utild (st16 a v m) = utild m" "maind (st16 a v m) = maind m" "diagd (st16 a v m) = diagd m"
  by (simp_all add: st16_def)

lemma reg_w_fields [simp, frame]:
  "bios (reg_w a v m) = bios m" "io (reg_w a v m) = io m @ [(a, v)]" "cpu (reg_w a v m) = cpu m"
  "gds (reg_w a v m) = gds m" "cartd (reg_w a v m) = cartd m" "gdd (reg_w a v m) = gdd m"
  "mapled (reg_w a v m) = mapled m" "utild (reg_w a v m) = utild m" "maind (reg_w a v m) = maind m" "diagd (reg_w a v m) = diagd m"
  by (simp_all add: reg_w_def)

lemma store_bytes_uncached:
  assumes "\<not> cached a" "span a (length bs)"
  shows "dcache (store_bytes a bs m) = dcache m"
    and "ram (store_bytes a bs m) q =
      (if unat (bus a) \<le> unat q \<and> unat q < unat (bus a) + length bs
       then bs ! (unat q - unat (bus a)) else ram m q)"
proof -
  have "dcache (store_bytes a bs m) = dcache m \<and> ram (store_bytes a bs m) q =
      (if unat (bus a) \<le> unat q \<and> unat q < unat (bus a) + length bs
       then bs ! (unat q - unat (bus a)) else ram m q)"
    using assms
  proof (induction bs arbitrary: a m)
    case Nil
    then show ?case by auto
  next
    case (Cons x xs)
    show ?case
    proof (cases "xs = []")
      case True
      with Cons.prems show ?thesis
        by (auto simp: ram_st8 dcache_st8_uncached word_unat_eq_iff)
    next
      case False
      with Cons.prems have "span (a + 1) (length xs)" "unat (bus (a + 1)) = unat (bus a) + 1"
        "\<not> cached (a + 1)"
        using span_cached [of a "Suc (length xs)" 1]
        by (auto intro: span_Suc simp: mem.win_next)
      then show ?thesis
        using Cons.IH [of "a + 1" "st8 a x m"] Cons.prems(1)
        by (auto simp: ram_st8 dcache_st8_uncached word_unat_eq_iff nth_Cons' Suc_diff_le)
    qed
  qed
  then show "dcache (store_bytes a bs m) = dcache m"
    and "ram (store_bytes a bs m) q =
      (if unat (bus a) \<le> unat q \<and> unat q < unat (bus a) + length bs
       then bs ! (unat q - unat (bus a)) else ram m q)"
    by blast+
qed

lemma store_bytes_cached:
  assumes "cached a" "span a (length bs)"
  shows "ram (store_bytes a bs m) = ram m"
    and "line q < line (bus a) \<or> (unat (bus a) + length bs - 1) div 32 < line q
      \<Longrightarrow> dcache (store_bytes a bs m) q = dcache m q"
proof -
  have "ram (store_bytes a bs m) = ram m \<and>
    (line q < line (bus a) \<or> (unat (bus a) + length bs - 1) div 32 < line q
      \<longrightarrow> dcache (store_bytes a bs m) q = dcache m q)"
    using assms
  proof (induction bs arbitrary: a m)
    case Nil
    then show ?case by simp
  next
    case (Cons x xs)
    have r: "ram (st8 a x m) = ram m"
      using Cons.prems(1) by (auto simp: ram_st8)
    show ?case
    proof (cases "xs = []")
      case True
      then show ?thesis
        by (auto simp: r dcache_st8_line line_def)
    next
      case False
      with Cons.prems have *: "span (a + 1) (length xs)" "unat (bus (a + 1)) = unat (bus a) + 1"
        "cached (a + 1)"
        using span_cached [of a "Suc (length xs)" 1]
        by (auto intro: span_Suc simp: mem.win_next)
      have le: "unat (bus a) div 32 \<le> (unat (bus a) + length xs) div 32"
        "unat (bus a) div 32 \<le> (unat (bus a) + 1) div 32"
        by (simp_all add: div_le_mono)
      then show ?thesis
        using Cons.IH [OF *(3,1), of "st8 a x m"] *(2) False le
        by (auto simp: r dcache_st8_line line_def)
    qed
  qed
  then show "ram (store_bytes a bs m) = ram m"
    and "line q < line (bus a) \<or> (unat (bus a) + length bs - 1) div 32 < line q
      \<Longrightarrow> dcache (store_bytes a bs m) q = dcache m q"
    by blast+
qed

text \<open>An uncached word of main memory.\<close>

lemma p2_word:
  assumes "0xac000000 \<le> unat a" "unat a + 4 \<le> 0xb0000000"
  shows "span a 4" "unat (bus a) = unat a - 0xa0000000" "\<not> cached a"
proof -
  have "unat a div 536870912 = 5" "unat a mod 536870912 = unat a - 0xa0000000"
    using assms by (simp_all add: div_nat_eqI mod_nat_eqI)
  then show "span a 4" "unat (bus a) = unat a - 0xa0000000" "\<not> cached a"
    using assms by (simp_all add: span_def unat_bus_div cached_div)
qed

end
