(* ===== verification/Scif.thy ===== *)
theory Scif
  imports Memory
begin

text \<open>
  \<^verbatim>\<open>shims/src/scif.c\<close>: the serial debug output. With \<open>SHIM_SERIAL\<close> off (the release default) nothing
  is touched; with it on, each character waits a bounded time for the transmitter.
\<close>

definition SCFSR2 :: u32 where [src_consts]: "SCFSR2 = 0xffe80010"
definition SCFTDR2 :: u32 where [src_consts]: "SCFTDR2 = 0xffe8000c"

definition reg_w8 :: "u32 \<Rightarrow> u8 \<Rightarrow> machine \<Rightarrow> machine" where
  "reg_w8 a v m = (st8 a v m)\<lparr>io := io m @ [(a, ucast v)]\<rparr>"

definition reg_w16 :: "u32 \<Rightarrow> u16 \<Rightarrow> machine \<Rightarrow> machine" where
  "reg_w16 a v m = (st16 a v m)\<lparr>io := io m @ [(a, ucast v)]\<rparr>"

text \<open>
  The loop \<^verbatim>\<open>for (g = 0; !(SCFSR2 & 0x20); g++) if (g > 1000000u) return;\<close>: the device moves before
  each read of the status register. \<open>True\<close>: the transmitter is ready; \<open>False\<close>: gave up.
\<close>

function scif_wait :: "env \<Rightarrow> u32 \<Rightarrow> machine \<Rightarrow> bool \<times> machine" where
  "scif_wait E g m =
     (let m1 = scif_hw E m in
      if ld16 SCFSR2 m1 AND 0x20 \<noteq> 0 then (True, m1)
      else if g > 1000000 then (False, m1)
      else scif_wait E (g + 1) m1)"
  by pat_completeness auto
termination
proof (relation "measure (\<lambda>(E, g, m). 1000001 - unat g)")
  fix E :: env and g :: u32 and m m1 :: machine
  assume "\<not> 1000000 < g"
  then have "unat g \<le> 1000000" by (simp add: word_less_nat_alt)
  then show "((E, g + 1, m1), E, g, m) \<in> measure (\<lambda>(E, g, m). 1000001 - unat g)"
    using unat_add_lt [of g 1] by simp
qed simp

declare scif_wait.simps [simp del]

definition scif_putc :: "env \<Rightarrow> u8 \<Rightarrow> machine \<Rightarrow> machine" where
  "scif_putc E c m =
     (if SHIM_SERIAL E then
        (case scif_wait E 0 m of
           (False, m1) \<Rightarrow> m1
         | (True, m1) \<Rightarrow>
             (let m2 = reg_w8 SCFTDR2 c m1
              in reg_w16 SCFSR2 (ld16 SCFSR2 m2 AND NOT 0x60) m2))
      else m)"

fun scif_puts :: "env \<Rightarrow> string \<Rightarrow> machine \<Rightarrow> machine" where
  "scif_puts E [] m = m"
| "scif_puts E (c # s) m =
     (let m1 = (if c = CHR 0x0A then scif_putc E 0x0d m else m)
      in scif_puts E s (scif_putc E (of_char c) m1))"

definition hexdigit :: "u32 \<Rightarrow> u8" where
  "hexdigit n = of_char (''0123456789abcdef'' ! unat (n AND 15))"

definition scif_puthex :: "env \<Rightarrow> u32 \<Rightarrow> machine \<Rightarrow> machine" where
  "scif_puthex E v m =
     fold (\<lambda>i. scif_putc E (hexdigit (drop_bit i v))) [28, 24, 20, 16, 12, 8, 4, 0] m"

section \<open>A release build leaves the port alone\<close>

lemma scif_putc_off [simp, frame]: "\<not> SHIM_SERIAL E \<Longrightarrow> scif_putc E c m = m"
  by (simp add: scif_putc_def)

lemma scif_puts_off [simp, frame]: "\<not> SHIM_SERIAL E \<Longrightarrow> scif_puts E s m = m"
  by (induction s) auto

lemma scif_puthex_off [simp, frame]: "\<not> SHIM_SERIAL E \<Longrightarrow> scif_puthex E v m = m"
  by (simp add: scif_puthex_def)

declare scif_puts.simps [simp del]

end
