(* ===== verification/Util.thy ===== *)
theory Util
  imports Scif
begin

text \<open>
  \<^verbatim>\<open>shims/src/util.c\<close>: the freestanding memory routines, the painters of the live frame buffer
  (breadcrumb marks, hexadecimal digits, the boot load bar), the video-cable sense with the
  video-mode fix, and the fatal screen.
\<close>

section \<open>Memory routines\<close>

fun memcpy_loop :: "nat \<Rightarrow> u32 \<Rightarrow> u32 \<Rightarrow> machine \<Rightarrow> machine" where
  "memcpy_loop 0 d s m = m"
| "memcpy_loop (Suc n) d s m = memcpy_loop n (d + 1) (s + 1) (st8 d (ld8 s m) m)"

definition memcpy :: "u32 \<Rightarrow> u32 \<Rightarrow> u32 \<Rightarrow> machine \<Rightarrow> machine" where
  "memcpy d s n m = memcpy_loop (unat n) d s m"

text \<open>\<^verbatim>\<open>memset\<close> stores the low byte of its \<^verbatim>\<open>int\<close> argument.\<close>

fun memset_loop :: "nat \<Rightarrow> u32 \<Rightarrow> u8 \<Rightarrow> machine \<Rightarrow> machine" where
  "memset_loop 0 d c m = m"
| "memset_loop (Suc n) d c m = memset_loop n (d + 1) c (st8 d c m)"

definition memset :: "u32 \<Rightarrow> u32 \<Rightarrow> u32 \<Rightarrow> machine \<Rightarrow> machine" where
  "memset d c n m = memset_loop (unat n) d (ucast c) m"

definition xmemcpy :: "u32 \<Rightarrow> u32 \<Rightarrow> u32 \<Rightarrow> machine \<Rightarrow> machine" where
  "xmemcpy d s n m = memcpy d s n m"

section \<open>Painting the live frame buffer\<close>

definition VO_CONTROL :: u32 where [src_consts]: "VO_CONTROL = 0xa05f80e8"
definition FB_R_SOF1 :: u32 where [src_consts]: "FB_R_SOF1 = 0xa05f8050"
definition VRAM :: u32 where [src_consts]: "VRAM = 0xa5000000"

definition unblank :: "machine \<Rightarrow> machine" where
  "unblank m = reg_w VO_CONTROL (ld32 VO_CONTROL m AND NOT 8) m"

definition live_fb :: "machine \<Rightarrow> u32" where
  "live_fb m = VRAM + (ld32 FB_R_SOF1 m AND 0x00fffffc)"

text \<open>\<^verbatim>\<open>fb[i] = c\<close> for a pointer to halfwords.\<close>

definition put_px :: "u32 \<Rightarrow> nat \<Rightarrow> u16 \<Rightarrow> machine \<Rightarrow> machine" where
  "put_px fb i c m = st16 (fb + 2 * word_of_nat i) c m"

definition get_px :: "u32 \<Rightarrow> nat \<Rightarrow> machine \<Rightarrow> u16" where
  "get_px fb i m = ld16 (fb + 2 * word_of_nat i) m"

definition shim_mark :: "env \<Rightarrow> u32 \<Rightarrow> u16 \<Rightarrow> machine \<Rightarrow> machine" where
  "shim_mark E slot color m =
     (if \<not> SHIM_HUD E then m
      else let m1 = unblank m;
               fb0 = live_fb m1;
               fb = (if slot \<ge> 16 then fb0 + 2 * (12 * 640 + (slot - 16) * 24) else fb0 + 2 * (slot * 24))
           in fold (\<lambda>y. fold (\<lambda>x. put_px fb (y * 640 + x) color) [0 ..< 16]) [0 ..< 8] m1)"

definition hexfont :: "u8 list list" where
  "hexfont =
    [[7,5,5,5,7],[2,6,2,2,7],[7,1,7,4,7],[7,1,7,1,7],
     [5,5,7,1,1],[7,4,7,1,7],[7,4,7,5,7],[7,1,2,2,2],
     [7,5,7,5,7],[7,5,7,1,7],[2,5,7,5,5],[6,5,6,5,6],
     [7,4,4,4,7],[6,5,5,5,6],[7,4,7,4,7],[7,4,7,4,4]]"

text \<open>One font cell: a 2x2 block at column \<open>c\<close>, row \<open>r\<close> of digit \<open>d\<close>.\<close>

definition hex_cell :: "u32 \<Rightarrow> nat \<Rightarrow> nat \<Rightarrow> u32 \<Rightarrow> u16 \<Rightarrow> u16 \<Rightarrow> nat \<Rightarrow> nat \<Rightarrow> nat \<Rightarrow> machine \<Rightarrow> machine" where
  "hex_cell fb x y val fg bg d r c m =
     (let nib = unat (drop_bit ((7 - d) * 4) val AND 0xf);
          px = (if drop_bit (2 - c) (hexfont ! nib ! r) AND 1 \<noteq> 0 then fg else bg);
          px_x = x + d * 10 + c * 2;
          px_y = y + r * 2
      in put_px fb ((px_y + 1) * 640 + px_x + 1) px
          (put_px fb ((px_y + 1) * 640 + px_x) px
            (put_px fb (px_y * 640 + px_x + 1) px
              (put_px fb (px_y * 640 + px_x) px m))))"

definition hex_paint_c :: "nat \<Rightarrow> nat \<Rightarrow> u32 \<Rightarrow> u16 \<Rightarrow> u16 \<Rightarrow> machine \<Rightarrow> machine" where
  "hex_paint_c x y val fg bg m =
     (let m1 = unblank m; fb = live_fb m1
      in fold (\<lambda>d. fold (\<lambda>r. fold (\<lambda>c. hex_cell fb x y val fg bg d r c) [0 ..< 3]) [0 ..< 5]) [0 ..< 8] m1)"

definition hex_paint :: "nat \<Rightarrow> nat \<Rightarrow> u32 \<Rightarrow> machine \<Rightarrow> machine" where
  "hex_paint x y val m = hex_paint_c x y val 0x07ff 0x0000 m"

definition shim_hex :: "env \<Rightarrow> nat \<Rightarrow> nat \<Rightarrow> u32 \<Rightarrow> machine \<Rightarrow> machine" where
  "shim_hex E x y val m = (if \<not> SHIM_HUD E then m else hex_paint x y val m)"

definition loadbar_paint :: "u32 \<Rightarrow> machine \<Rightarrow> machine" where
  "loadbar_paint fill0 m =
     (let fill = (if fill0 > 320 then 320 else fill0);
          fb = live_fb m;
          yb = 417;
          m1 = fold (\<lambda>x m. put_px fb (yb * 640 + x) 0 (put_px fb ((yb + 11) * 640 + x) 0 m)) [158 ..< 483] m;
          m2 = fold (\<lambda>y m. put_px fb (y * 640 + 158) 0 (put_px fb (y * 640 + 482) 0 m)) [yb + 1 ..< yb + 11] m1;
          m3 = fold (\<lambda>y. fold (\<lambda>x. put_px fb (y * 640 + 160 + x)
                 (if x < unat fill then 0x7984 else 0)) [0 ..< 320]) [yb + 3 ..< yb + 9] m2
      in unblank m3)"

section \<open>Video cable and video mode\<close>

definition PCTRA :: u32 where [src_consts]: "PCTRA = 0xff80002c"
definition PDTRA :: u32 where [src_consts]: "PDTRA = 0xff800030"

definition shim_cable_is_vga :: "machine \<Rightarrow> bool \<times> machine" where
  "shim_cable_is_vga m =
     (let m1 = (if cable_latch (utild m) > 3
        then let m0 = reg_w PCTRA ((ld32 PCTRA m AND 0xfff0ffff) OR 0x000a0000) m
             in m0\<lparr>utild := (utild m0)\<lparr>cable_latch := drop_bit 8 (ucast (ld16 PDTRA m0)) AND 3\<rparr>\<rparr>
        else m)
      in (cable_latch (utild m1) = 0, m1))"

text \<open>
  \<^verbatim>\<open>ls_stampA\<close> of \<^verbatim>\<open>main.c\<close>, called from three files: the first time a milestone is reached, its slot latches
  the clock and the transaction count. In the release build it is empty.
\<close>

definition ls_stampA :: "env \<Rightarrow> nat \<Rightarrow> machine \<Rightarrow> machine" where
  "ls_stampA E slot m =
     (let d = diagd m
      in if SHIM_LOADSTAT E \<and> la_sh d \<noteq> 0xff \<and> la_seen d AND push_bit slot 1 = 0
         then m\<lparr>diagd := d\<lparr>la_seen := la_seen d OR push_bit slot 1, la_stamp := (la_stamp d)[slot := la_ticks d],
                la_mie := (la_mie d)[slot := mie_count d]\<rparr>\<rparr>
         else m)"

definition shim_vid_init :: "env \<Rightarrow> u32 \<Rightarrow> u32 \<Rightarrow> u32 \<Rightarrow> u32 \<Rightarrow> machine \<Rightarrow> u32 \<times> machine" where
  "shim_vid_init E mode b c d m =
     (let (vga, m1) = shim_cable_is_vga (ls_stampA E 3 m);
          mode' = (if \<not> vga then mode AND NOT 3 else mode);
          (r, m2) = vid_sdk E mode' b c d m1
      in (r, if SHIM_LOADBAR E then loadbar_paint 0 m2 else m2))"

section \<open>The fatal screen\<close>

definition die_color :: "u32 \<Rightarrow> u32" where
  "die_color code =
     (if code = 2 then 0xffe0ffe0
      else if code = 3 then 0xf81ff81f
      else if code = 4 then 0xf800f800
      else if code = 5 then 0x001f001f
      else 0x07ff07ff)"

definition shim_die :: "env \<Rightarrow> u32 \<Rightarrow> u32 \<Rightarrow> u32 \<Rightarrow> machine \<Rightarrow> 'a outcome" where
  "shim_die E code a b m =
     (let e = P2ADDR SHIM_ERR;
          m1 = st32 e code (st32 (e + 12) 0xdeadcafe (st32 (e + 8) b (st32 (e + 4) a m)));
          m2 = scif_puthex E code (scif_puts E ''SHIMERR code='' m1);
          m3 = scif_puthex E a (scif_puts E '' a='' m2);
          m4 = scif_puts E [CHR 0x0A] (scif_puthex E b (scif_puts E '' b='' m3));
          px = die_color code;
          m5 = fold (\<lambda>i. st32 (VRAM + 4 * word_of_nat i) px) [0 ..< 0x100000 div 4] m4
      in Die code a b (hex_paint 20 128 b (hex_paint 20 114 a (hex_paint 20 100 code m5))))"

end
