(* ===== verification/Framebuffer.thy ===== *)
theory Framebuffer
  imports Util
begin

text \<open>
  Facts on the routines of \<^verbatim>\<open>util.c\<close>: block copies as array stores, what the painters do to the
  frame buffer, and that nothing they do reaches main memory.
\<close>

section \<open>Block copies\<close>

definition blocks_apart :: "u32 \<Rightarrow> u32 \<Rightarrow> nat \<Rightarrow> bool" where
  "blocks_apart d s n \<longleftrightarrow> span d n \<and> span s n \<and>
     (unat (bus s) + n \<le> unat (bus d) \<or> unat (bus d) + n \<le> unat (bus s))"

lemma blocks_apart_Suc: "blocks_apart d s (Suc n) \<Longrightarrow> 0 < n \<Longrightarrow> blocks_apart (d + 1) (s + 1) n"
  using span_bus [of d "Suc n" 1] span_bus [of s "Suc n" 1]
  by (auto simp: blocks_apart_def intro: span_Suc)

lemma load_bytes_st8:
  assumes "\<And>i. i < n \<Longrightarrow> bus (s + word_of_nat i) \<noteq> bus a"
  shows "load_bytes s n (st8 a v m) = load_bytes s n m"
  using assms by (auto simp: load_bytes_def ld8_st8_other)

lemma memcpy_loop_store_bytes:
  "blocks_apart d s n \<Longrightarrow> memcpy_loop n d s m = store_bytes d (load_bytes s n m) m"
proof (induction n arbitrary: d s m)
  case 0
  then show ?case by simp
next
  case (Suc n)
  show ?case
  proof (cases "n = 0")
    case True
    then show ?thesis by (simp add: load_bytes_Suc)
  next
    case False
    then have ap: "blocks_apart (d + 1) (s + 1) n"
      using Suc.prems by (simp add: blocks_apart_Suc)
    have "bus (s + 1 + word_of_nat i) \<noteq> bus d" if "i < n" for i
    proof -
      have "unat (bus (s + word_of_nat (Suc i))) = unat (bus s) + Suc i"
        using Suc.prems that span_bus [of s "Suc n" "Suc i"] by (simp only: blocks_apart_def Suc_less_eq)
      then show ?thesis
        using Suc.prems that by (auto simp: blocks_apart_def add.assoc)
    qed
    then have "load_bytes (s + 1) n (st8 d (ld8 s m) m) = load_bytes (s + 1) n m"
      by (rule load_bytes_st8)
    with Suc.IH [OF ap] show ?thesis by (simp add: load_bytes_Suc)
  qed
qed

lemma xmemcpy_store_bytes:
  "blocks_apart d s (unat n) \<Longrightarrow> xmemcpy d s n m = store_bytes d (load_bytes s (unat n) m) m"
  by (simp add: xmemcpy_def memcpy_def memcpy_loop_store_bytes)

lemma memset_loop_store_bytes: "memset_loop n d c m = store_bytes d (replicate n c) m"
  by (induction n arbitrary: d m) simp_all

section \<open>Device-only effects\<close>

text \<open>\<open>dev_only m m'\<close>: from \<open>m\<close> to \<open>m'\<close> only device memory and the register log have changed.\<close>

definition dev_only :: "machine \<Rightarrow> machine \<Rightarrow> bool" where
  "dev_only m m' \<longleftrightarrow>
     (\<forall>q. 0x0c000000 \<le> unat q \<and> unat q < 0x10000000 \<longrightarrow> ram m' q = ram m q) \<and>
     dcache m' = dcache m \<and> bios m' = bios m \<and> cpu m' = cpu m \<and> gds m' = gds m \<and>
     cartd m' = cartd m \<and> gdd m' = gdd m \<and> mapled m' = mapled m \<and> utild m' = utild m \<and>
     maind m' = maind m \<and> diagd m' = diagd m"

lemma dev_only_refl [simp, intro]: "dev_only m m"
  by (simp add: dev_only_def)

lemma dev_only_trans [trans]: "dev_only a b \<Longrightarrow> dev_only b c \<Longrightarrow> dev_only a c"
  by (simp add: dev_only_def)

lemma dev_only_fold:
  "(\<And>x m. x \<in> set xs \<Longrightarrow> dev_only m (f x m)) \<Longrightarrow> dev_only m (fold f xs m)"
proof (induction xs arbitrary: m)
  case Nil
  then show ?case by simp
next
  case (Cons x xs)
  then have "dev_only m (f x m)" "dev_only (f x m) (fold f xs (f x m))" by auto
  then show ?case by (simp add: dev_only_trans)
qed

text \<open>An address window of devices: \<open>n\<close> uncached bytes from \<open>a\<close> on, none of them main memory.\<close>

definition dev_addr :: "u32 \<Rightarrow> nat \<Rightarrow> bool" where
  "dev_addr a n \<longleftrightarrow> \<not> cached a \<and> span a n \<and>
     (unat (bus a) + n \<le> 0x0c000000 \<or> 0x10000000 \<le> unat (bus a))"

lemma dev_only_store_bytes: "dev_addr a (length bs) \<Longrightarrow> dev_only m (store_bytes a bs m)"
  by (auto simp: dev_addr_def dev_only_def store_bytes_uncached)

lemma dev_only_st32: "dev_addr a 4 \<Longrightarrow> dev_only m (st32 a v m)"
  by (simp add: st32_bytes dev_only_store_bytes eval_nat_numeral del: store_bytes.simps)

lemma dev_only_st16: "dev_addr a 2 \<Longrightarrow> dev_only m (st16 a v m)"
  by (simp add: st16_bytes dev_only_store_bytes eval_nat_numeral del: store_bytes.simps)

lemma dev_only_reg_w: "dev_addr a 4 \<Longrightarrow> dev_only m (reg_w a v m)"
  using dev_only_st32 [of a m v] by (simp add: reg_w_def dev_only_def)

section \<open>Pixels\<close>

definition fb_ok :: "u32 \<Rightarrow> bool" where
  "fb_ok fb \<longleftrightarrow> 0xa5000000 \<le> unat fb \<and> unat fb \<le> 0xa5fffffc"

lemma live_fb_ok: "fb_ok (live_fb m)"
proof -
  have "ld32 FB_R_SOF1 m AND 0x00fffffc \<le> (0x00fffffc :: u32)"
    by (rule word_and_le1)
  then have "unat (ld32 FB_R_SOF1 m AND 0x00fffffc) \<le> 0x00fffffc"
    by (simp add: word_le_nat_alt)
  then show ?thesis
    by (simp add: fb_ok_def live_fb_def VRAM_def unat_add_lt)
qed

definition px_ok :: "u32 \<Rightarrow> nat \<Rightarrow> bool" where
  "px_ok fb i \<longleftrightarrow> fb_ok fb \<and> i < 640 * 480"

lemma px_addr:
  assumes "px_ok fb i"
  shows "unat (fb + 2 * word_of_nat i) = unat fb + 2 * i"
  using assms unat_add_of_nat [of fb "2 * i"] by (simp add: px_ok_def fb_ok_def)

lemma px_facts:
  assumes "px_ok fb i"
  shows "span (fb + 2 * word_of_nat i) 2" "\<not> cached (fb + 2 * word_of_nat i)"
    "unat (bus (fb + 2 * word_of_nat i)) = unat fb + 2 * i - 0xa0000000"
proof -
  let ?a = "fb + 2 * word_of_nat i"
  have r: "0xa5000000 \<le> unat ?a" "unat ?a < 0xa6100000"
    using assms by (simp_all only: px_addr) (simp_all add: px_ok_def fb_ok_def)
  then have "unat ?a div 536870912 = 5" "unat ?a mod 536870912 = unat ?a - 0xa0000000"
    by (simp_all add: div_nat_eqI mod_nat_eqI)
  then show "span ?a 2" "\<not> cached ?a" "unat (bus ?a) = unat fb + 2 * i - 0xa0000000"
    using r px_addr [OF assms] by (simp_all add: span_def cached_div unat_bus_div)
qed

text \<open>The interface the painters use: pixels of one frame buffer are independent cells.\<close>

locale pixel_store =
  fixes get :: "u32 \<Rightarrow> nat \<Rightarrow> 'm \<Rightarrow> u16" and put :: "u32 \<Rightarrow> nat \<Rightarrow> u16 \<Rightarrow> 'm \<Rightarrow> 'm"
    and okp :: "u32 \<Rightarrow> nat \<Rightarrow> bool"
  assumes get_put: "okp fb i \<Longrightarrow> okp fb j \<Longrightarrow>
    get fb j (put fb i c m) = (if i = j then c else get fb j m)"
begin

lemma get_put2:
  "okp fb i \<Longrightarrow> okp fb k \<Longrightarrow> okp fb j \<Longrightarrow>
    get fb j (put fb i c (put fb k c m)) = (if j = i \<or> j = k then c else get fb j m)"
  by (simp add: get_put)

lemma get_fold:
  assumes "\<And>x m. x \<in> set xs \<Longrightarrow> get fb j (f x m) = (if P x then c else get fb j m)"
  shows "get fb j (fold f xs m) = (if \<exists>x \<in> set xs. P x then c else get fb j m)"
  using assms by (induction xs arbitrary: m) auto

lemma get_fold_row:
  assumes "\<And>x. x \<in> set xs \<Longrightarrow> okp fb (ix x)" "okp fb j"
    and "\<And>x. x \<in> set xs \<Longrightarrow> ix x = j \<Longrightarrow> col x = c"
  shows "get fb j (fold (\<lambda>x. put fb (ix x) (col x)) xs m) =
    (if \<exists>x \<in> set xs. ix x = j then c else get fb j m)"
  using assms by (intro get_fold) (simp add: get_put)

end

lemma px_get_put:
  assumes "px_ok fb i" "px_ok fb j"
  shows "get_px fb j (put_px fb i c m) = (if i = j then c else get_px fb j m)"
proof (cases "i = j")
  case True
  with assms show ?thesis
    by (simp add: get_px_def put_px_def ld16_st16_same px_facts)
next
  case False
  let ?a = "fb + 2 * word_of_nat i" and ?b = "fb + 2 * word_of_nat j"
  have "0xa5000000 \<le> unat fb" using assms by (simp add: px_ok_def fb_ok_def)
  then have "cells_apart ?b 2 ?a 2"
    using False px_facts [OF assms(1)] px_facts [OF assms(2)] by (auto simp: cells_apart_def)
  then have "mem.apart ?b ?a 2" "mem.apart (?b + 1) ?a 2"
    using cells_apart_byte [of ?b 2 ?a 2 0] cells_apart_byte [of ?b 2 ?a 2 1] by simp_all
  with False show ?thesis
    using px_facts [OF assms(1)] by (simp add: get_px_def put_px_def ld16_def ld8_st16_other)
qed

interpretation fb: pixel_store get_px put_px px_ok
  by unfold_locales (rule px_get_put)

lemma dev_only_put_px: "px_ok fb i \<Longrightarrow> dev_only m (put_px fb i c m)"
  unfolding put_px_def
  by (rule dev_only_st16) (use px_facts [of fb i] in \<open>auto simp: dev_addr_def px_ok_def fb_ok_def\<close>)

lemma unblank_dev_only [frame]: "dev_only m (unblank m)"
  unfolding unblank_def
  by (rule dev_only_reg_w) (simp add: dev_addr_def VO_CONTROL_def cached_def span_def bus_def)

lemma unblank_pixel:
  assumes "px_ok fb i"
  shows "get_px fb i (unblank m) = get_px fb i m"
proof -
  let ?a = "fb + 2 * word_of_nat i"
  have s: "span VO_CONTROL 4" "unat (bus VO_CONTROL) = 0x005f80e8"
    by (simp_all add: VO_CONTROL_def span_def bus_def)
  have "0xa5000000 \<le> unat fb" using assms by (simp add: px_ok_def fb_ok_def)
  then have "cells_apart ?a 2 VO_CONTROL 4"
    using px_facts [OF assms] s by (auto simp: cells_apart_def)
  then have "mem.apart ?a VO_CONTROL 4" "mem.apart (?a + 1) VO_CONTROL 4"
    using cells_apart_byte [of ?a 2 VO_CONTROL 4 0] cells_apart_byte [of ?a 2 VO_CONTROL 4 1]
    by simp_all
  then show ?thesis
    by (simp add: get_px_def unblank_def reg_w_def ld16_def ld8_st32_other s)
qed

end
