(* ===== verification/Gdstack.thy ===== *)
theory Gdstack
  imports Framebuffer
begin

text \<open>
  \<^verbatim>\<open>shims/src/gdstack.S\<close>: the assembly wrapper around the GD syscall. It runs the syscall on a
  private stack, saves and restores the whole floating-point context, and, when the backend looks
  like isoldr, runs it with the MMU off and restores the game's \<^verbatim>\<open>MMUCR\<close>.
\<close>

section \<open>The instructions it uses\<close>

definition push :: "u32 \<Rightarrow> machine \<Rightarrow> machine" where
  "push v m = (let a = sp (cpu m) - 4 in (st32 a v m)\<lparr>cpu := (cpu m)\<lparr>sp := a\<rparr>\<rparr>)"

definition pop :: "machine \<Rightarrow> u32 \<times> machine" where
  "pop m = (let a = sp (cpu m) in (ld32 a m, m\<lparr>cpu := (cpu m)\<lparr>sp := a + 4\<rparr>\<rparr>))"

definition push_all :: "u32 list \<Rightarrow> machine \<Rightarrow> machine" where
  "push_all vs m = fold push vs m"

text \<open>\<open>pop_all n\<close>: the \<open>n\<close> words popped, the last one popped first in the list.\<close>

fun pop_all :: "nat \<Rightarrow> u32 list \<Rightarrow> machine \<Rightarrow> u32 list \<times> machine" where
  "pop_all 0 acc m = (acc, m)"
| "pop_all (Suc n) acc m = (let (v, m1) = pop m in pop_all n (v # acc) m1)"

text \<open>\<^verbatim>\<open>FPSCR.FR\<close> (bit 21) says which physical bank \<^verbatim>\<open>fr0\<close>-\<^verbatim>\<open>fr15\<close> name.\<close>

definition front :: "cpu \<Rightarrow> u32 list" where
  "front c = (if bit (fpscr c) 21 then fbank1 c else fbank0 c)"

definition set_front :: "u32 list \<Rightarrow> cpu \<Rightarrow> cpu" where
  "set_front vs c = (if bit (fpscr c) 21 then c\<lparr>fbank1 := vs\<rparr> else c\<lparr>fbank0 := vs\<rparr>)"

definition lds_fpscr :: "u32 \<Rightarrow> machine \<Rightarrow> machine" where
  "lds_fpscr v m = m\<lparr>cpu := (cpu m)\<lparr>fpscr := v\<rparr>\<rparr>"

definition frchg :: "machine \<Rightarrow> machine" where
  "frchg m = lds_fpscr (fpscr (cpu m) XOR 0x00200000) m"

text \<open>Sixteen \<^verbatim>\<open>fmov.s frN, @-r15\<close> up, sixteen \<^verbatim>\<open>fmov.s @r15+, frN\<close> down.\<close>

definition push_front :: "machine \<Rightarrow> machine" where
  "push_front m = push_all (front (cpu m)) m"

definition pop_front :: "machine \<Rightarrow> machine" where
  "pop_front m = (let (vs, m1) = pop_all 16 [] m in m1\<lparr>cpu := set_front vs (cpu m1)\<rparr>)"

section \<open>The wrapper\<close>

definition FPSCR_KOS :: u32 where [src_consts]: "FPSCR_KOS = 0x00040001"
definition GD_VEC :: u32 where [src_consts]: "GD_VEC = 0x8c0000bc"
definition GD_VEC2 :: u32 where [src_consts]: "GD_VEC2 = 0x8c0000c0"
definition MMUCR :: u32 where [src_consts]: "MMUCR = 0xff000010"

definition gdc_save :: "machine \<Rightarrow> machine" where
  "gdc_save m =
     (let m1 = push (pr (cpu m)) m;
          m2 = m1\<lparr>gds := (gds m1)\<lparr>gdc_saved_sp := sp (cpu m1)\<rparr>, cpu := (cpu m1)\<lparr>sp := GD_STACK_TOP\<rparr>\<rparr>;
          m3 = push (fpul (cpu m2)) (push (fpscr (cpu m2)) m2);
          m4 = push_front (lds_fpscr FPSCR_KOS m3)
      in frchg (push_front (frchg m4)))"

text \<open>The backend probe: the vector pair of isoldr's redirection stubs, or an entry above the BIOS.\<close>

definition isoldr_probe :: "machine \<Rightarrow> bool" where
  "isoldr_probe m \<longleftrightarrow>
     ld32 GD_VEC m = ld32 GD_VEC2 m - 8 \<or> 0x00010000 \<le> (0x00ffffff AND ld32 GD_VEC m)"

definition gdc_mmu_off :: "machine \<Rightarrow> machine" where
  "gdc_mmu_off m =
     (let m1 = m\<lparr>gds := (gds m)\<lparr>gdc_mmu_gate := (if isoldr_probe m then 1 else 0)\<rparr>\<rparr>
      in if gdc_mmu_gate (gds m1) = 0 then m1
         else reg_w MMUCR 0 (m1\<lparr>gds := (gds m1)\<lparr>gdc_saved_mmucr := ld32 MMUCR m1\<rparr>\<rparr>))"

definition gdc_mmu_restore :: "machine \<Rightarrow> machine" where
  "gdc_mmu_restore m =
     (if gdc_mmu_gate (gds m) = 0 then m else reg_w MMUCR (gdc_saved_mmucr (gds m)) m)"

definition gdc_restore :: "machine \<Rightarrow> machine" where
  "gdc_restore m =
     (let m1 = pop_front (frchg (lds_fpscr FPSCR_KOS m));
          m2 = pop_front (frchg m1);
          (v, m3) = pop m2;
          (w, m4) = pop (m3\<lparr>cpu := (cpu m3)\<lparr>fpul := v\<rparr>\<rparr>);
          m5 = lds_fpscr w m4;
          (p, m6) = pop (m5\<lparr>cpu := (cpu m5)\<lparr>sp := gdc_saved_sp (gds m5)\<rparr>\<rparr>)
      in m6\<lparr>cpu := (cpu m6)\<lparr>pr := p\<rparr>\<rparr>)"

definition gdc_call :: "env \<Rightarrow> u32 \<Rightarrow> block4 option \<Rightarrow> u32 \<Rightarrow> machine \<Rightarrow> u32 \<times> block4 \<times> machine" where
  "gdc_call E c blk f m =
     (let (r, b, m1) = gd_vector E c blk f (gdc_mmu_off (gdc_save m))
      in (r, b, gdc_restore (gdc_mmu_restore m1)))"

end
