(* ===== verification/Gd.thy ===== *)
theory Gd
  imports Gdstack
begin

text \<open>
  \<^verbatim>\<open>shims/src/gd.c\<close>: sector reads through the GD syscall, polled, with up to four attempts and a
  rebuild of the syscall state between them; programmed I/O and G1-DMA.
\<close>

definition CMD_PIOREAD :: u32 where [src_consts]: "CMD_PIOREAD = 16"
definition CMD_DMAREAD :: u32 where [src_consts]: "CMD_DMAREAD = 17"
definition CMD_INIT :: u32 where [src_consts]: "CMD_INIT = 24"
definition GD_SEND :: u32 where [src_consts]: "GD_SEND = 0"
definition GD_CHECK :: u32 where [src_consts]: "GD_CHECK = 1"
definition GD_EXEC :: u32 where [src_consts]: "GD_EXEC = 2"
definition GD_SYSINIT :: u32 where [src_consts]: "GD_SYSINIT = 3"
definition GD_SECTOR_MODE :: u32 where [src_consts]: "GD_SECTOR_MODE = 10"
definition GD_NOT_FOUND :: int where [src_consts]: "GD_NOT_FOUND = 0"
definition GD_COMPLETED :: int where [src_consts]: "GD_COMPLETED = 2"
definition GD_FAILED :: int where [src_consts]: "GD_FAILED = - 1"

definition GDC :: "env \<Rightarrow> u32 \<Rightarrow> block4 option \<Rightarrow> u32 \<Rightarrow> machine \<Rightarrow> u32 \<times> block4 \<times> machine" where
  "GDC E c blk f m = (if SHIM_GD_STACK E then gdc_call E c blk f m else gd_vector E c blk f m)"

text \<open>The on-screen diagnostics: a value, the syscall in flight, the syscall that returned.\<close>

definition GD_DIAG :: "env \<Rightarrow> nat \<Rightarrow> nat \<Rightarrow> u32 \<Rightarrow> machine \<Rightarrow> machine" where
  "GD_DIAG E x y v m = (if SHIM_GD_DIAG E then hex_paint_c x y v 0xffff 0x001f m else m)"

definition GD_PHASE :: "env \<Rightarrow> u32 \<Rightarrow> machine \<Rightarrow> machine" where
  "GD_PHASE E n m = GD_DIAG E 20 148 (0xAAAA0000 OR n) m"

definition GD_RET :: "env \<Rightarrow> u32 \<Rightarrow> machine \<Rightarrow> machine" where
  "GD_RET E n m = GD_DIAG E 120 148 (0xAAAA8000 OR n) m"

definition set_last_err :: "u32 \<Rightarrow> machine \<Rightarrow> machine" where
  "set_last_err v m = m\<lparr>gdd := (gdd m)\<lparr>gd_last_err := v\<rparr>\<rparr>"

text \<open>One turn of a polling loop: pump the drive, then ask for the request's status.\<close>

definition gd_pump :: "env \<Rightarrow> u32 \<Rightarrow> block4 \<Rightarrow> machine \<Rightarrow> u32 \<times> block4 \<times> machine" where
  "gd_pump E req stat m =
     (let (r, b, m1) = GDC E 0 None GD_EXEC (GD_PHASE E 2 m);
          (s, stat1, m2) = GDC E req (Some stat) GD_CHECK (GD_PHASE E 3 (GD_RET E 2 m1))
      in (s, stat1, GD_RET E 3 m2))"

text \<open>The turn of the loop that waits for the re-initialisation shows one phase for both syscalls.\<close>

definition gd_init_pump :: "env \<Rightarrow> u32 \<Rightarrow> block4 \<Rightarrow> machine \<Rightarrow> u32 \<times> block4 \<times> machine" where
  "gd_init_pump E req stat m =
     (let (r, b, m1) = GDC E 0 None GD_EXEC (GD_PHASE E 5 m);
          (s, stat1, m2) = GDC E req (Some stat) GD_CHECK m1
      in (s, stat1, GD_RET E 5 m2))"

text \<open>
  What bounds a polling loop: \<^verbatim>\<open>if (++guard > 100000000u) shim_die(...)\<close>. A guard already past the
  limit stops at once, save the all-ones guard, whose increment wraps to 0.
\<close>

definition polls_left :: "u32 \<Rightarrow> nat" where
  "polls_left guard = (if guard = - 1 then 100000003
     else if unat guard \<le> 100000001 then 100000002 - unat guard else 0)"

lemma polls_left_less:
  assumes "\<not> (100000000 :: u32) < guard + 1"
  shows "polls_left (guard + 1) < polls_left guard"
proof (cases "guard = - 1")
  case True
  then show ?thesis by (simp add: polls_left_def)
next
  case False
  have m1: "unat (- 1 :: u32) = 4294967295"
    by (simp add: unsigned_minus_1_eq_mask mask_eq_exp_minus_1)
  have "unat guard \<noteq> 4294967295"
    using False m1 by (metis word_unat_eq_iff)
  then have "unat guard + 1 < 4294967296"
    using unat_u32_less [of guard] by linarith
  then have u: "unat (guard + 1) = unat guard + 1"
    using unat_add_lt [of guard 1] by simp
  then have le: "unat guard + 1 \<le> 100000000"
    using assms by (simp add: word_less_nat_alt)
  then have "unat (guard + 1) \<noteq> unat (- 1 :: u32)"
    using u m1 by linarith
  then have "guard + 1 \<noteq> - 1"
    by metis
  with False u le show ?thesis by (simp add: polls_left_def)
qed

section \<open>Recovery between attempts\<close>

function gd_init_poll :: "env \<Rightarrow> u32 \<Rightarrow> u32 \<Rightarrow> block4 \<Rightarrow> machine \<Rightarrow> unit outcome" where
  "gd_init_poll E req guard stat m =
     (case gd_init_pump E req stat m of (s, stat1, m1) \<Rightarrow>
        if sint s = GD_COMPLETED \<or> sint s \<le> GD_FAILED then Ret () m1
        else if sint s = GD_NOT_FOUND \<and> guard > 1000000 then Ret () m1
        else if guard + 1 > 100000000 then shim_die E 5 0xdead1217 0 m1
        else gd_init_poll E req (guard + 1) stat1 m1)"
  by pat_completeness auto
termination
  by (relation "measure (\<lambda>(E, req, guard, stat, m). polls_left guard)") (auto simp: polls_left_less)

declare gd_init_poll.simps [simp del]

definition gd_init_drive :: "env \<Rightarrow> machine \<Rightarrow> unit outcome" where
  "gd_init_drive E m =
     (case GDC E CMD_INIT None GD_SEND (GD_PHASE E 4 m) of (req, b, m1) \<Rightarrow>
        let m2 = GD_RET E 4 m1
        in if sint req \<le> 0 then Ret () m2 else gd_init_poll E req 0 (uninit E) m2)"

definition gd_sys_reinit :: "env \<Rightarrow> machine \<Rightarrow> machine" where
  "gd_sys_reinit E m = GD_RET E 6 (snd (snd (GDC E 0 None GD_SYSINIT (GD_PHASE E 6 m))))"

definition gd_recover :: "env \<Rightarrow> machine \<Rightarrow> unit outcome" where
  "gd_recover E m =
     (if SHIM_CDXA E then
        bindo (gd_init_drive E (gd_sys_reinit E m))
          (\<lambda>u m1. Ret () (snd (snd (GDC E 0 (Some (0, 0x2000, 2048, 2048)) GD_SECTOR_MODE m1))))
      else gd_init_drive E (gd_sys_reinit E m))"

text \<open>
  The CDI variant passes the sector-mode block as the first argument of the syscall
  (\<^verbatim>\<open>GDC((u32)mode, 0, 0, GD_SECTOR_MODE)\<close>): \<open>block4\<close> is that block, whichever register holds its
  address.
\<close>

section \<open>Polling a read\<close>

definition gd_heartbeat :: "env \<Rightarrow> u32 \<Rightarrow> u32 \<Rightarrow> machine \<Rightarrow> machine" where
  "gd_heartbeat E guard s m =
     (if guard AND 0xffff = 0 then GD_DIAG E 20 134 guard (GD_DIAG E 120 120 s m) else m)"

text \<open>
  The inner loop of both read routines. \<open>fin\<close> is what the routine does on completion (nothing, or
  the interrupt acknowledge of the DMA variant). \<open>Ret True\<close>: completed; \<open>Ret False\<close>: the \<^verbatim>\<open>break\<close>
  that leads to the next attempt.
\<close>

function gd_poll :: "env \<Rightarrow> (machine \<Rightarrow> machine) \<Rightarrow> u32 \<Rightarrow> u32 \<Rightarrow> u32 \<Rightarrow> u32 \<Rightarrow> block4 \<Rightarrow> machine \<Rightarrow> bool outcome" where
  "gd_poll E fin req fad n guard stat m =
     (case gd_pump E req stat m of (s, stat1, m0) \<Rightarrow>
        let m1 = gd_heartbeat E guard s m0
        in if sint s = GD_COMPLETED then Ret True (fin m1)
           else if sint s \<le> GD_FAILED then Ret False (set_last_err (fst stat1) m1)
           else if sint s = GD_NOT_FOUND \<and> guard > 1000000 then Ret False (set_last_err 0xcafe0001 m1)
           else if guard + 1 > 100000000 then shim_die E 5 fad n m1
           else gd_poll E fin req fad n (guard + 1) stat1 m1)"
  by pat_completeness auto
termination
  by (relation "measure (\<lambda>(E, fin, req, fad, n, guard, stat, m). polls_left guard)")
    (auto simp: polls_left_less)

declare gd_poll.simps [simp del]

text \<open>One attempt: send the command, then poll it.\<close>

definition gd_attempt :: "env \<Rightarrow> u32 \<Rightarrow> (machine \<Rightarrow> machine) \<Rightarrow> u32 \<Rightarrow> u32 \<Rightarrow> u32 \<Rightarrow> machine \<Rightarrow> bool outcome" where
  "gd_attempt E cmd fin dst fad n m =
     (case GDC E cmd (Some (fad, n, dst, 0)) GD_SEND (GD_PHASE E 1 (GD_DIAG E 120 134 fad m)) of (req, b, m1) \<Rightarrow>
        let m2 = GD_DIAG E 20 120 req (GD_RET E 1 m1)
        in if sint req \<le> 0 then Ret False (set_last_err 0xcafe0002 m2)
           else gd_poll E fin req fad n 0 (uninit E) m2)"

section \<open>Programmed I/O\<close>

text \<open>The loop over the attempts still to make; a failed attempt continues with the next.\<close>

fun gd_pio_loop :: "env \<Rightarrow> u32 list \<Rightarrow> u32 \<Rightarrow> u32 \<Rightarrow> u32 \<Rightarrow> machine \<Rightarrow> u32 outcome" where
  "gd_pio_loop E [] dst fad n m = Ret (- 2) m"
| "gd_pio_loop E (attempt # rest) dst fad n m =
     bindo (if attempt \<noteq> 0 then gd_recover E m else Ret () m) (\<lambda>u m1.
     bindo (gd_attempt E CMD_PIOREAD id dst fad n m1) (\<lambda>ok m2.
       if ok then Ret 0 m2 else gd_pio_loop E rest dst fad n m2))"

definition gd_read_sectors :: "env \<Rightarrow> u32 \<Rightarrow> u32 \<Rightarrow> u32 \<Rightarrow> machine \<Rightarrow> u32 outcome" where
  "gd_read_sectors E dst fad n m = gd_pio_loop E [0, 1, 2, 3] dst fad n m"

section \<open>G1-DMA\<close>

text \<open>
  \<^verbatim>\<open>for (; a < end; a += 32u) ocbi\<close>; with an \<^verbatim>\<open>end\<close> in the last line of the address space the loop
  would not stop, so it is a partial function.
\<close>

partial_function (option) ocbi_loop :: "u32 \<Rightarrow> u32 \<Rightarrow> machine \<Rightarrow> machine option" where
  "ocbi_loop a e m = (if a < e then ocbi_loop (a + 32) e (ocbi a m) else Some m)"

definition dcache_inval :: "u32 \<Rightarrow> u32 \<Rightarrow> machine \<Rightarrow> unit outcome" where
  "dcache_inval phys len m =
     (let a = (phys AND 0x1fffffff) OR 0x80000000; e = a + len
      in case ocbi_loop (a AND NOT 31) e m of Some m1 \<Rightarrow> Ret () m1 | None \<Rightarrow> Hang)"

definition SB_ISTNRM :: u32 where [src_consts]: "SB_ISTNRM = 0xa05f6900"

definition gd_dma_ack :: "machine \<Rightarrow> machine" where
  "gd_dma_ack m = reg_w SB_ISTNRM (push_bit 14 1) m"

definition gd_irq_mask :: "machine \<Rightarrow> machine" where
  "gd_irq_mask m =
     (let clear = (\<lambda>a m. reg_w a (ld32 a m AND NOT (push_bit 14 1)) m)
      in clear 0xa05f6930 (clear 0xa05f6920 (clear 0xa05f6910 m)))"

fun gd_dma_loop :: "env \<Rightarrow> u32 list \<Rightarrow> u32 \<Rightarrow> u32 \<Rightarrow> u32 \<Rightarrow> machine \<Rightarrow> u32 outcome" where
  "gd_dma_loop E [] phys fad n m = Ret (- 2) m"
| "gd_dma_loop E (attempt # rest) phys fad n m =
     bindo (if attempt \<noteq> 0 then gd_recover E m else Ret () m) (\<lambda>u m1.
     bindo (dcache_inval phys (n * 2048) m1) (\<lambda>u m2.
     bindo (gd_attempt E CMD_DMAREAD gd_dma_ack phys fad n m2) (\<lambda>ok m3.
       if ok then Ret 0 m3 else gd_dma_loop E rest phys fad n m3)))"

definition gd_read_sectors_dma :: "env \<Rightarrow> u32 \<Rightarrow> u32 \<Rightarrow> u32 \<Rightarrow> machine \<Rightarrow> u32 outcome" where
  "gd_read_sectors_dma E phys fad n m =
     gd_dma_loop E [0, 1, 2, 3] (phys AND 0x1fffffff) fad n (gd_irq_mask m)"

end
