(* ===== verification/Cart_Split.thy ===== *)
theory Cart_Split
  imports Iface
begin

text \<open>
  The pure part of \<^verbatim>\<open>shims/src/cart.c\<close>: cutting a byte range of the cartridge into a partial head
  sector, whole body sectors and a partial tail sector, in 32-bit arithmetic.
\<close>

record split_t =
  head_fad :: u32
  head_skip :: u32
  head_take :: u32
  body_fad :: u32
  body_sect :: u32
  tail_fad :: u32
  tail_take :: u32

definition cart_split :: "u32 \<Rightarrow> u32 \<Rightarrow> split_t" where
  "cart_split off len =
     (let sec = off div 2048; skip = off mod 2048;
          take = (if 2048 - skip > len then len else 2048 - skip);
          len1 = (if skip \<noteq> 0 then len - take else len);
          sec1 = (if skip \<noteq> 0 then sec + 1 else sec);
          sect = len1 div 2048;
          sec2 = sec1 + sect;
          len2 = len1 mod 2048
      in \<lparr>head_fad = (if skip \<noteq> 0 then sec else 0),
          head_skip = (if skip \<noteq> 0 then skip else 0),
          head_take = (if skip \<noteq> 0 then take else 0),
          body_fad = sec1,
          body_sect = sect,
          tail_fad = (if len2 \<noteq> 0 then sec2 else 0),
          tail_take = (if len2 \<noteq> 0 then len2 else 0)\<rparr>)"

text \<open>The same cut over the naturals: head length, body sectors, tail length.\<close>

definition head_len :: "nat \<Rightarrow> nat \<Rightarrow> nat" where
  "head_len off len = (if off mod 2048 = 0 then 0 else min len (2048 - off mod 2048))"

lemma head_len_le: "head_len off len \<le> len" "head_len off len \<le> 2048"
  by (auto simp: head_len_def min_def)

lemma unat_div2048: "unat (x div 2048 :: u32) = unat x div 2048"
  by (simp add: unat_div)

lemma unat_mod2048: "unat (x mod 2048 :: u32) = unat x mod 2048"
  by (simp add: unat_mod)

lemma u32_zero_iff: "(x :: u32) = 0 \<longleftrightarrow> unat x = 0"
  by (simp add: unat_eq_0)

lemma unat_head_take:
  "unat (head_take (cart_split off len)) = head_len (unat off) (unat len)"
proof -
  have "off mod 2048 \<le> 2048"
    by (simp add: word_le_nat_alt unat_mod2048 less_imp_le)
  then have "unat (2048 - off mod 2048) = 2048 - unat off mod 2048"
    by (simp add: unat_sub unat_mod2048)
  then show ?thesis
    by (auto simp: cart_split_def Let_def head_len_def u32_zero_iff unat_mod2048 word_less_nat_alt min_def)
qed

lemma unat_rest:
  "unat (len - head_take (cart_split off len)) = unat len - head_len (unat off) (unat len)"
proof -
  have "head_take (cart_split off len) \<le> len"
    by (simp add: word_le_nat_alt unat_head_take head_len_le)
  then show ?thesis by (simp add: unat_sub unat_head_take)
qed

lemma split_body_tail:
  "body_sect (cart_split off len) = (len - head_take (cart_split off len)) div 2048"
  "tail_take (cart_split off len) = (len - head_take (cart_split off len)) mod 2048"
  by (simp_all add: cart_split_def Let_def)

lemma unat_body_sect:
  "unat (body_sect (cart_split off len)) = (unat len - head_len (unat off) (unat len)) div 2048"
  by (simp add: split_body_tail unat_div2048 unat_rest)

lemma unat_tail_take:
  "unat (tail_take (cart_split off len)) = (unat len - head_len (unat off) (unat len)) mod 2048"
  by (simp add: split_body_tail unat_mod2048 unat_rest)

lemma split_takes_sum:
  "unat (head_take (cart_split off len)) + unat (body_sect (cart_split off len)) * 2048
     + unat (tail_take (cart_split off len)) = unat len"
  using head_len_le(1) [of "unat off" "unat len"]
  by (simp add: unat_head_take unat_body_sect unat_tail_take)

lemma split_head:
  "0 < unat (head_take (cart_split off len)) \<Longrightarrow>
     unat (head_fad (cart_split off len)) * 2048 + unat (head_skip (cart_split off len)) = unat off
     \<and> unat (head_skip (cart_split off len)) + unat (head_take (cart_split off len)) \<le> 2048"
  by (simp only: unat_head_take)
    (auto simp: cart_split_def Let_def unat_div2048 unat_mod2048 u32_zero_iff head_len_def split: if_splits)

lemma unat_body_fad:
  "unat (body_fad (cart_split off len)) = unat off div 2048 + (if unat off mod 2048 = 0 then 0 else 1)"
proof -
  have "unat (off div 2048) + 1 < 4294967296"
    by (simp add: unat_div2048) (use unat_u32_less [of off] in linarith)
  then show ?thesis
    by (simp add: cart_split_def Let_def u32_zero_iff unat_mod2048 unat_div2048 unat_add_u32)
qed

lemma next_sector: "off div 2048 * 2048 + 2048 = off + 2048 - off mod 2048" for off :: nat
proof -
  have "off div 2048 * 2048 + off mod 2048 = off" "off mod 2048 < 2048"
    by simp_all
  then show ?thesis by linarith
qed

lemma split_body:
  assumes "unat (head_take (cart_split off len)) < unat len"
  shows "unat (body_fad (cart_split off len)) * 2048
    = unat off + unat (head_take (cart_split off len))"
  using assms next_sector [of "unat off"]
  by (auto simp: unat_body_fad unat_head_take head_len_def min_def split: if_splits)

lemma split_tail_fad:
  "tail_fad (cart_split off len) = (if tail_take (cart_split off len) \<noteq> 0
     then body_fad (cart_split off len) + body_sect (cart_split off len) else 0)"
  unfolding cart_split_def Let_def split_t.select_convs by (simp only: split: if_split) simp

lemma split_tail:
  assumes "0 < unat (tail_take (cart_split off len))"
  shows "unat (tail_fad (cart_split off len))
    = unat (body_fad (cart_split off len)) + unat (body_sect (cart_split off len))"
proof -
  have "unat (body_fad (cart_split off len)) + unat (body_sect (cart_split off len)) < 4294967296"
  proof -
    have "unat off div 2048 < 2097152" "unat len div 2048 < 2097152"
      by (simp_all add: less_mult_imp_div_less)
    moreover have "(unat len - head_len (unat off) (unat len)) div 2048 \<le> unat len div 2048"
      by (simp add: div_le_mono)
    moreover have "(if unat off mod 2048 = 0 then 0 else 1) \<le> (1 :: nat)" by simp
    ultimately show ?thesis
      unfolding unat_body_fad unat_body_sect by linarith
  qed
  moreover have "tail_fad (cart_split off len) = body_fad (cart_split off len) + body_sect (cart_split off len)"
    using assms by (simp add: split_tail_fad u32_zero_iff)
  ultimately show ?thesis by (simp add: unat_add_lt)
qed

section \<open>What the three parts hold\<close>

text \<open>\<open>n\<close> bytes of the cartridge from byte \<open>skip\<close> of sector \<open>s\<close> on.\<close>

definition chunk :: "(nat \<Rightarrow> u8) \<Rightarrow> nat \<Rightarrow> nat \<Rightarrow> nat \<Rightarrow> u8 list" where
  "chunk cart s skip n = map (\<lambda>i. cart (s * 2048 + skip + i)) [0 ..< n]"

lemma length_chunk [simp]: "length (chunk cart s skip n) = n"
  by (simp add: chunk_def)

lemma nth_chunk [simp]: "i < n \<Longrightarrow> chunk cart s skip n ! i = cart (s * 2048 + skip + i)"
  by (simp add: chunk_def)

lemma chunk_upt: "s * 2048 + skip = a \<Longrightarrow> chunk cart s skip n = map cart [a ..< a + n]"
  by (simp add: chunk_def map_upt_shift)

lemma chunk_0 [simp]: "chunk cart s skip 0 = []"
  by (simp add: chunk_def)

definition split_bytes :: "(nat \<Rightarrow> u8) \<Rightarrow> split_t \<Rightarrow> u8 list" where
  "split_bytes cart s =
     chunk cart (unat (head_fad s)) (unat (head_skip s)) (unat (head_take s))
     @ chunk cart (unat (body_fad s)) 0 (unat (body_sect s) * 2048)
     @ chunk cart (unat (tail_fad s)) 0 (unat (tail_take s))"

lemma split_bytes_cart:
  "split_bytes cart (cart_split off len) = map cart [unat off ..< unat off + unat len]"
proof -
  let ?s = "cart_split off len"
  let ?o = "unat off" and ?h = "unat (head_take ?s)" and ?b = "unat (body_sect ?s) * 2048"
    and ?t = "unat (tail_take ?s)"
  have sum: "?h + ?b + ?t = unat len" by (rule split_takes_sum)
  have "chunk cart (unat (head_fad ?s)) (unat (head_skip ?s)) ?h = map cart [?o ..< ?o + ?h]"
    using split_head [of off len] by (cases "?h = 0") (simp_all add: chunk_upt)
  moreover have "chunk cart (unat (body_fad ?s)) 0 ?b = map cart [?o + ?h ..< ?o + ?h + ?b]"
    using split_body [of off len] sum by (cases "?b = 0") (simp_all add: chunk_upt)
  moreover have "chunk cart (unat (tail_fad ?s)) 0 ?t = map cart [?o + ?h + ?b ..< ?o + ?h + ?b + ?t]"
  proof (cases "?t = 0")
    case False
    then have "unat (tail_fad ?s) * 2048 + 0 = ?o + ?h + ?b"
      using split_tail [of off len] split_body [of off len] sum by (simp add: algebra_simps)
    then show ?thesis by (rule chunk_upt)
  qed simp
  ultimately have "split_bytes cart ?s = map cart ([?o ..< ?o + ?h] @ [?o + ?h ..< ?o + ?h + ?b]
      @ [?o + ?h + ?b ..< ?o + ?h + ?b + ?t])"
    by (simp add: split_bytes_def)
  also have "\<dots> = map cart [?o ..< ?o + ?h + ?b + ?t]"
    using upt_add_eq_append [of ?o "?o + ?h + ?b" ?t] upt_add_eq_append [of ?o "?o + ?h" ?b]
    by simp
  also have "?o + ?h + ?b + ?t = ?o + unat len"
    using sum by simp
  finally show ?thesis .
qed

end
