(* ===== verification/Cart.thy ===== *)
theory Cart
  imports Gd Cart_Split
begin

text \<open>
  \<^verbatim>\<open>shims/src/cart.c\<close>: a cartridge read (head and tail through the bounce buffer, body straight to
  its destination, by DMA where it is aligned) and the service routine hooked onto the game's
  DMA-completion wait.
\<close>

definition gd_or_die :: "env \<Rightarrow> u32 \<Rightarrow> u32 \<Rightarrow> u32 \<Rightarrow> machine \<Rightarrow> unit outcome" where
  "gd_or_die E dst rel_fad n m =
     bindo (gd_read_sectors E dst (CART_FAD E + rel_fad) n m) (\<lambda>r m1.
       if sint r < 0 then shim_die E 4 rel_fad (gd_last_err (gdd m1)) m1 else Ret () m1)"

definition gd_or_die_dma :: "env \<Rightarrow> u32 \<Rightarrow> u32 \<Rightarrow> u32 \<Rightarrow> machine \<Rightarrow> unit outcome" where
  "gd_or_die_dma E phys rel_fad n m =
     bindo (gd_read_sectors_dma E phys (CART_FAD E + rel_fad) n m) (\<lambda>r m1.
       if sint r < 0 then shim_die E 4 rel_fad (gd_last_err (gdd m1)) m1 else Ret () m1)"

text \<open>The first-read mark and the activity blinker at the top of \<^verbatim>\<open>cart_read\<close>.\<close>

definition cart_marks :: "env \<Rightarrow> machine \<Rightarrow> machine" where
  "cart_marks E m =
     (let m1 = (if cart_first (cartd m) \<noteq> 0
          then shim_mark E 4 0xf81f (m\<lparr>cartd := (cartd m)\<lparr>cart_first := 0\<rparr>\<rparr>) else m);
          m2 = m1\<lparr>cartd := (cartd m1)\<lparr>cart_count := cart_count (cartd m1) + 1\<rparr>\<rparr>
      in if cart_count (cartd m2) AND 31 = 0
         then shim_mark E 5 (if cart_count (cartd m2) AND 32 \<noteq> 0 then 0xffe0 else 0x001f) m2
         else m2)"

definition cart_head :: "env \<Rightarrow> split_t \<Rightarrow> u32 \<Rightarrow> machine \<Rightarrow> unit outcome" where
  "cart_head E s dst m =
     (if head_take s \<noteq> 0 then
        bindo (gd_or_die E SHIM_BOUNCE (head_fad s) 1 m) (\<lambda>u m1.
          Ret () (xmemcpy dst (SHIM_BOUNCE + head_skip s) (head_take s) m1))
      else Ret () m)"

definition cart_body :: "env \<Rightarrow> split_t \<Rightarrow> u32 \<Rightarrow> u32 \<Rightarrow> machine \<Rightarrow> unit outcome" where
  "cart_body E s dst dest_phys m =
     (if body_sect s \<noteq> 0 then
        (let body_phys = dest_phys + head_take s
         in if SHIM_GD_DMA E \<and> body_phys AND 31 = 0
            then gd_or_die_dma E body_phys (body_fad s) (body_sect s) m
            else gd_or_die E dst (body_fad s) (body_sect s) m)
      else Ret () m)"

definition cart_tail :: "env \<Rightarrow> split_t \<Rightarrow> u32 \<Rightarrow> machine \<Rightarrow> unit outcome" where
  "cart_tail E s dst m =
     (if tail_take s \<noteq> 0 then
        bindo (gd_or_die E SHIM_BOUNCE (tail_fad s) 1 m) (\<lambda>u m1.
          Ret () (xmemcpy dst SHIM_BOUNCE (tail_take s) m1))
      else Ret () m)"

definition cart_read :: "env \<Rightarrow> u32 \<Rightarrow> u32 \<Rightarrow> u32 \<Rightarrow> machine \<Rightarrow> unit outcome" where
  "cart_read E off len dest_phys m =
     (let dst = dest_phys OR 0xa0000000;
          s = cart_split off len;
          dst1 = (if head_take s \<noteq> 0 then dst + head_take s else dst);
          dst2 = (if body_sect s \<noteq> 0 then dst1 + body_sect s * 2048 else dst1)
      in bindo (cart_head E s dst (cart_marks E m)) (\<lambda>u m1.
         bindo (cart_body E s dst1 dest_phys m1) (\<lambda>u m2.
         cart_tail E s dst2 m2)))"

section \<open>The service routine\<close>

definition g1_reg :: "u32 \<Rightarrow> machine \<Rightarrow> u32" where
  "g1_reg r m = ld32 (P2ADDR G1_MIRROR + r) m"

definition cart_off :: "machine \<Rightarrow> u32" where
  "cart_off m = (push_bit 16 (g1_reg 0x0c m AND 0xffff) OR (g1_reg 0x10 m AND 0xffff)) AND 0x0fffffff"

definition cart_len :: "machine \<Rightarrow> u32" where
  "cart_len m = g1_reg 0x408 m"

definition cart_dest :: "machine \<Rightarrow> u32" where
  "cart_dest m = g1_reg 0x404 m AND 0x1fffffff"

definition cart_refused :: "u32 \<Rightarrow> u32 \<Rightarrow> u32 \<Rightarrow> bool" where
  "cart_refused off len dest \<longleftrightarrow>
     len = 0 \<or> len > 0x01000000 \<or> off + len > CART_SIZE \<or>
     dest AND 0x1f000000 \<noteq> 0x0c000000 \<or> dest + len > (SHIM_BASE AND 0x1fffffff)"

definition PB_TOTAL :: u32 where [src_consts]: "PB_TOTAL = push_bit 15 320"

definition cart_trace :: "env \<Rightarrow> u32 \<Rightarrow> u32 \<Rightarrow> u32 \<Rightarrow> machine \<Rightarrow> machine" where
  "cart_trace E off len dest m =
     (if SHIM_TRACE E then
        (let m1 = scif_puthex E off (scif_puts E ''CART off='' m);
             m2 = scif_puthex E len (scif_puts E '' len='' m1)
         in scif_puts E [CHR 0x0A] (scif_puthex E dest (scif_puts E '' dst='' m2)))
      else m)"

definition pb_step :: "env \<Rightarrow> u32 \<Rightarrow> machine \<Rightarrow> machine" where
  "pb_step E len m =
     (if SHIM_LOADBAR E \<and> pb_left (cartd m) \<noteq> 0 then
        (let left = (if len \<ge> pb_left (cartd m) then 0 else pb_left (cartd m) - len)
         in loadbar_paint (drop_bit 15 (PB_TOTAL - left)) (m\<lparr>cartd := (cartd m)\<lparr>pb_left := left\<rparr>\<rparr>))
      else m)"

text \<open>
  The phase marker of the on-screen diagnostics, and its position-sensitive checksum of the delivered
  bytes, read back uncached.
\<close>

definition stream_mark :: "env \<Rightarrow> u32 \<Rightarrow> machine \<Rightarrow> machine" where
  "stream_mark E tag m =
     (if SHIM_GD_DIAG E
      then hex_paint_c 220 134 (tag OR (cart_count (cartd m) AND 0x00ffffff)) 0xffff 0x001f m else m)"

definition stream_sum :: "u8 list \<Rightarrow> u32" where
  "stream_sum bs = fold (\<lambda>b ck. (push_bit 1 ck OR drop_bit 31 ck) XOR ucast b) bs 0"

definition stream_check :: "env \<Rightarrow> u32 \<Rightarrow> u32 \<Rightarrow> machine \<Rightarrow> machine" where
  "stream_check E dest len m =
     (if SHIM_GD_DIAG E
      then stream_mark E 0xB0000000
             (hex_paint_c 220 120 (stream_sum (load_bytes (dest OR 0xa0000000) (unat len) m)) 0xffff 0x001f m)
      else m)"

text \<open>The stream counters: the timer's prescaler is latched once, then bytes, requests and time add up.\<close>

definition LS_TCNT0 :: u32 where [src_consts]: "LS_TCNT0 = 0xffd8000c"
definition LS_TCR0 :: u32 where [src_consts]: "LS_TCR0 = 0xffd80010"

definition ls_begin :: "env \<Rightarrow> machine \<Rightarrow> machine" where
  "ls_begin E m =
     (if SHIM_LOADSTAT E \<and> ls_sh (diagd m) = 0xff
      then m\<lparr>diagd := (diagd m)\<lparr>ls_sh := [2, 4, 6, 8, 10, 10, 10, 10] ! unat (ld16 LS_TCR0 m AND 7)\<rparr>\<rparr>
      else m)"

definition ls_count :: "u32 \<Rightarrow> u32 \<Rightarrow> diag_data \<Rightarrow> diag_data" where
  "ls_count dt len d =
     d\<lparr>ls_ticks := (if dt < drop_bit (unat (ls_sh d)) 50000000 then ls_ticks d + dt else ls_ticks d),
       ls_bytes := ls_bytes d + len, ls_reads := ls_reads d + 1\<rparr>"

definition ls_end :: "env \<Rightarrow> u32 \<Rightarrow> u32 \<Rightarrow> machine \<Rightarrow> machine" where
  "ls_end E t0 len m =
     (if SHIM_LOADSTAT E then
        (let m1 = ls_stampA E 4 (m\<lparr>diagd := ls_count (t0 - ld32 LS_TCNT0 m) len (diagd m)\<rparr>);
             d = diagd m1
         in hex_paint_c 20 180 (push_bit (unat (ls_sh d)) (ls_ticks d) div 50000) 0 0xffff
              (hex_paint_c 20 166 (ls_reads d) 0 0xffff (hex_paint_c 20 152 (ls_bytes d) 0 0xffff m1)))
      else m)"

definition shim_cart_service :: "env \<Rightarrow> machine \<Rightarrow> unit outcome" where
  "shim_cart_service E m =
     (let off = cart_off m; len = cart_len m; dest = cart_dest m
      in if cart_refused off len dest then shim_die E 2 off dest m
         else let m1 = ls_begin E (stream_mark E 0xA0000000 (cart_trace E off len dest m));
                  t0 = ld32 LS_TCNT0 m1
              in bindo (cart_read E off len dest m1) (\<lambda>u m2.
                   let m3 = stream_check E dest len (st32 (P2ADDR G1_MIRROR + 0x418) 0 m2);
                       m4 = stream_mark E 0xE0000000 (pb_step E len m3)
                   in Ret () (ls_end E t0 len m4)))"

end
