(* ===== verification/Gdstack_Lemmas.thy ===== *)
theory Gdstack_Lemmas
  imports Gdstack
begin

text \<open>
  What the syscall wrapper guarantees: it disturbs nothing but the scratch area (system work RAM
  and registers, and the private stack), gives the caller its stack pointer back, and restores the
  whole context when the backend keeps the C calling convention.
\<close>

section \<open>Agreement outside the scratch area\<close>

text \<open>
  The bytes a syscall may disturb: system work RAM, stack and registers below \<^verbatim>\<open>0x0c010000\<close>, the
  private GD stack, and whatever lies above main memory.
\<close>

definition scratch :: "u32 \<Rightarrow> bool" where
  "scratch q \<longleftrightarrow> unat q < 0x0c010000 \<or> (0x0cfd4000 \<le> unat q \<and> unat q < 0x0cfd8000) \<or> 0x10000000 \<le> unat q"

definition agree :: "machine \<Rightarrow> machine \<Rightarrow> bool" where
  "agree m m' \<longleftrightarrow> (\<forall>q. \<not> scratch q \<longrightarrow> ram m' q = ram m q \<and> dcache m' q = dcache m q)
     \<and> cartd m' = cartd m \<and> gdd m' = gdd m \<and> mapled m' = mapled m \<and> utild m' = utild m \<and> maind m' = maind m"

lemma agree_refl [simp, intro]: "agree m m"
  by (simp add: agree_def)

lemma agree_trans [trans]: "agree a b \<Longrightarrow> agree b c \<Longrightarrow> agree a c"
  by (simp add: agree_def)

lemma agree_sym: "agree a b \<Longrightarrow> agree b a"
  by (simp add: agree_def)

lemma agree_cpu [simp]: "agree m (m'\<lparr>cpu := c\<rparr>) = agree m m'"
  by (simp add: agree_def)

lemma agree_gds [simp]: "agree m (m'\<lparr>gds := c\<rparr>) = agree m m'"
  by (simp add: agree_def)

lemma agree_io [simp]: "agree m (m'\<lparr>io := c\<rparr>) = agree m m'"
  by (simp add: agree_def)

lemma dev_only_agree: "dev_only m m' \<Longrightarrow> agree m m'"
  by (simp add: dev_only_def agree_def scratch_def)

lemma line_less: "line p = line q \<Longrightarrow> (unat p < 32 * c) = (unat q < 32 * c)"
  unfolding line_def by (metis div_less_iff_less_mult mult.commute zero_less_numeral)

lemma scratch_line:
  assumes "line p = line q"
  shows "scratch p = scratch q"
  using line_less [OF assms, of 6293504] line_less [OF assms, of 6810112]
    line_less [OF assms, of 6810624] line_less [OF assms, of 8388608]
  by (simp add: scratch_def linorder_not_less [symmetric])

lemma agree_st8_scratch: "scratch (bus a) \<Longrightarrow> agree m (st8 a v m)"
  by (auto simp: agree_def ram_st8 dest: scratch_line intro!: dcache_st8_line)

lemma agree_st8: "agree m m' \<Longrightarrow> agree (st8 a v m) (st8 a v m')"
  by (auto simp: agree_def st8_def fill_line_def)

lemma agree_store_bytes: "agree m m' \<Longrightarrow> agree (store_bytes a bs m) (store_bytes a bs m')"
  by (induction bs arbitrary: a m m') (simp_all add: agree_st8)

lemma agree_ld8: "agree m m' \<Longrightarrow> \<not> scratch (bus a) \<Longrightarrow> ld8 a m' = ld8 a m"
  by (simp add: agree_def ld8_def split: option.split)

text \<open>A whole region inside the scratch area.\<close>

definition scratch_block :: "u32 \<Rightarrow> nat \<Rightarrow> bool" where
  "scratch_block a n \<longleftrightarrow> span a n \<and> (unat (bus a) + n \<le> 0x0c010000 \<or>
     (0x0cfd4000 \<le> unat (bus a) \<and> unat (bus a) + n \<le> 0x0cfd8000) \<or> 0x10000000 \<le> unat (bus a))"

lemma scratch_block_byte: "scratch_block a n \<Longrightarrow> i < n \<Longrightarrow> scratch (bus (a + word_of_nat i))"
  by (auto simp: scratch_block_def scratch_def span_bus)

lemma agree_st32_scratch: "scratch_block a 4 \<Longrightarrow> agree m (st32 a v m)"
  unfolding st32_def
  using scratch_block_byte [of a 4 0] scratch_block_byte [of a 4 1]
    scratch_block_byte [of a 4 2] scratch_block_byte [of a 4 3]
  by (auto intro!: agree_trans [OF _ agree_st8_scratch] agree_st8_scratch)

lemma agree_reg_w: "scratch_block a 4 \<Longrightarrow> agree m (reg_w a v m)"
  by (simp add: reg_w_def agree_st32_scratch)

section \<open>The stack\<close>

text \<open>The caller's stack lies in system work RAM above the vectors, word-aligned.\<close>

definition stack_ok :: "machine \<Rightarrow> bool" where
  "stack_ok m \<longleftrightarrow> unat (sp (cpu m)) mod 4 = 0 \<and> 0x8c000108 \<le> unat (sp (cpu m)) \<and> unat (sp (cpu m)) \<le> 0x8c010000"

lemma sp_push [simp]: "sp (cpu (push v m)) = sp (cpu m) - 4"
  by (simp add: push_def Let_def)

lemma push_fields [simp]:
  "bios (push v m) = bios m" "gds (push v m) = gds m" "fpscr (cpu (push v m)) = fpscr (cpu m)"
  "fbank0 (cpu (push v m)) = fbank0 (cpu m)" "fbank1 (cpu (push v m)) = fbank1 (cpu m)"
  "fpul (cpu (push v m)) = fpul (cpu m)" "pr (cpu (push v m)) = pr (cpu m)" "sr (cpu (push v m)) = sr (cpu m)"
  by (simp_all add: push_def Let_def)

lemma push_all_simps [simp]: "push_all [] m = m" "push_all (v # vs) m = push_all vs (push v m)"
  by (simp_all add: push_all_def)

lemma push_all_fields [simp]:
  "bios (push_all vs m) = bios m" "gds (push_all vs m) = gds m"
  "fpscr (cpu (push_all vs m)) = fpscr (cpu m)" "fpul (cpu (push_all vs m)) = fpul (cpu m)"
  "fbank0 (cpu (push_all vs m)) = fbank0 (cpu m)" "fbank1 (cpu (push_all vs m)) = fbank1 (cpu m)"
  "pr (cpu (push_all vs m)) = pr (cpu m)" "sr (cpu (push_all vs m)) = sr (cpu m)"
  by (induction vs arbitrary: m) simp_all

lemma sp_push_all: "sp (cpu (push_all vs m)) = sp (cpu m) - 4 * word_of_nat (length vs)"
  by (induction vs arbitrary: m) (simp_all add: algebra_simps)

text \<open>Pushing inside the private stack.\<close>

definition gd_sp :: "u32 \<Rightarrow> nat \<Rightarrow> bool" where
  "gd_sp a n \<longleftrightarrow> unat a mod 4 = 0 \<and> 0x8cfd4000 + 4 * n \<le> unat a \<and> unat a \<le> 0x8cfd8000"

lemma gd_sp_mono: "gd_sp a n \<Longrightarrow> k \<le> n \<Longrightarrow> gd_sp a k"
  by (simp add: gd_sp_def)

lemma unat_minus4:
  assumes "4 \<le> unat (a :: u32)"
  shows "unat (a - 4) = unat a - 4"
  using assms by (simp add: unat_sub word_le_nat_alt)

lemma mod4_minus: "(x :: nat) mod 4 = 0 \<Longrightarrow> 4 \<le> x \<Longrightarrow> (x - 4) mod 4 = 0"
  by presburger

lemma gd_sp_Suc: "gd_sp a (Suc n) \<Longrightarrow> gd_sp (a - 4) n"
  using mod4_minus [of "unat a"] by (auto simp: gd_sp_def unat_minus4)

lemma p1_block:
  assumes "0x8c000000 \<le> unat a" "unat a + n \<le> 0x90000000"
  shows "span a n" "unat (bus a) = unat a - 0x80000000" "0 < n \<Longrightarrow> cached a"
proof -
  have m: "unat a mod 536870912 = unat a - 0x80000000" if "unat a < 0x90000000"
    using that assms(1) by (simp add: mod_nat_eqI)
  have d: "unat a div 536870912 = 4" if "unat a < 0x90000000"
    using that assms(1) by (simp add: div_nat_eqI)
  show "span a n"
    using assms m by (cases "unat a < 0x90000000") (auto simp: span_def)
  show "0 < n \<Longrightarrow> cached a"
    using assms d by (simp add: cached_div)
  show "unat (bus a) = unat a - 0x80000000"
  proof (cases "unat a = 0x90000000")
    case True
    then show ?thesis by (simp add: unat_bus)
  next
    case False
    with assms have "unat a < 0x90000000" by linarith
    with d m show ?thesis by (simp add: unat_bus_div)
  qed
qed

lemma gd_sp_scratch: "gd_sp a (Suc n) \<Longrightarrow> scratch_block (a - 4) 4"
  using p1_block [of "a - 4" 4] by (auto simp: gd_sp_def unat_minus4 scratch_block_def)

lemma push_agree: "scratch_block (sp (cpu m) - 4) 4 \<Longrightarrow> agree m (push v m)"
  by (simp add: push_def Let_def agree_st32_scratch)

lemma push_all_agree: "gd_sp (sp (cpu m)) (length vs) \<Longrightarrow> agree m (push_all vs m)"
proof (induction vs arbitrary: m)
  case Nil
  then show ?case by simp
next
  case (Cons v vs)
  then have "agree m (push v m)" by (simp add: push_agree gd_sp_scratch)
  also have "agree (push v m) (push_all vs (push v m))"
    using Cons by (simp add: gd_sp_Suc)
  finally show ?case by simp
qed

text \<open>The words on a stack, the top of the stack first.\<close>

fun stacked :: "u32 \<Rightarrow> u32 list \<Rightarrow> machine \<Rightarrow> bool" where
  "stacked a [] m \<longleftrightarrow> True"
| "stacked a (w # ws) m \<longleftrightarrow> ld32 a m = w \<and> stacked (a + 4) ws m"

lemma stacked_cong:
  "(\<And>i. i < length ws \<Longrightarrow> ld32 (a + 4 * word_of_nat i) m' = ld32 (a + 4 * word_of_nat i) m)
    \<Longrightarrow> stacked a ws m' = stacked a ws m"
proof (induction ws arbitrary: a)
  case Nil
  then show ?case by simp
next
  case (Cons w ws)
  have "ld32 a m' = ld32 a m"
    using Cons.prems [of 0] by simp
  moreover have "stacked (a + 4) ws m' = stacked (a + 4) ws m"
  proof (rule Cons.IH)
    fix i
    assume "i < length ws"
    then show "ld32 (a + 4 + 4 * word_of_nat i) m' = ld32 (a + 4 + 4 * word_of_nat i) m"
      using Cons.prems [of "Suc i"] by (simp add: algebra_simps)
  qed
  ultimately show ?case by simp
qed

lemma p1_apart:
  assumes "0x8c000000 \<le> unat a" "unat a + 4 \<le> 0x90000000"
    and "0x8c000000 \<le> unat b" "unat b + 4 \<le> 0x90000000"
    and "unat a + 4 \<le> unat b \<or> unat b + 4 \<le> unat a"
  shows "cells_apart b 4 a 4"
  using assms p1_block [of a 4] p1_block [of b 4] by (auto simp: cells_apart_def)

lemma unat_word_step:
  assumes "unat a + 4 * i < 4294967296"
  shows "unat (a + 4 * word_of_nat i :: u32) = unat a + 4 * i"
  using unat_add_of_nat [of a "4 * i"] assms by simp

lemma stacked_st32:
  assumes "0x8c000000 \<le> unat s" "unat s + 4 \<le> unat a" "unat a + 4 * length ws \<le> 0x90000000"
  shows "stacked a ws (st32 s v m) = stacked a ws m"
proof (rule stacked_cong)
  fix i
  assume "i < length ws"
  then have "unat (a + 4 * word_of_nat i) = unat a + 4 * i" "unat a + 4 * i + 4 \<le> 0x90000000"
    using assms by (simp_all add: unat_word_step)
  then show "ld32 (a + 4 * word_of_nat i) (st32 s v m) = ld32 (a + 4 * word_of_nat i) m"
    using assms by (intro ld32_st32_other p1_apart) auto
qed

lemma stacked_fields [simp]:
  "stacked a ws (m\<lparr>cpu := c\<rparr>) = stacked a ws m" "stacked a ws (m\<lparr>gds := g\<rparr>) = stacked a ws m"
  by (rule stacked_cong, simp)+

lemma stacked_push:
  assumes "stacked (sp (cpu m)) ws m" "0x8c000004 \<le> unat (sp (cpu m))"
    and "unat (sp (cpu m)) + 4 * length ws \<le> 0x90000000"
  shows "stacked (sp (cpu m) - 4) (v # ws) (push v m)"
proof -
  let ?s = "sp (cpu m) - 4"
  have u: "unat ?s = unat (sp (cpu m)) - 4"
    using assms(2) by (simp add: unat_minus4)
  then have "span ?s 4"
    using assms by (intro p1_block) auto
  moreover have "stacked (?s + 4) ws (st32 ?s v m) = stacked (?s + 4) ws m"
    using assms u by (intro stacked_st32) auto
  ultimately show ?thesis
    using assms by (simp add: push_def Let_def ld32_st32_same)
qed

lemma stacked_push_all:
  assumes "stacked (sp (cpu m)) ws m" "0x8c000000 + 4 * length vs \<le> unat (sp (cpu m))"
    and "unat (sp (cpu m)) + 4 * length ws \<le> 0x90000000"
  shows "stacked (sp (cpu (push_all vs m))) (rev vs @ ws) (push_all vs m)"
  using assms
proof (induction vs arbitrary: m ws)
  case Nil
  then show ?case by simp
next
  case (Cons v vs)
  have u: "unat (sp (cpu m) - 4) = unat (sp (cpu m)) - 4"
    using Cons.prems(2) by (simp add: unat_minus4)
  have "stacked (sp (cpu (push v m))) (v # ws) (push v m)"
    using stacked_push [of m ws v] Cons.prems by simp
  then have "stacked (sp (cpu (push_all vs (push v m)))) (rev vs @ v # ws) (push_all vs (push v m))"
    using Cons.prems u by (intro Cons.IH) auto
  then show ?case by simp
qed

lemma stacked_append:
  "stacked a (us @ ws) m \<longleftrightarrow> stacked a us m \<and> stacked (a + 4 * word_of_nat (length us)) ws m"
  by (induction us arbitrary: a) (auto simp: algebra_simps)

lemma pop_stacked:
  "stacked (sp (cpu m)) (w # ws) m \<Longrightarrow> pop m = (w, m\<lparr>cpu := (cpu m)\<lparr>sp := sp (cpu m) + 4\<rparr>\<rparr>)"
  by (simp add: pop_def Let_def)

lemma pop_all_stacked:
  "stacked (sp (cpu m)) (ws @ us) m \<Longrightarrow> n = length ws \<Longrightarrow>
    pop_all n acc m = (rev ws @ acc, m\<lparr>cpu := (cpu m)\<lparr>sp := sp (cpu m) + 4 * word_of_nat n\<rparr>\<rparr>)"
proof (induction ws arbitrary: m n acc)
  case Nil
  then show ?case by simp
next
  case (Cons w ws)
  let ?m = "m\<lparr>cpu := (cpu m)\<lparr>sp := sp (cpu m) + 4\<rparr>\<rparr>"
  have "pop m = (w, ?m)"
    using Cons.prems pop_stacked [of m w "ws @ us"] by simp
  moreover have "stacked (sp (cpu ?m)) (ws @ us) ?m"
    using Cons.prems by simp
  ultimately show ?case
    using Cons.IH [of ?m "length ws" "w # acc"] Cons.prems(2) by (simp add: algebra_simps)
qed

section \<open>Saving the context\<close>

lemma lds_fpscr_simps [simp]:
  "ram (lds_fpscr v m) = ram m" "dcache (lds_fpscr v m) = dcache m" "bios (lds_fpscr v m) = bios m"
  "gds (lds_fpscr v m) = gds m" "io (lds_fpscr v m) = io m"
  "cpu (lds_fpscr v m) = (cpu m)\<lparr>fpscr := v\<rparr>"
  by (simp_all add: lds_fpscr_def)

lemma agree_lds_fpscr [simp]: "agree m (lds_fpscr v m') = agree m m'"
  by (simp add: lds_fpscr_def)

lemma stacked_lds_fpscr [simp]: "stacked a ws (lds_fpscr v m) = stacked a ws m"
  by (simp add: lds_fpscr_def)

text \<open>The context of a caller: its banks hold sixteen registers each.\<close>

definition ctx_ok :: "machine \<Rightarrow> bool" where
  "ctx_ok m \<longleftrightarrow> stack_ok m \<and> length (fbank0 (cpu m)) = 16 \<and> length (fbank1 (cpu m)) = 16"

definition gd_frame :: "cpu \<Rightarrow> u32 list" where
  "gd_frame c = rev (fbank1 c) @ rev (fbank0 c) @ [fpul c, fpscr c]"

lemma unat_GD_STACK_TOP: "unat GD_STACK_TOP = 0x8cfd8000"
  by (simp add: src_consts)

lemma FPSCR_KOS_bank [simp]:
  "bit FPSCR_KOS 21 = False" "bit (FPSCR_KOS XOR 0x200000) 21 = True"
  "(FPSCR_KOS XOR 0x200000) XOR 0x200000 = FPSCR_KOS"
  by (simp_all add: FPSCR_KOS_def)

definition gdc_switch :: "machine \<Rightarrow> machine" where
  "gdc_switch m = (push (pr (cpu m)) m)\<lparr>gds := (gds m)\<lparr>gdc_saved_sp := sp (cpu m) - 4\<rparr>,
     cpu := (cpu m)\<lparr>sp := GD_STACK_TOP\<rparr>\<rparr>"

lemma gdc_save_eq:
  "gdc_save m = (let m1 = push_all [fpscr (cpu m), fpul (cpu m)] (gdc_switch m);
      m2 = push_all (fbank0 (cpu m)) (lds_fpscr FPSCR_KOS m1);
      m3 = push_all (fbank1 (cpu m)) (frchg m2) in frchg m3)"
  by (simp add: gdc_save_def gdc_switch_def Let_def push_front_def front_def frchg_def push_def)

lemma gdc_switch_simps [simp]:
  "bios (gdc_switch m) = bios m" "gds (gdc_switch m) = (gds m)\<lparr>gdc_saved_sp := sp (cpu m) - 4\<rparr>"
  "cpu (gdc_switch m) = (cpu m)\<lparr>sp := GD_STACK_TOP\<rparr>"
  by (simp_all add: gdc_switch_def)

lemma stack_ok_sp:
  assumes "stack_ok m"
  shows "unat (sp (cpu m) - 4) = unat (sp (cpu m)) - 4" "unat (sp (cpu m) - 4) mod 4 = 0"
    and "0x8c000104 \<le> unat (sp (cpu m) - 4)" "unat (sp (cpu m) - 4) + 4 \<le> 0x8c010000"
proof -
  have "4 \<le> unat (sp (cpu m))" using assms by (simp add: stack_ok_def)
  then show *: "unat (sp (cpu m) - 4) = unat (sp (cpu m)) - 4"
    by (rule unat_minus4)
  show "unat (sp (cpu m) - 4) mod 4 = 0" "0x8c000104 \<le> unat (sp (cpu m) - 4)"
    "unat (sp (cpu m) - 4) + 4 \<le> 0x8c010000"
    using assms mod4_minus [of "unat (sp (cpu m))"] unfolding * by (auto simp: stack_ok_def)
qed

lemma stack_ok_scratch: "stack_ok m \<Longrightarrow> scratch_block (sp (cpu m) - 4) 4"
  using stack_ok_sp [of m] p1_block [of "sp (cpu m) - 4" 4] by (auto simp: scratch_block_def)

lemma agree_gdc_switch: "stack_ok m \<Longrightarrow> agree m (gdc_switch m)"
  using push_agree [OF stack_ok_scratch, of m "pr (cpu m)"] by (simp add: gdc_switch_def)

lemma agree_push_all_trans:
  "agree m m' \<Longrightarrow> gd_sp (sp (cpu m')) (length vs) \<Longrightarrow> agree m (push_all vs m')"
  by (rule agree_trans [OF _ push_all_agree])

lemma gd_sp_top: "k \<le> 4096 \<Longrightarrow> n + k \<le> 4096 \<Longrightarrow> gd_sp (GD_STACK_TOP - 4 * word_of_nat k) n"
proof -
  assume k: "k \<le> 4096" "n + k \<le> 4096"
  have u: "unat (word_of_nat (4 * k) :: u32) = 4 * k"
    using k by (intro unat_of_nat_u32) linarith
  have "unat (GD_STACK_TOP - word_of_nat (4 * k)) = 0x8cfd8000 - 4 * k"
    using k unat_sub [of "word_of_nat (4 * k)" GD_STACK_TOP]
    by (simp add: word_le_nat_alt u unat_GD_STACK_TOP del: of_nat_mult)
  moreover have "(0x8cfd8000 - 4 * k) mod 4 = 0"
    using k by presburger
  ultimately show ?thesis
    using k by (simp add: gd_sp_def)
qed

text \<open>The three stages of the save, as one list of pushes each.\<close>

lemma frchg_simps [simp]:
  "bios (frchg m) = bios m" "gds (frchg m) = gds m" "ram (frchg m) = ram m" "dcache (frchg m) = dcache m"
  "cpu (frchg m) = (cpu m)\<lparr>fpscr := fpscr (cpu m) XOR 0x00200000\<rparr>"
  "agree m' (frchg m) = agree m' m" "stacked a ws (frchg m) = stacked a ws m"
  by (simp_all add: frchg_def)

lemma gdc_save_facts:
  assumes "ctx_ok m"
  shows "agree m (gdc_save m)" "bios (gdc_save m) = bios m"
    and "gds (gdc_save m) = (gds m)\<lparr>gdc_saved_sp := sp (cpu m) - 4\<rparr>"
    and "sp (cpu (gdc_save m)) = GD_STACK_TOP - 136"
    and "stacked (GD_STACK_TOP - 136) (gd_frame (cpu m)) (gdc_save m)"
proof -
  have st: "stack_ok m" and l: "length (fbank0 (cpu m)) = 16" "length (fbank1 (cpu m)) = 16"
    using assms by (auto simp: ctx_ok_def)
  define m1 where "m1 = push_all [fpscr (cpu m), fpul (cpu m)] (gdc_switch m)"
  define m2 where "m2 = push_all (fbank0 (cpu m)) (lds_fpscr FPSCR_KOS m1)"
  define m3 where "m3 = push_all (fbank1 (cpu m)) (frchg m2)"
  have sv: "gdc_save m = frchg m3"
    unfolding gdc_save_eq m1_def m2_def m3_def Let_def ..
  have s1: "sp (cpu m1) = GD_STACK_TOP - 8"
    by (simp add: m1_def)
  have s2: "sp (cpu m2) = GD_STACK_TOP - 72"
    using s1 l by (simp add: m2_def sp_push_all)
  have s3: "sp (cpu m3) = GD_STACK_TOP - 136"
    using s2 l by (simp add: m3_def sp_push_all)
  have g: "gd_sp GD_STACK_TOP 2" "gd_sp (GD_STACK_TOP - 8) 16" "gd_sp (GD_STACK_TOP - 72) 16"
    using gd_sp_top [of 0 2] gd_sp_top [of 2 16] gd_sp_top [of 18 16] by simp_all
  have "agree m m1"
    unfolding m1_def using g(1) [unfolded numeral_2_eq_2] st by (intro agree_push_all_trans agree_gdc_switch) simp_all
  then have "agree m m2"
    unfolding m2_def using g(2) s1 l by (intro agree_push_all_trans) simp_all
  then have "agree m m3"
    unfolding m3_def using g(3) s2 l by (intro agree_push_all_trans) simp_all
  then show "agree m (gdc_save m)" by (simp add: sv)
  show "bios (gdc_save m) = bios m" "sp (cpu (gdc_save m)) = GD_STACK_TOP - 136"
    using s3 by (simp_all add: sv m3_def m2_def m1_def)
  show "gds (gdc_save m) = (gds m)\<lparr>gdc_saved_sp := sp (cpu m) - 4\<rparr>"
    by (simp add: sv m3_def m2_def m1_def)
  have b: "0x8cfd4000 + 4 * n \<le> unat a \<and> unat a \<le> 0x8cfd8000" if "gd_sp a n" for a n
    using that by (simp add: gd_sp_def)
  have "stacked (sp (cpu m1)) (rev [fpscr (cpu m), fpul (cpu m)] @ []) m1"
    unfolding m1_def by (rule stacked_push_all) (simp_all add: unat_GD_STACK_TOP)
  then have "stacked (sp (cpu m2)) (rev (fbank0 (cpu m)) @ [fpul (cpu m), fpscr (cpu m)]) m2"
    unfolding m2_def using s1 l b [OF g(2)] by (intro stacked_push_all) simp_all
  then have "stacked (sp (cpu m3)) (rev (fbank1 (cpu m)) @ rev (fbank0 (cpu m)) @ [fpul (cpu m), fpscr (cpu m)]) m3"
    unfolding m3_def using s2 l b [OF g(3)] by (intro stacked_push_all) simp_all
  then show "stacked (GD_STACK_TOP - 136) (gd_frame (cpu m)) (gdc_save m)"
    by (simp add: sv s3 gd_frame_def)
qed

lemma ld32_push_all_low:
  assumes "gd_sp (sp (cpu m)) (length vs)" "0x8c000000 \<le> unat b" "unat b + 4 \<le> 0x8cfd4000"
  shows "ld32 b (push_all vs m) = ld32 b m"
  using assms(1)
proof (induction vs arbitrary: m)
  case Nil
  then show ?case by simp
next
  case (Cons v vs)
  let ?a = "sp (cpu m) - 4"
  have g: "gd_sp ?a (length vs)" and u: "unat ?a = unat (sp (cpu m)) - 4"
    using Cons.prems by (auto simp: gd_sp_Suc gd_sp_def unat_minus4)
  have "cells_apart b 4 ?a 4"
    using Cons.prems assms u by (intro p1_apart) (auto simp: gd_sp_def)
  then have "ld32 b (push v m) = ld32 b m"
    by (simp add: push_def Let_def ld32_st32_other)
  with Cons.IH [of "push v m"] g show ?case by simp
qed

lemma ld32_frchg [simp]: "ld32 a (frchg m) = ld32 a m" "ld32 a (lds_fpscr v m) = ld32 a m"
  by (simp_all add: frchg_def lds_fpscr_def)

lemma gdc_save_low:
  assumes "ctx_ok m" "0x8c000000 \<le> unat b" "unat b + 4 \<le> 0x8cfd4000"
  shows "ld32 b (gdc_save m) = ld32 b (push (pr (cpu m)) m)"
proof -
  have l: "length (fbank0 (cpu m)) = 16" "length (fbank1 (cpu m)) = 16"
    using assms by (auto simp: ctx_ok_def)
  have g: "gd_sp GD_STACK_TOP (Suc (Suc 0))" "gd_sp (GD_STACK_TOP - 8) 16" "gd_sp (GD_STACK_TOP - 72) 16"
    using gd_sp_top [of 0 "Suc (Suc 0)"] gd_sp_top [of 2 16] gd_sp_top [of 18 16] by simp_all
  define m1 where "m1 = push_all [fpscr (cpu m), fpul (cpu m)] (gdc_switch m)"
  define m2 where "m2 = push_all (fbank0 (cpu m)) (lds_fpscr FPSCR_KOS m1)"
  have s1: "sp (cpu m1) = GD_STACK_TOP - 8"
    by (simp add: m1_def)
  have s2: "sp (cpu m2) = GD_STACK_TOP - 72"
    using s1 l by (simp add: m2_def sp_push_all)
  have "ld32 b (gdc_save m) = ld32 b (push_all (fbank1 (cpu m)) (frchg m2))"
    unfolding gdc_save_eq m1_def m2_def Let_def by simp
  also have "\<dots> = ld32 b m2"
    using g l s2 assms(2,3) by (subst ld32_push_all_low) simp_all
  also have "\<dots> = ld32 b m1"
    unfolding m2_def using g l s1 assms(2,3) by (subst ld32_push_all_low) simp_all
  also have "\<dots> = ld32 b (gdc_switch m)"
    unfolding m1_def using g assms(2,3) by (intro ld32_push_all_low) simp_all
  finally show ?thesis by (simp add: gdc_switch_def)
qed

lemma gdc_save_pr:
  assumes "ctx_ok m"
  shows "ld32 (sp (cpu m) - 4) (gdc_save m) = pr (cpu m)"
proof -
  have st: "stack_ok m" using assms by (simp add: ctx_ok_def)
  have "span (sp (cpu m) - 4) 4"
    using stack_ok_scratch [OF st] by (simp add: scratch_block_def)
  then show ?thesis
    using gdc_save_low [OF assms, of "sp (cpu m) - 4"] stack_ok_sp [OF st]
    by (simp add: push_def Let_def ld32_st32_same)
qed

text \<open>The save leaves the syscall vectors alone.\<close>

lemma gdc_save_vec:
  assumes "ctx_ok m"
  shows "ld32 GD_VEC (gdc_save m) = ld32 GD_VEC m" "ld32 GD_VEC2 (gdc_save m) = ld32 GD_VEC2 m"
proof -
  have st: "stack_ok m" using assms by (simp add: ctx_ok_def)
  have "cells_apart v 4 (sp (cpu m) - 4) 4" if "v = GD_VEC \<or> v = GD_VEC2" for v
    using that stack_ok_sp [OF st] by (intro p1_apart) (auto simp: src_consts)
  then show "ld32 GD_VEC (gdc_save m) = ld32 GD_VEC m" "ld32 GD_VEC2 (gdc_save m) = ld32 GD_VEC2 m"
    using gdc_save_low [OF assms, of GD_VEC] gdc_save_low [OF assms, of GD_VEC2]
    by (simp_all add: push_def Let_def ld32_st32_other) (simp_all add: src_consts)
qed

lemma gdc_save_probe: "ctx_ok m \<Longrightarrow> isoldr_probe (gdc_save m) = isoldr_probe m"
  by (simp add: isoldr_probe_def gdc_save_vec)

section \<open>The MMU window\<close>

lemma MMUCR_facts: "scratch_block MMUCR 4" "span MMUCR 4" "\<not> cached MMUCR" "unat (bus MMUCR) = 0xff000010"
  by (simp_all add: MMUCR_def scratch_block_def span_def cached_def bus_def)

lemma gdc_mmu_off_facts:
  "agree m (gdc_mmu_off m)" "bios (gdc_mmu_off m) = bios m" "cpu (gdc_mmu_off m) = cpu m"
  "gdc_saved_sp (gds (gdc_mmu_off m)) = gdc_saved_sp (gds m)"
  "gdc_mmu_gate (gds (gdc_mmu_off m)) = (if isoldr_probe m then 1 else 0)"
  "isoldr_probe m \<Longrightarrow> gdc_saved_mmucr (gds (gdc_mmu_off m)) = ld32 MMUCR m"
  "io (gdc_mmu_off m) = (if isoldr_probe m then io m @ [(MMUCR, 0)] else io m)"
  "isoldr_probe m \<Longrightarrow> ld32 MMUCR (gdc_mmu_off m) = 0"
  by (simp_all add: gdc_mmu_off_def Let_def reg_w_def ld32_st32_same MMUCR_facts agree_st32_scratch
      agree_trans [OF _ agree_st32_scratch])

lemma ram_p1_st32_MMUCR:
  assumes "unat b + 4 \<le> 0x90000000" "0x8c000000 \<le> unat b"
  shows "ld32 b (st32 MMUCR v m) = ld32 b m"
proof (rule ld32_st32_other)
  show "cells_apart b 4 MMUCR 4"
    using assms p1_block [of b 4] by (auto simp: cells_apart_def MMUCR_facts)
qed

lemma ld32_gdc_mmu:
  assumes "unat b + 4 \<le> 0x90000000" "0x8c000000 \<le> unat b"
  shows "ld32 b (gdc_mmu_off m) = ld32 b m" "ld32 b (gdc_mmu_restore m) = ld32 b m"
  using assms by (simp_all add: gdc_mmu_off_def gdc_mmu_restore_def Let_def reg_w_def ram_p1_st32_MMUCR)

lemma gdc_mmu_restore_facts:
  "agree m (gdc_mmu_restore m)" "bios (gdc_mmu_restore m) = bios m" "cpu (gdc_mmu_restore m) = cpu m"
  "gds (gdc_mmu_restore m) = gds m"
  "io (gdc_mmu_restore m) = (if gdc_mmu_gate (gds m) = 0 then io m
     else io m @ [(MMUCR, gdc_saved_mmucr (gds m))])"
  "gdc_mmu_gate (gds m) \<noteq> 0 \<Longrightarrow> ld32 MMUCR (gdc_mmu_restore m) = gdc_saved_mmucr (gds m)"
  by (simp_all add: gdc_mmu_restore_def reg_w_def ld32_st32_same MMUCR_facts agree_st32_scratch)

section \<open>Restoring the context\<close>

lemma pop_fields:
  "pop m = (v, m') \<Longrightarrow> v = ld32 (sp (cpu m)) m \<and> m' = m\<lparr>cpu := (cpu m)\<lparr>sp := sp (cpu m) + 4\<rparr>\<rparr>"
  by (simp add: pop_def Let_def)

lemma pop_all_only_sp:
  "snd (pop_all n acc m) = m\<lparr>cpu := (cpu m)\<lparr>sp := sp (cpu m) + 4 * word_of_nat n\<rparr>\<rparr>"
  by (induction n arbitrary: acc m) (simp_all add: pop_def Let_def algebra_simps)

definition same_but_cpu :: "machine \<Rightarrow> machine \<Rightarrow> bool" where
  "same_but_cpu m m' \<longleftrightarrow> m' = m\<lparr>cpu := cpu m'\<rparr>"

lemma same_but_cpu_refl [simp]: "same_but_cpu m m"
  by (simp add: same_but_cpu_def)

lemma same_but_cpu_trans: "same_but_cpu a b \<Longrightarrow> same_but_cpu b c \<Longrightarrow> same_but_cpu a c"
  unfolding same_but_cpu_def by (metis machine.surjective machine.update_convs(5) machine.select_convs(5))

lemma same_but_cpu_simps:
  "same_but_cpu m (m'\<lparr>cpu := c\<rparr>) = same_but_cpu m m'"
  "same_but_cpu m (lds_fpscr v m') = same_but_cpu m m'" "same_but_cpu m (frchg m') = same_but_cpu m m'"
  by (cases m; cases m'; auto simp: same_but_cpu_def lds_fpscr_def frchg_def)+

lemma same_but_cpu_pop:
  "same_but_cpu m (snd (pop m')) = same_but_cpu m m'"
  "same_but_cpu m (snd (pop_all n acc m')) = same_but_cpu m m'"
  "same_but_cpu m (pop_front m') = same_but_cpu m m'"
  by (simp_all add: pop_def Let_def pop_all_only_sp pop_front_def split_beta same_but_cpu_simps)

lemma gdc_restore_only_cpu: "same_but_cpu m (gdc_restore m)"
  by (simp add: gdc_restore_def Let_def split_beta same_but_cpu_simps same_but_cpu_pop)

lemma same_but_cpu_fields:
  assumes "same_but_cpu m m'"
  shows "ram m' = ram m" "dcache m' = dcache m" "bios m' = bios m" "io m' = io m" "gds m' = gds m"
    and "cartd m' = cartd m" "gdd m' = gdd m" "mapled m' = mapled m" "utild m' = utild m" "maind m' = maind m"
  by (subst assms [unfolded same_but_cpu_def], simp)+

lemma gdc_restore_ld32: "ld32 a (gdc_restore m) = ld32 a m"
proof -
  have "ld8 b (gdc_restore m) = ld8 b m" for b
    using same_but_cpu_fields [OF gdc_restore_only_cpu [of m]]
    by (simp add: ld8_def split: option.split)
  then show ?thesis by (simp add: ld32_def)
qed

lemma gdc_restore_sp: "sp (cpu (gdc_restore m)) = gdc_saved_sp (gds m) + 4"
proof -
  have "gds (pop_front (frchg (pop_front (frchg (lds_fpscr FPSCR_KOS m))))) = gds m"
    by (rule same_but_cpu_fields) (simp add: same_but_cpu_simps same_but_cpu_pop)
  then show ?thesis
    by (simp add: gdc_restore_def Let_def pop_def lds_fpscr_def split_beta)
qed

text \<open>Popping the frame that the save pushed gives every register back.\<close>

lemma gdc_restore_frame:
  assumes st: "stacked (sp (cpu m)) (gd_frame c) m"
    and l: "length (fbank0 c) = 16" "length (fbank1 c) = 16"
  shows "cpu (gdc_restore m) = c\<lparr>sp := gdc_saved_sp (gds m) + 4, pr := ld32 (gdc_saved_sp (gds m)) m,
    sr := sr (cpu m)\<rparr>"
proof -
  let ?s = "sp (cpu m)"
  define m1 where "m1 = frchg (lds_fpscr FPSCR_KOS m)"
  have p1: "pop_all 16 [] m1 = (fbank1 c, m1\<lparr>cpu := (cpu m1)\<lparr>sp := ?s + 64\<rparr>\<rparr>)"
    using pop_all_stacked [of m1 "rev (fbank1 c)" "rev (fbank0 c) @ [fpul c, fpscr c]" 16 "[]"] st l
    by (simp add: m1_def gd_frame_def)
  define m2 where "m2 = frchg (pop_front m1)"
  have f2: "m2 = m\<lparr>cpu := (cpu m)\<lparr>sp := ?s + 64, fpscr := FPSCR_KOS, fbank1 := fbank1 c\<rparr>\<rparr>"
    by (simp add: m2_def pop_front_def p1 Let_def) (simp add: m1_def frchg_def lds_fpscr_def set_front_def)
  have st2: "stacked (?s + 64) (rev (fbank0 c) @ [fpul c, fpscr c]) m"
    using st l stacked_append [of ?s "rev (fbank1 c)" _ m] by (simp add: gd_frame_def)
  have p2: "pop_all 16 [] m2 = (fbank0 c, m2\<lparr>cpu := (cpu m2)\<lparr>sp := ?s + 128\<rparr>\<rparr>)"
    using pop_all_stacked [of m2 "rev (fbank0 c)" "[fpul c, fpscr c]" 16 "[]"] st2 l
    by (simp add: f2)
  have f3: "pop_front m2 = m\<lparr>cpu := (cpu m)\<lparr>sp := ?s + 128, fpscr := FPSCR_KOS, fbank1 := fbank1 c, fbank0 := fbank0 c\<rparr>\<rparr>"
    by (simp add: pop_front_def p2 Let_def) (simp add: f2 set_front_def)
  have st3: "ld32 (?s + 128) m = fpul c \<and> ld32 (132 + ?s) m = fpscr c"
    using st2 l stacked_append [of "?s + 64" "rev (fbank0 c)" "[fpul c, fpscr c]" m]
    by (simp add: add.commute)
  show ?thesis
    unfolding gdc_restore_def Let_def m1_def [symmetric] m2_def [symmetric] f3
    using st3 by (cases "cpu m"; cases c) (simp add: pop_def Let_def lds_fpscr_def)
qed

section \<open>The wrapper as a whole\<close>

text \<open>
  What the C calling convention promises of the code behind the vector, entered with machine \<open>s\<close>
  and leaving \<open>s'\<close>: the stack pointer is back, and the words above it and the wrapper's own
  statics are as they were.
\<close>

definition abi_ok :: "machine \<Rightarrow> machine \<Rightarrow> bool" where
  "abi_ok s s' \<longleftrightarrow> sp (cpu s') = sp (cpu s) \<and> gds s' = gds s \<and>
     (\<forall>i < 34. ld32 (sp (cpu s) + 4 * word_of_nat i) s' = ld32 (sp (cpu s) + 4 * word_of_nat i) s) \<and>
     ld32 (gdc_saved_sp (gds s)) s' = ld32 (gdc_saved_sp (gds s)) s"

definition gdc_entry :: "machine \<Rightarrow> machine" where
  "gdc_entry m = gdc_mmu_off (gdc_save m)"

definition gdc_exit :: "machine \<Rightarrow> machine" where
  "gdc_exit m = gdc_restore (gdc_mmu_restore m)"

lemma gdc_call_split:
  "gdc_call E c blk f m = (case gd_vector E c blk f (gdc_entry m) of (r, b, m1) \<Rightarrow> (r, b, gdc_exit m1))"
  by (simp add: gdc_call_def gdc_entry_def gdc_exit_def)

lemma gdc_entry_facts:
  assumes "ctx_ok m"
  shows "agree m (gdc_entry m)" "bios (gdc_entry m) = bios m" "sp (cpu (gdc_entry m)) = GD_STACK_TOP - 136"
    and "gdc_saved_sp (gds (gdc_entry m)) = sp (cpu m) - 4"
  using gdc_save_facts [OF assms]
  by (auto simp: gdc_entry_def gdc_mmu_off_facts intro: agree_trans [OF _ gdc_mmu_off_facts(1)])

lemma gdc_exit_facts:
  "agree m (gdc_exit m)" "bios (gdc_exit m) = bios m" "gds (gdc_exit m) = gds m"
  "sp (cpu (gdc_exit m)) = gdc_saved_sp (gds m) + 4"
proof -
  note * = same_but_cpu_fields [OF gdc_restore_only_cpu [of "gdc_mmu_restore m"]]
  have "agree (gdc_mmu_restore m) (gdc_exit m)"
    by (simp add: agree_def gdc_exit_def *)
  with gdc_mmu_restore_facts(1) show "agree m (gdc_exit m)" by (rule agree_trans)
  show "bios (gdc_exit m) = bios m" "gds (gdc_exit m) = gds m"
    "sp (cpu (gdc_exit m)) = gdc_saved_sp (gds m) + 4"
    by (simp_all add: gdc_exit_def * gdc_mmu_restore_facts gdc_restore_sp)
qed

lemma unat_saved: "i < 34 \<Longrightarrow> unat (GD_STACK_TOP - 136 + 4 * word_of_nat i) = 0x8cfd7f78 + 4 * i"
proof -
  assume "i < 34"
  moreover have "unat (GD_STACK_TOP - 136) = 0x8cfd7f78"
    by (simp add: src_consts)
  ultimately show ?thesis by (simp add: unat_word_step)
qed

lemma gdc_context:
  assumes "ctx_ok m" "abi_ok (gdc_entry m) m1"
  shows "cpu (gdc_exit m1) = (cpu m)\<lparr>sr := sr (cpu m1)\<rparr>"
proof -
  have l: "length (fbank0 (cpu m)) = 16" "length (fbank1 (cpu m)) = 16" and st: "stack_ok m"
    using assms(1) by (auto simp: ctx_ok_def)
  note sv = gdc_save_facts [OF assms(1)] and en = gdc_entry_facts [OF assms(1)]
  let ?a = "GD_STACK_TOP - 136"
  have sp1: "sp (cpu m1) = ?a" and sg: "gdc_saved_sp (gds m1) = sp (cpu m) - 4"
    using assms(2) en by (simp_all add: abi_ok_def)
  have w: "ld32 (?a + 4 * word_of_nat i) (gdc_mmu_restore m1) = ld32 (?a + 4 * word_of_nat i) (gdc_save m)"
    if "i < 34" for i
  proof -
    have "ld32 (?a + 4 * word_of_nat i) m1 = ld32 (?a + 4 * word_of_nat i) (gdc_entry m)"
      using assms(2) that en by (simp add: abi_ok_def)
    then show ?thesis
      using that unat_saved [OF that] by (simp add: ld32_gdc_mmu gdc_entry_def)
  qed
  have "length (gd_frame (cpu m)) = 34"
    using l by (simp add: gd_frame_def)
  then have "stacked ?a (gd_frame (cpu m)) (gdc_mmu_restore m1) = stacked ?a (gd_frame (cpu m)) (gdc_save m)"
    using w by (intro stacked_cong) simp
  then have fr: "stacked (sp (cpu (gdc_mmu_restore m1))) (gd_frame (cpu m)) (gdc_mmu_restore m1)"
    using sv by (simp add: gdc_mmu_restore_facts sp1)
  have "ld32 (sp (cpu m) - 4) m1 = ld32 (sp (cpu m) - 4) (gdc_entry m)"
    using assms(2) en by (simp add: abi_ok_def)
  then have pr: "ld32 (sp (cpu m) - 4) (gdc_mmu_restore m1) = pr (cpu m)"
    using stack_ok_sp [OF st] gdc_save_pr [OF assms(1)] by (simp add: ld32_gdc_mmu gdc_entry_def)
  show ?thesis
    using gdc_restore_frame [OF fr l] pr
    by (simp add: gdc_exit_def gdc_mmu_restore_facts sg)
qed

text \<open>The MMU control register: written only for an isoldr backend, and then given back.\<close>

lemma gdc_mmu_window:
  assumes "ctx_ok m" "gds m1 = gds (gdc_entry m)"
  shows "io (gdc_exit m1) = (if isoldr_probe m then io m1 @ [(MMUCR, ld32 MMUCR (gdc_save m))] else io m1)"
    and "isoldr_probe m \<Longrightarrow> ld32 MMUCR (gdc_entry m) = 0"
    and "isoldr_probe m \<Longrightarrow> ld32 MMUCR (gdc_exit m1) = ld32 MMUCR (gdc_save m)"
proof -
  note p = gdc_save_probe [OF assms(1)]
  have g: "gdc_mmu_gate (gds m1) = (if isoldr_probe m then 1 else 0)"
    "isoldr_probe m \<Longrightarrow> gdc_saved_mmucr (gds m1) = ld32 MMUCR (gdc_save m)"
    using assms(2) by (simp_all add: gdc_entry_def gdc_mmu_off_facts p)
  note r = same_but_cpu_fields [OF gdc_restore_only_cpu [of "gdc_mmu_restore m1"]]
  show "io (gdc_exit m1) = (if isoldr_probe m then io m1 @ [(MMUCR, ld32 MMUCR (gdc_save m))] else io m1)"
    using g by (simp add: gdc_exit_def r gdc_mmu_restore_facts)
  show "isoldr_probe m \<Longrightarrow> ld32 MMUCR (gdc_entry m) = 0"
    by (simp add: gdc_entry_def gdc_mmu_off_facts p)
  have "ld32 a (gdc_exit m1) = ld32 a (gdc_mmu_restore m1)" for a
    by (simp add: gdc_exit_def gdc_restore_ld32)
  then show "isoldr_probe m \<Longrightarrow> ld32 MMUCR (gdc_exit m1) = ld32 MMUCR (gdc_save m)"
    using g by (simp add: gdc_mmu_restore_facts)
qed

end
