(* ===== verification/Paint.thy ===== *)
theory Paint
  imports Framebuffer
begin

text \<open>
  What the painters of \<^verbatim>\<open>util.c\<close> do: marks, digits and the load bar touch nothing but video memory
  and the display control register, and the load bar draws the picture its comment describes.
\<close>

section \<open>Device-only painters\<close>

lemma dev_only_px:
  assumes "0xa5000000 \<le> unat fb" "unat fb + 2 * i + 2 \<le> 0xa8000000"
  shows "dev_only m (put_px fb i c m)"
proof -
  let ?a = "fb + 2 * word_of_nat i"
  have u: "unat ?a = unat fb + 2 * i"
    using assms unat_add_of_nat [of fb "2 * i"] by simp
  then have "unat ?a div 536870912 = 5" "unat ?a mod 536870912 = unat ?a - 0xa0000000"
    using assms by (simp_all add: div_nat_eqI mod_nat_eqI)
  then have "dev_addr ?a 2"
    using assms u by (auto simp: dev_addr_def span_def cached_div unat_bus_div)
  then show ?thesis unfolding put_px_def by (rule dev_only_st16)
qed

lemma live_fb_range: "0xa5000000 \<le> unat (live_fb m)" "unat (live_fb m) \<le> 0xa5fffffc"
  using live_fb_ok [of m] by (simp_all add: fb_ok_def)

lemma slot_offset:
  assumes "slot < 32"
  shows "unat (if slot \<ge> 16 then 2 * (12 * 640 + (slot - 16) * 24) else 2 * (slot * 24) :: u32) \<le> 0x4000"
proof -
  obtain k where k: "slot = word_of_nat k" "k < 32"
    using assms that [of "unat slot"] by (simp add: word_less_nat_alt)
  show ?thesis
  proof (cases "slot \<ge> 16")
    case True
    then have "16 \<le> k" using k by (simp add: word_le_nat_alt unat_of_nat_u32)
    then have "2 * (12 * 640 + (slot - 16) * 24) = word_of_nat (2 * (12 * 640 + (k - 16) * 24))"
      using k by (simp add: of_nat_diff)
    then show ?thesis
      using True k unat_of_nat_u32 [of "2 * (12 * 640 + (k - 16) * 24)"] by simp
  next
    case False
    have "2 * (slot * 24) = word_of_nat (2 * (k * 24))"
      using k by simp
    then show ?thesis
      using False k unat_of_nat_u32 [of "2 * (k * 24)"] by simp
  qed
qed

lemma shim_mark_dev_only [frame]: "slot < 32 \<Longrightarrow> dev_only m (shim_mark E slot color m)"
proof -
  assume s: "slot < 32"
  let ?m1 = "unblank m"
  let ?off = "if slot \<ge> 16 then 2 * (12 * 640 + (slot - 16) * 24) else 2 * (slot * 24)"
  let ?fb = "live_fb ?m1 + ?off"
  have u: "unat ?fb = unat (live_fb ?m1) + unat ?off"
    using slot_offset [OF s] live_fb_range [of ?m1] by (intro unat_add_lt) linarith
  have "dev_only ?m1 (fold (\<lambda>y. fold (\<lambda>x. put_px ?fb (y * 640 + x) color) [0 ..< 16]) [0 ..< 8] ?m1)"
    using u slot_offset [OF s] live_fb_range [of ?m1] by (intro dev_only_fold dev_only_px) auto
  with unblank_dev_only [of m] have "dev_only m
      (fold (\<lambda>y. fold (\<lambda>x. put_px ?fb (y * 640 + x) color) [0 ..< 16]) [0 ..< 8] ?m1)"
    by (rule dev_only_trans)
  then show ?thesis
    by (simp add: shim_mark_def Let_def split: if_splits)
qed

lemma hex_paint_c_dev_only:
  assumes "x + 80 \<le> 640" "y + 10 \<le> 480"
  shows "dev_only m (hex_paint_c x y val fg bg m)"
proof -
  let ?m1 = "unblank m" and ?fb = "live_fb (unblank m)"
  have px: "dev_only m' (put_px ?fb i c' m')" if "i < 640 * 480" for i c' m'
    using that live_fb_ok [of ?m1] by (intro dev_only_put_px) (simp add: px_ok_def)
  have cell: "dev_only m' (hex_cell ?fb x y val fg bg d r c m')" if "d < 8" "r < 5" "c < 3" for d r c m'
  proof -
    have "y + r * 2 + 1 \<le> 479" "x + d * 10 + c * 2 + 1 < 640" using that assms by linarith+
    then have "(y + r * 2 + 1) * 640 \<le> 479 * 640" by (intro mult_le_mono1)
    then have "(y + r * 2 + 1) * 640 + (x + d * 10 + c * 2) + 1 < 640 * 480"
      "(y + r * 2) * 640 + (x + d * 10 + c * 2) + 1 < 640 * 480"
      using \<open>x + d * 10 + c * 2 + 1 < 640\<close> by (simp_all add: algebra_simps)
    then show ?thesis
      unfolding hex_cell_def Let_def by (intro dev_only_trans [OF _ px] px) simp_all
  qed
  have "dev_only ?m1 (fold (\<lambda>d. fold (\<lambda>r. fold (\<lambda>c. hex_cell ?fb x y val fg bg d r c) [0 ..< 3]) [0 ..< 5]) [0 ..< 8] ?m1)"
    by (intro dev_only_fold cell) simp_all
  with unblank_dev_only [of m] show ?thesis
    unfolding hex_paint_c_def Let_def by (rule dev_only_trans)
qed

lemma shim_hex_dev_only [frame]:
  "x + 80 \<le> 640 \<Longrightarrow> y + 10 \<le> 480 \<Longrightarrow> dev_only m (shim_hex E x y val m)"
  by (simp add: shim_hex_def hex_paint_def hex_paint_c_dev_only)

section \<open>The load bar\<close>

lemma loadbar_px:
  assumes "fb_ok fb" "x < 640" "y < 480"
  shows "px_ok fb (y * 640 + x)"
proof -
  have "y * 640 \<le> 479 * 640" using assms(3) by (intro mult_le_mono1) simp
  with assms show ?thesis by (simp add: px_ok_def)
qed

text \<open>The picture: filled part and track, then the outline; everything else is as before.\<close>

definition loadbar_picture :: "nat \<Rightarrow> nat \<Rightarrow> nat \<Rightarrow> u16 \<Rightarrow> u16" where
  "loadbar_picture fill x y old =
     (if 420 \<le> y \<and> y < 426 \<and> 160 \<le> x \<and> x < 480 then (if x < 160 + min fill 320 then 0x7984 else 0)
      else if (y = 417 \<or> y = 428) \<and> 158 \<le> x \<and> x \<le> 482 then 0
      else if 418 \<le> y \<and> y \<le> 427 \<and> (x = 158 \<or> x = 482) then 0
      else old)"

lemma row_col: "x < 640 \<Longrightarrow> x' < 640 \<Longrightarrow> y * 640 + x = y' * 640 + x' \<longleftrightarrow> y = y' \<and> x = x'" for x y :: nat
  by (metis add_right_cancel div_mult_self3 div_less mod_less mod_mult_self3 zero_neq_numeral add.right_neutral)

lemma ex_upt: "(\<exists>z \<in> set [a ..< b]. P z) \<longleftrightarrow> (\<exists>z \<ge> a. z < b \<and> P z)"
  by auto

lemma in_upt: "z \<in> set [a ..< b] \<Longrightarrow> a \<le> z \<and> z < b"
  by simp

text \<open>Two pixels per turn, over a range of turns.\<close>

lemma paired_fold:
  assumes "\<And>z. a \<le> z \<Longrightarrow> z < b \<Longrightarrow> px_ok fb (f z) \<and> px_ok fb (g z)" "px_ok fb j"
  shows "get_px fb j (fold (\<lambda>z m. put_px fb (f z) 0 (put_px fb (g z) 0 m)) [a ..< b] m)
    = (if \<exists>z \<ge> a. z < b \<and> (j = f z \<or> j = g z) then 0 else get_px fb j m)"
proof -
  have "get_px fb j (fold (\<lambda>z m. put_px fb (f z) 0 (put_px fb (g z) 0 m)) [a ..< b] m)
    = (if \<exists>z \<in> set [a ..< b]. j = f z \<or> j = g z then 0 else get_px fb j m)"
  proof (rule fb.get_fold)
    fix z m'
    assume "z \<in> set [a ..< b]"
    then have "px_ok fb (f z)" "px_ok fb (g z)" using assms(1) in_upt by blast+
    then show "get_px fb j (put_px fb (f z) 0 (put_px fb (g z) 0 m'))
      = (if j = f z \<or> j = g z then 0 else get_px fb j m')"
      using assms(2) by (rule fb.get_put2)
  qed
  then show ?thesis by (simp only: ex_upt)
qed

lemma loadbar_rows:
  assumes "fb_ok fb" "x < 640" "y < 480"
  shows "get_px fb (y * 640 + x) (fold (\<lambda>x m. put_px fb (417 * 640 + x) 0
      (put_px fb ((417 + 11) * 640 + x) 0 m)) [158 ..< 483] m)
    = (if (y = 417 \<or> y = 428) \<and> 158 \<le> x \<and> x \<le> 482 then 0 else get_px fb (y * 640 + x) m)"
proof -
  note px = loadbar_px [OF assms(1)]
  let ?Q = "\<lambda>z. y * 640 + x = 417 * 640 + z \<or> y * 640 + x = (417 + 11) * 640 + z"
  have rc: "?Q z \<longleftrightarrow> (y = 417 \<or> y = 428) \<and> x = z" if "z < 483" for z
    using row_col [OF assms(2), of z y 417] row_col [OF assms(2), of z y "417 + 11"] that by auto
  have "get_px fb (y * 640 + x) (fold (\<lambda>x m. put_px fb (417 * 640 + x) 0
      (put_px fb ((417 + 11) * 640 + x) 0 m)) [158 ..< 483] m)
    = (if \<exists>z \<ge> 158. z < 483 \<and> (y * 640 + x = 417 * 640 + z \<or> y * 640 + x = (417 + 11) * 640 + z)
       then 0 else get_px fb (y * 640 + x) m)"
  proof (rule paired_fold)
    fix z :: nat
    assume "z < 483"
    then show "px_ok fb (417 * 640 + z) \<and> px_ok fb ((417 + 11) * 640 + z)"
      using px [of z 417] px [of z "417 + 11"] by simp
  qed (use px assms in simp)
  moreover have "(\<exists>z \<ge> 158. z < 483 \<and> ?Q z) \<longleftrightarrow> (\<exists>z \<ge> 158. z < 483 \<and> (y = 417 \<or> y = 428) \<and> x = z)"
    using rc by blast
  moreover have "\<dots> \<longleftrightarrow> (y = 417 \<or> y = 428) \<and> 158 \<le> x \<and> x \<le> 482"
    by auto
  ultimately show ?thesis by (simp only:)
qed

lemma loadbar_sides:
  assumes "fb_ok fb" "x < 640" "y < 480"
  shows "get_px fb (y * 640 + x) (fold (\<lambda>y m. put_px fb (y * 640 + 158) 0
      (put_px fb (y * 640 + 482) 0 m)) [417 + 1 ..< 417 + 11] m)
    = (if 418 \<le> y \<and> y \<le> 427 \<and> (x = 158 \<or> x = 482) then 0 else get_px fb (y * 640 + x) m)"
proof -
  note px = loadbar_px [OF assms(1)]
  have rc: "y * 640 + x = z * 640 + 158 \<longleftrightarrow> y = z \<and> x = 158"
    "y * 640 + x = z * 640 + 482 \<longleftrightarrow> y = z \<and> x = 482" for z
    using row_col [OF assms(2), of 158 y z] row_col [OF assms(2), of 482 y z] by simp_all
  have "get_px fb (y * 640 + x) (fold (\<lambda>y m. put_px fb (y * 640 + 158) 0
      (put_px fb (y * 640 + 482) 0 m)) [417 + 1 ..< 417 + 11] m)
    = (if \<exists>z \<ge> 417 + 1. z < 417 + 11 \<and> (y * 640 + x = z * 640 + 158 \<or> y * 640 + x = z * 640 + 482)
       then 0 else get_px fb (y * 640 + x) m)"
    using px assms by (intro paired_fold) simp_all
  moreover have "(\<exists>z \<ge> 417 + 1. z < 417 + 11 \<and> (y * 640 + x = z * 640 + 158 \<or> y * 640 + x = z * 640 + 482))
    \<longleftrightarrow> 418 \<le> y \<and> y \<le> 427 \<and> (x = 158 \<or> x = 482)"
    unfolding rc by auto
  ultimately show ?thesis by (simp only:)
qed

lemma loadbar_fill:
  assumes "fb_ok fb" "x < 640" "y < 480"
  shows "get_px fb (y * 640 + x) (fold (\<lambda>y. fold (\<lambda>x. put_px fb (y * 640 + 160 + x)
      (if x < f then 0x7984 else 0)) [0 ..< 320]) [417 + 3 ..< 417 + 9] m)
    = (if 420 \<le> y \<and> y < 426 \<and> 160 \<le> x \<and> x < 480 then (if x < 160 + f then 0x7984 else 0)
       else get_px fb (y * 640 + x) m)"
proof -
  note px = loadbar_px [OF assms(1)]
  let ?P = "\<lambda>z. \<exists>w \<in> set [0 ..< 320]. z * 640 + 160 + w = y * 640 + x"
  let ?c = "if x < 160 + f then 0x7984 else 0 :: u16"
  have rc: "z * 640 + 160 + w = y * 640 + x \<longleftrightarrow> z = y \<and> 160 + w = x" if "w < 320" for z w
    using row_col [of "160 + w" x z y] assms(2) that by (simp add: add.assoc)
  have "get_px fb (y * 640 + x) (fold (\<lambda>y. fold (\<lambda>x. put_px fb (y * 640 + 160 + x)
      (if x < f then 0x7984 else 0)) [0 ..< 320]) [417 + 3 ..< 417 + 9] m)
    = (if \<exists>z \<in> set [417 + 3 ..< 417 + 9]. ?P z then ?c else get_px fb (y * 640 + x) m)"
  proof (rule fb.get_fold)
    fix z m'
    assume "z \<in> set [417 + 3 ..< 417 + (9 :: nat)]"
    then have z: "z < 480" by auto
    show "get_px fb (y * 640 + x) (fold (\<lambda>x. put_px fb (z * 640 + 160 + x)
        (if x < f then 0x7984 else 0)) [0 ..< 320] m') = (if ?P z then ?c else get_px fb (y * 640 + x) m')"
    proof (rule fb.get_fold_row)
      fix w
      assume w: "w \<in> set [0 ..< (320 :: nat)]"
      then show "px_ok fb (z * 640 + 160 + w)"
        using px [of "160 + w" z] z by (simp add: add.assoc)
      show "(if w < f then 0x7984 else 0) = ?c" if "z * 640 + 160 + w = y * 640 + x"
        using w rc [of w z] that by auto
    qed (use px assms in simp)
  qed
  moreover have "(\<exists>z \<in> set [417 + 3 ..< 417 + 9]. ?P z) \<longleftrightarrow> 420 \<le> y \<and> y < 426 \<and> 160 \<le> x \<and> x < 480"
  proof
    assume "\<exists>z \<in> set [417 + 3 ..< 417 + 9]. ?P z"
    then show "420 \<le> y \<and> y < 426 \<and> 160 \<le> x \<and> x < 480" using rc by auto
  next
    assume *: "420 \<le> y \<and> y < 426 \<and> 160 \<le> x \<and> x < 480"
    then have "x - 160 \<in> set [0 ..< 320]" "y * 640 + 160 + (x - 160) = y * 640 + x" "y \<in> set [417 + 3 ..< 417 + 9]"
      by auto
    then show "\<exists>z \<in> set [417 + 3 ..< 417 + 9]. ?P z" by blast
  qed
  ultimately show ?thesis by simp
qed

lemma unat_fill: "unat (if fill > 320 then 320 else fill :: u32) = min (unat fill) 320"
  by (simp add: word_less_nat_alt min_def)

lemma loadbar_paint_pixel:
  assumes "x < 640" "y < 480"
  shows "get_px (live_fb m) (y * 640 + x) (loadbar_paint fill m)
    = loadbar_picture (unat fill) x y (get_px (live_fb m) (y * 640 + x) m)"
proof -
  note ok = live_fb_ok [of m]
  show ?thesis
    unfolding loadbar_paint_def Let_def unat_fill
      unblank_pixel [OF loadbar_px [OF ok assms]] loadbar_fill [OF ok assms]
      loadbar_sides [OF ok assms] loadbar_rows [OF ok assms] loadbar_picture_def
    by auto
qed

lemma loadbar_paint_dev_only [frame]: "dev_only m (loadbar_paint fill m)"
proof -
  have px: "dev_only m' (put_px (live_fb m) (y * 640 + x) c m')" if "x < 640" "y < 480" for x y c m'
    using loadbar_px [OF live_fb_ok that] by (rule dev_only_put_px)
  have 1: "dev_only m' (fold (\<lambda>x m'. put_px (live_fb m) (417 * 640 + x) 0
      (put_px (live_fb m) ((417 + 11) * 640 + x) 0 m')) [158 ..< 483] m')" for m'
  proof (rule dev_only_fold)
    fix x m1
    assume "x \<in> set [158 ..< (483 :: nat)]"
    then have "x < 640" using in_upt [of x 158 483] by linarith
    then show "dev_only m1 (put_px (live_fb m) (417 * 640 + x) 0
        (put_px (live_fb m) ((417 + 11) * 640 + x) 0 m1))"
      by (intro dev_only_trans [OF px px]) simp_all
  qed
  have 2: "dev_only m' (fold (\<lambda>y m'. put_px (live_fb m) (y * 640 + 158) 0
      (put_px (live_fb m) (y * 640 + 482) 0 m')) [417 + 1 ..< 417 + 11] m')" for m'
  proof (rule dev_only_fold)
    fix y m1
    assume "y \<in> set [417 + 1 ..< 417 + (11 :: nat)]"
    then have "y < 480" by auto
    then show "dev_only m1 (put_px (live_fb m) (y * 640 + 158) 0 (put_px (live_fb m) (y * 640 + 482) 0 m1))"
      by (intro dev_only_trans [OF px px]) simp_all
  qed
  have 3: "dev_only m' (fold (\<lambda>y. fold (\<lambda>x. put_px (live_fb m) (y * 640 + 160 + x) (c x)) [0 ..< 320])
      [417 + 3 ..< 417 + 9] m')" for m' c
  proof (intro dev_only_fold)
    fix y x m1
    assume "y \<in> set [417 + 3 ..< 417 + (9 :: nat)]" "x \<in> set [0 ..< (320 :: nat)]"
    then have "y < 480" "160 + x < 640" by auto
    then show "dev_only m1 (put_px (live_fb m) (y * 640 + 160 + x) (c x) m1)"
      using px [of "160 + x" y] by (simp add: add.assoc)
  qed
  show ?thesis
    unfolding loadbar_paint_def Let_def
    by (rule dev_only_trans [OF dev_only_trans [OF dev_only_trans [OF 1 2] 3] unblank_dev_only])
qed

end
