(* ===== verification/Gd_Lemmas.thy ===== *)
theory Gd_Lemmas
  imports Gd Gdstack_Lemmas Cart_Split Paint
begin

text \<open>
  What \<^verbatim>\<open>gd.c\<close> guarantees. The backend behind the syscall vector is a parameter of the model;
  \<open>drive_ok\<close> is the documented behaviour of a working one. For a working drive both read routines
  deliver the requested sectors and disturb nothing else; for any drive they end in one of three
  ways.
\<close>

section \<open>Overwriting a block\<close>

lemma st8_st8_same: "bus b = bus a \<Longrightarrow> cached b = cached a \<Longrightarrow> st8 b v (st8 a w m) = st8 b v m"
  by (cases m) (auto simp: st8_def fill_line_def fun_eq_iff)

lemma st8_commute:
  "bus b \<noteq> bus a \<Longrightarrow> cached b = cached a \<Longrightarrow> st8 b v (st8 a w m) = st8 a w (st8 b v m)"
  by (cases m) (auto simp: st8_def fill_line_def fun_eq_iff)

lemma st8_store_bytes_commute:
  "(\<And>i. i < length bs \<Longrightarrow> bus (a + word_of_nat i) \<noteq> bus b \<and> cached (a + word_of_nat i) = cached b) \<Longrightarrow>
    st8 b v (store_bytes a bs m) = store_bytes a bs (st8 b v m)"
proof (induction bs arbitrary: a m)
  case Nil
  then show ?case by simp
next
  case (Cons x xs)
  have "bus b \<noteq> bus a" "cached b = cached a" using Cons.prems [of 0] by auto
  then have "st8 b v (st8 a x m) = st8 a x (st8 b v m)" by (rule st8_commute)
  moreover have "bus (a + 1 + word_of_nat i) \<noteq> bus b \<and> cached (a + 1 + word_of_nat i) = cached b"
    if "i < length xs" for i
    using Cons.prems [of "Suc i"] that by (simp add: add.assoc)
  ultimately show ?case using Cons.IH [of "a + 1" "st8 a x m"] by simp
qed

lemma span_tail_apart:
  assumes "span a (Suc n)" "i < n"
  shows "bus (a + 1 + word_of_nat i) \<noteq> bus a \<and> cached (a + 1 + word_of_nat i) = cached a"
proof -
  have "unat (bus (a + word_of_nat (Suc i))) = unat (bus a) + Suc i"
    using span_bus [OF assms(1), of "Suc i"] assms(2) by simp
  moreover have "cached (a + word_of_nat (Suc i)) = cached a"
    using span_cached [OF assms(1), of "Suc i"] assms(2) by simp
  ultimately show ?thesis by (auto simp: add.assoc)
qed

lemma store_bytes_overwrite:
  "span a (length cs) \<Longrightarrow> length bs = length cs \<Longrightarrow>
    store_bytes a cs (store_bytes a bs m) = store_bytes a cs m"
proof (induction cs arbitrary: a bs m)
  case Nil
  then show ?case by simp
next
  case (Cons c cs)
  then obtain b bs' where bs: "bs = b # bs'" "length bs' = length cs"
    by (cases bs) auto
  have "st8 a c (store_bytes (a + 1) bs' (st8 a b m)) = store_bytes (a + 1) bs' (st8 a c (st8 a b m))"
    using Cons.prems bs span_tail_apart by (intro st8_store_bytes_commute) simp
  then have *: "store_bytes a (c # cs) (store_bytes a bs m)
      = store_bytes (a + 1) cs (store_bytes (a + 1) bs' (st8 a c m))"
    by (simp add: bs st8_st8_same)
  show ?case
  proof (cases "cs = []")
    case False
    then have "span (a + 1) (length cs)"
      using Cons.prems by (auto intro: span_Suc)
    with Cons.IH [OF this bs(2)] * show ?thesis by simp
  qed (use * bs in simp)
qed

section \<open>A working drive\<close>

text \<open>The \<open>n\<close> sectors from \<open>fad\<close> on, of a disc given by its bytes.\<close>

definition sectors :: "(nat \<Rightarrow> u8) \<Rightarrow> u32 \<Rightarrow> u32 \<Rightarrow> u8 list" where
  "sectors disc fad n = chunk disc (unat fad) 0 (unat n * 2048)"

lemma length_sectors [simp]: "length (sectors disc fad n) = unat n * 2048"
  by (simp add: sectors_def)

text \<open>Where a command delivers: PIO through the given address, G1-DMA to physical memory.\<close>

definition gd_tgt :: "u32 \<Rightarrow> u32 \<Rightarrow> u32" where
  "gd_tgt cmd dst = (if cmd = CMD_DMAREAD then P2ADDR dst else dst)"

text \<open>A request a driver may be given: a block of main memory clear of its own work areas.\<close>

definition gd_req_ok :: "u32 \<Rightarrow> u32 \<Rightarrow> u32 \<Rightarrow> bool" where
  "gd_req_ok cmd dst n \<longleftrightarrow>
     (cmd = CMD_PIOREAD \<or> cmd = CMD_DMAREAD \<and> unat dst mod 32 = 0 \<and> unat dst < 0x20000000) \<and>
     span (gd_tgt cmd dst) (unat n * 2048) \<and>
     0x0c010000 \<le> unat (bus (gd_tgt cmd dst)) \<and>
     unat (bus (gd_tgt cmd dst)) + unat n * 2048 \<le> 0x0cfd4000"

text \<open>What a pending transfer into the block may have done so far.\<close>

definition progress :: "u32 \<Rightarrow> nat \<Rightarrow> machine \<Rightarrow> machine \<Rightarrow> bool" where
  "progress a len m m' \<longleftrightarrow> agree m m' \<or> (\<exists>bs. length bs = len \<and> agree (store_bytes a bs m) m')"

definition delivered :: "u32 \<Rightarrow> u8 list \<Rightarrow> machine \<Rightarrow> machine \<Rightarrow> bool" where
  "delivered a bs m m' \<longleftrightarrow> agree (store_bytes a bs m) m'"

text \<open>
  The documented behaviour of the syscall vector for reads. Its state lives in \<open>bios\<close>; \<open>job\<close> reads
  from it the request in flight: handle, command, first sector, count, destination and the number
  of status checks (at most a million) that will still say \<^verbatim>\<open>NOT_FOUND\<close>, \<^verbatim>\<open>PROCESSING\<close>, \<^verbatim>\<open>STREAMING\<close> or
  \<^verbatim>\<open>BUSY\<close>. A command is accepted with a positive handle; the executor and the checks move data only
  into the destination; completion is reported once the whole block has arrived. No call touches
  the wrapper's statics.
\<close>

type_synonym gd_job = "u32 \<times> u32 \<times> u32 \<times> u32 \<times> u32 \<times> nat"

definition drive_send :: "env \<Rightarrow> (u32 list \<Rightarrow> gd_job option) \<Rightarrow> bool" where
  "drive_send E job \<longleftrightarrow> (\<forall>cmd fad n dst m req b m'.
     gd_req_ok cmd dst n \<longrightarrow> gd_vector E cmd (Some (fad, n, dst, 0)) GD_SEND m = (req, b, m') \<longrightarrow>
       0 < sint req \<and> gds m' = gds m \<and> agree m m' \<and>
       (\<exists>k \<le> 1000000. job (bios m') = Some (req, cmd, fad, n, dst, k)))"

definition drive_exec :: "env \<Rightarrow> (u32 list \<Rightarrow> gd_job option) \<Rightarrow> bool" where
  "drive_exec E job \<longleftrightarrow> (\<forall>req cmd fad n dst k m r b m'.
     job (bios m) = Some (req, cmd, fad, n, dst, k) \<longrightarrow> gd_vector E 0 None GD_EXEC m = (r, b, m') \<longrightarrow>
       gds m' = gds m \<and> job (bios m') = job (bios m) \<and>
       progress (gd_tgt cmd dst) (unat n * 2048) m m')"

definition drive_check :: "env \<Rightarrow> (u32 list \<Rightarrow> gd_job option) \<Rightarrow> (nat \<Rightarrow> u8) \<Rightarrow> bool" where
  "drive_check E job disc \<longleftrightarrow> (\<forall>req cmd fad n dst k stat m s b m'.
     job (bios m) = Some (req, cmd, fad, n, dst, k) \<longrightarrow>
     gd_vector E req (Some stat) GD_CHECK m = (s, b, m') \<longrightarrow>
       gds m' = gds m \<and>
       (if k = 0 then sint s = GD_COMPLETED \<and> delivered (gd_tgt cmd dst) (sectors disc fad n) m m'
        else sint s \<in> {0, 1, 3, 4} \<and> job (bios m') = Some (req, cmd, fad, n, dst, k - 1) \<and>
          progress (gd_tgt cmd dst) (unat n * 2048) m m'))"

definition drive_ok :: "env \<Rightarrow> (u32 list \<Rightarrow> gd_job option) \<Rightarrow> (nat \<Rightarrow> u8) \<Rightarrow> bool" where
  "drive_ok E job disc \<longleftrightarrow> drive_send E job \<and> drive_exec E job \<and> drive_check E job disc"

text \<open>Transfers compose.\<close>

lemma agree_store_bytes_mid:
  "agree m0 m \<Longrightarrow> agree (store_bytes a bs m) m1 \<Longrightarrow> agree m1 m2 \<Longrightarrow> agree (store_bytes a bs m0) m2"
  by (meson agree_store_bytes agree_trans)

lemma progress_agree:
  "agree m0 m \<Longrightarrow> progress a l m m1 \<Longrightarrow> agree m1 m2 \<Longrightarrow> progress a l m0 m2"
  unfolding progress_def
  by (elim disjE exE conjE) (blast intro: agree_trans, blast intro: agree_store_bytes_mid)

lemma delivered_agree:
  "agree m0 m \<Longrightarrow> delivered a bs m m1 \<Longrightarrow> agree m1 m2 \<Longrightarrow> delivered a bs m0 m2"
  unfolding delivered_def by (meson agree_store_bytes agree_trans)

lemma progress_trans:
  assumes "span a l" "progress a l m m1" "progress a l m1 m2"
  shows "progress a l m m2"
  using assms(3) unfolding progress_def [of a l m1 m2]
proof (elim disjE exE conjE)
  assume "agree m1 m2"
  with assms(2) show ?thesis using progress_agree agree_refl by blast
next
  fix bs
  assume bs: "length bs = l" "agree (store_bytes a bs m1) m2"
  show ?thesis
    using assms(2) unfolding progress_def [of a l m m1]
  proof (elim disjE exE conjE)
    assume "agree m m1"
    then have "agree (store_bytes a bs m) m2"
      using bs agree_store_bytes agree_trans by blast
    with bs show ?thesis by (auto simp: progress_def)
  next
    fix cs
    assume cs: "length cs = l" "agree (store_bytes a cs m) m1"
    then have "agree (store_bytes a bs (store_bytes a cs m)) m2"
      using bs agree_store_bytes agree_trans by blast
    with bs cs assms(1) show ?thesis by (auto simp: progress_def store_bytes_overwrite)
  qed
qed

lemma progress_delivered:
  assumes "span a l" "length bs = l" "progress a l m m1" "delivered a bs m1 m2"
  shows "delivered a bs m m2"
  using assms(3) unfolding progress_def
proof (elim disjE exE conjE)
  assume "agree m m1"
  with assms(4) show ?thesis using delivered_agree agree_refl by blast
next
  fix cs
  assume cs: "length cs = l" "agree (store_bytes a cs m) m1"
  then have "agree (store_bytes a bs (store_bytes a cs m)) m2"
    using assms(4) unfolding delivered_def using agree_store_bytes agree_trans by blast
  with cs assms(1,2) show ?thesis by (simp add: delivered_def store_bytes_overwrite)
qed

section \<open>The same behaviour through the wrapper\<close>

text \<open>What the caller of a syscall keeps true: with the private stack, a context that can be saved.\<close>

definition call_ok :: "env \<Rightarrow> machine \<Rightarrow> bool" where
  "call_ok E m \<longleftrightarrow> (SHIM_GD_STACK E \<longrightarrow> ctx_ok m)"

lemma pop_all_length: "length (fst (pop_all n acc m)) = n + length acc"
  by (induction n arbitrary: acc m) (simp_all add: pop_def Let_def)

lemma pop_front_eq:
  "pop_front m = m\<lparr>cpu := set_front (fst (pop_all 16 [] m)) ((cpu m)\<lparr>sp := sp (cpu m) + 64\<rparr>)\<rparr>"
  using pop_all_only_sp [of 16 "[]" m] by (simp add: pop_front_def Let_def split_beta)

lemma gdc_exit_ctx:
  assumes "ctx_ok m" "gdc_saved_sp (gds m1) = sp (cpu m) - 4"
  shows "ctx_ok (gdc_exit m1)"
proof -
  have l: "length (fst (pop_all 16 [] m')) = 16" for m'
    by (simp add: pop_all_length)
  have "length (fbank0 (cpu (gdc_restore m'))) = 16 \<and> length (fbank1 (cpu (gdc_restore m'))) = 16" for m'
    by (simp add: gdc_restore_def pop_front_eq pop_def Let_def set_front_def frchg_def lds_fpscr_def l
        del: pop_all.simps)
  moreover have "sp (cpu (gdc_exit m1)) = sp (cpu m)"
    using assms(2) by (simp add: gdc_exit_facts)
  ultimately show ?thesis
    using assms(1) by (simp add: ctx_ok_def stack_ok_def gdc_exit_def)
qed

lemma GDC_cases:
  assumes "call_ok E m" "GDC E c blk f m = (r, b, m')"
  obtains me m1 where "gd_vector E c blk f me = (r, b, m1)" "agree m me" "bios me = bios m"
    "agree m1 m'" "bios m' = bios m1" "gds m1 = gds me \<Longrightarrow> call_ok E m'"
proof (cases "SHIM_GD_STACK E")
  case True
  with assms have "ctx_ok m" "gdc_call E c blk f m = (r, b, m')"
    by (simp_all add: call_ok_def GDC_def)
  moreover obtain r1 b1 m1 where v: "gd_vector E c blk f (gdc_entry m) = (r1, b1, m1)"
    by (metis prod_cases3)
  ultimately have "r1 = r" "b1 = b" "m' = gdc_exit m1"
    by (simp_all add: gdc_call_split)
  moreover have "call_ok E (gdc_exit m1)" if "gds m1 = gds (gdc_entry m)"
    using that gdc_exit_ctx [OF \<open>ctx_ok m\<close>, of m1] gdc_entry_facts [OF \<open>ctx_ok m\<close>]
    by (simp add: call_ok_def)
  ultimately show ?thesis
    using v that [of "gdc_entry m" m1] gdc_entry_facts [OF \<open>ctx_ok m\<close>] gdc_exit_facts [of m1] by simp
next
  case False
  with assms have "gd_vector E c blk f m = (r, b, m')" "\<And>x. call_ok E x"
    by (simp_all add: GDC_def call_ok_def)
  then show ?thesis using that [of m m'] by simp
qed

lemma GDC_send:
  assumes "drive_ok E job disc" "call_ok E m" "gd_req_ok cmd dst n"
    and "GDC E cmd (Some (fad, n, dst, 0)) GD_SEND m = (req, b, m')"
  shows "0 < sint req" "agree m m'" "call_ok E m'"
    "\<exists>k \<le> 1000000. job (bios m') = Some (req, cmd, fad, n, dst, k)"
proof -
  obtain me m1 where g: "gd_vector E cmd (Some (fad, n, dst, 0)) GD_SEND me = (req, b, m1)"
    and a: "agree m me" "agree m1 m'" and b: "bios m' = bios m1" and c: "gds m1 = gds me \<Longrightarrow> call_ok E m'"
    using GDC_cases [OF assms(2,4)] by metis
  have "0 < sint req \<and> gds m1 = gds me \<and> agree me m1 \<and>
      (\<exists>k \<le> 1000000. job (bios m1) = Some (req, cmd, fad, n, dst, k))"
    using assms(1,3) g unfolding drive_ok_def drive_send_def by blast
  then show "0 < sint req" "agree m m'" "call_ok E m'"
    "\<exists>k \<le> 1000000. job (bios m') = Some (req, cmd, fad, n, dst, k)"
    using a b c by (auto intro: agree_trans)
qed

lemma GDC_exec:
  assumes "drive_ok E job disc" "call_ok E m" "job (bios m) = Some (req, cmd, fad, n, dst, k)"
    and "GDC E 0 None GD_EXEC m = (r, b, m')"
  shows "progress (gd_tgt cmd dst) (unat n * 2048) m m'" "call_ok E m'"
    "job (bios m') = Some (req, cmd, fad, n, dst, k)"
proof -
  obtain me m1 where g: "gd_vector E 0 None GD_EXEC me = (r, b, m1)"
    and a: "agree m me" "bios me = bios m" "agree m1 m'" "bios m' = bios m1"
    and c: "gds m1 = gds me \<Longrightarrow> call_ok E m'"
    using GDC_cases [OF assms(2,4)] by metis
  have "job (bios me) = Some (req, cmd, fad, n, dst, k)" using a assms(3) by simp
  with assms(1) g have "gds m1 = gds me \<and> job (bios m1) = job (bios me) \<and>
      progress (gd_tgt cmd dst) (unat n * 2048) me m1"
    unfolding drive_ok_def drive_exec_def by blast
  then show "progress (gd_tgt cmd dst) (unat n * 2048) m m'" "call_ok E m'"
    "job (bios m') = Some (req, cmd, fad, n, dst, k)"
    using a c assms(3) by (auto intro: progress_agree)
qed

lemma GDC_check:
  assumes "drive_ok E job disc" "call_ok E m" "job (bios m) = Some (req, cmd, fad, n, dst, k)"
    and "GDC E req (Some stat) GD_CHECK m = (s, b, m')"
  shows "call_ok E m'"
    and "k = 0 \<Longrightarrow> sint s = GD_COMPLETED \<and> delivered (gd_tgt cmd dst) (sectors disc fad n) m m'"
    and "k \<noteq> 0 \<Longrightarrow> sint s \<in> {0, 1, 3, 4} \<and> job (bios m') = Some (req, cmd, fad, n, dst, k - 1) \<and>
      progress (gd_tgt cmd dst) (unat n * 2048) m m'"
proof -
  obtain me m1 where g: "gd_vector E req (Some stat) GD_CHECK me = (s, b, m1)"
    and a: "agree m me" "bios me = bios m" "agree m1 m'" "bios m' = bios m1"
    and c: "gds m1 = gds me \<Longrightarrow> call_ok E m'"
    using GDC_cases [OF assms(2,4)] by metis
  have "job (bios me) = Some (req, cmd, fad, n, dst, k)" using a assms(3) by simp
  with assms(1) g have "gds m1 = gds me \<and>
       (if k = 0 then sint s = GD_COMPLETED \<and> delivered (gd_tgt cmd dst) (sectors disc fad n) me m1
        else sint s \<in> {0, 1, 3, 4} \<and> job (bios m1) = Some (req, cmd, fad, n, dst, k - 1) \<and>
          progress (gd_tgt cmd dst) (unat n * 2048) me m1)"
    unfolding drive_ok_def drive_check_def by blast
  then show "call_ok E m'"
    and "k = 0 \<Longrightarrow> sint s = GD_COMPLETED \<and> delivered (gd_tgt cmd dst) (sectors disc fad n) m m'"
    and "k \<noteq> 0 \<Longrightarrow> sint s \<in> {0, 1, 3, 4} \<and> job (bios m') = Some (req, cmd, fad, n, dst, k - 1) \<and>
      progress (gd_tgt cmd dst) (unat n * 2048) m m'"
    using a c by (auto intro: progress_agree delivered_agree)
qed

section \<open>The on-screen diagnostics disturb nothing\<close>

lemma GD_DIAG_dev [frame]: "x \<le> 560 \<Longrightarrow> y \<le> 470 \<Longrightarrow> dev_only m (GD_DIAG E x y v m)"
  by (simp add: GD_DIAG_def hex_paint_c_dev_only)

lemma GD_PHASE_dev [frame]: "dev_only m (GD_PHASE E n m)"
  by (simp add: GD_PHASE_def GD_DIAG_dev)

lemma GD_RET_dev [frame]: "dev_only m (GD_RET E n m)"
  by (simp add: GD_RET_def GD_DIAG_dev)

lemma gd_heartbeat_dev [frame]: "dev_only m (gd_heartbeat E guard s m)"
  using GD_DIAG_dev [of 120 120 m E s] GD_DIAG_dev [of 20 134 "GD_DIAG E 120 120 s m" E guard]
  by (auto simp: gd_heartbeat_def intro: dev_only_trans)

lemma dev_only_call:
  assumes "dev_only m m'"
  shows "agree m m'" "bios m' = bios m" "call_ok E m' = call_ok E m"
  using assms by (simp_all add: dev_only_def agree_def scratch_def call_ok_def ctx_ok_def stack_ok_def)

section \<open>A working drive is waited for\<close>

lemma gd_pump_ok:
  assumes "drive_ok E job disc" "gd_req_ok cmd dst n" "call_ok E m"
    and "job (bios m) = Some (req, cmd, fad, n, dst, k)" "gd_pump E req stat m = (s, st, m')"
  shows "call_ok E m'"
    and "k = 0 \<Longrightarrow> sint s = GD_COMPLETED \<and> delivered (gd_tgt cmd dst) (sectors disc fad n) m m'"
    and "k \<noteq> 0 \<Longrightarrow> sint s \<in> {0, 1, 3, 4} \<and> job (bios m') = Some (req, cmd, fad, n, dst, k - 1) \<and>
      progress (gd_tgt cmd dst) (unat n * 2048) m m'"
proof -
  let ?t = "gd_tgt cmd dst" and ?l = "unat n * 2048"
  define m0 where "m0 = GD_PHASE E 2 m"
  obtain r b m1 where ex: "GDC E 0 None GD_EXEC m0 = (r, b, m1)" by (metis prod_cases3)
  define m2 where "m2 = GD_PHASE E 3 (GD_RET E 2 m1)"
  obtain m3 where ck: "GDC E req (Some stat) GD_CHECK m2 = (s, st, m3)" and m': "m' = GD_RET E 3 m3"
    using assms(5) by (auto simp: gd_pump_def ex m0_def [symmetric] m2_def split: prod.splits)
  note d0 = dev_only_call [OF GD_PHASE_dev [of m E 2], folded m0_def]
  have d2: "dev_only m1 m2" unfolding m2_def by (rule dev_only_trans [OF GD_RET_dev GD_PHASE_dev])
  note d2 = dev_only_call [OF d2]
  note d3 = dev_only_call [OF GD_RET_dev [of m3 E 3], folded m']
  have c0: "call_ok E m0" "job (bios m0) = Some (req, cmd, fad, n, dst, k)"
    using d0 assms(3,4) by simp_all
  note e = GDC_exec [OF assms(1) c0 ex]
  have c2: "call_ok E m2" "job (bios m2) = Some (req, cmd, fad, n, dst, k)"
    using d2 e by simp_all
  note c = GDC_check [OF assms(1) c2 ck]
  have sp: "span ?t ?l" using assms(2) by (simp add: gd_req_ok_def)
  have pr: "progress ?t ?l m m2" by (rule progress_agree [OF d0(1) e(1) d2(1)])
  show "call_ok E m'" using c(1) d3 by simp
  show "sint s = GD_COMPLETED \<and> delivered ?t (sectors disc fad n) m m'" if "k = 0"
    using c(2) [OF that] delivered_agree [OF agree_refl _ d3(1)]
      progress_delivered [OF sp length_sectors pr, of disc fad m3] by auto
  show "sint s \<in> {0, 1, 3, 4} \<and> job (bios m') = Some (req, cmd, fad, n, dst, k - 1) \<and> progress ?t ?l m m'"
    if "k \<noteq> 0"
    using c(3) [OF that] d3(2) progress_agree [OF agree_refl progress_trans [OF sp pr] d3(1)] by auto
qed

lemma gd_poll_ok:
  assumes "drive_ok E job disc" "gd_req_ok cmd dst n" "call_ok E m"
    and "job (bios m) = Some (req, cmd, fad, n, dst, k)" "unat guard + k \<le> 1000000"
  shows "\<exists>m1. gd_poll E fin req fad n guard stat m = Ret True (fin m1) \<and> call_ok E m1 \<and>
    delivered (gd_tgt cmd dst) (sectors disc fad n) m m1"
  using assms(3-5)
proof (induction k arbitrary: guard stat m)
  case 0
  obtain s st m1 where pm: "gd_pump E req stat m = (s, st, m1)" by (metis prod_cases3)
  note c = gd_pump_ok [OF assms(1,2) 0(1,2) pm] and h = dev_only_call [OF gd_heartbeat_dev [of m1 E guard s]]
  have "gd_poll E fin req fad n guard stat m = Ret True (fin (gd_heartbeat E guard s m1))"
    using c(2) by (simp add: gd_poll.simps [of E fin req] pm)
  then show ?case using c(1,2) h(1,3) delivered_agree [OF agree_refl] by auto
next
  case (Suc k)
  obtain s st m1 where pm: "gd_pump E req stat m = (s, st, m1)" by (metis prod_cases3)
  let ?m2 = "gd_heartbeat E guard s m1"
  note c = gd_pump_ok [OF assms(1,2) Suc(2,3) pm] and h = dev_only_call [OF gd_heartbeat_dev [of m1 E guard s]]
  have sp: "span (gd_tgt cmd dst) (unat n * 2048)" using assms(2) by (simp add: gd_req_ok_def)
  have g: "unat (guard + 1) = unat guard + 1"
    using Suc(4) unat_add_lt [of guard 1] by simp
  have "\<not> guard > 1000000" "\<not> guard + 1 > 100000000"
    using Suc(4) g by (simp_all add: word_less_nat_alt)
  then have "gd_poll E fin req fad n guard stat m = gd_poll E fin req fad n (guard + 1) st ?m2"
    using c(3) pm
    by (auto simp: gd_poll.simps [of E fin req fad n guard] GD_COMPLETED_def GD_FAILED_def)
  moreover have "\<exists>m3. gd_poll E fin req fad n (guard + 1) st ?m2 = Ret True (fin m3) \<and> call_ok E m3 \<and>
    delivered (gd_tgt cmd dst) (sectors disc fad n) ?m2 m3"
    using Suc(4) g c h by (intro Suc.IH) simp_all
  moreover have "progress (gd_tgt cmd dst) (unat n * 2048) m ?m2"
    using progress_agree [OF agree_refl _ h(1)] c(3) by simp
  ultimately show ?case
    using progress_delivered [OF sp length_sectors] by metis
qed

lemma gd_attempt_ok:
  assumes "drive_ok E job disc" "gd_req_ok cmd dst n" "call_ok E m"
  shows "\<exists>m1. gd_attempt E cmd fin dst fad n m = Ret True (fin m1) \<and> call_ok E m1 \<and>
    delivered (gd_tgt cmd dst) (sectors disc fad n) m m1"
proof -
  define m0 where "m0 = GD_PHASE E 1 (GD_DIAG E 120 134 fad m)"
  obtain req b m1 where sd: "GDC E cmd (Some (fad, n, dst, 0)) GD_SEND m0 = (req, b, m1)"
    by (metis prod_cases3)
  define m2 where "m2 = GD_DIAG E 20 120 req (GD_RET E 1 m1)"
  have "dev_only m m0" "dev_only m1 m2"
    unfolding m0_def m2_def by (rule dev_only_trans [OF GD_DIAG_dev GD_PHASE_dev] dev_only_trans [OF GD_RET_dev GD_DIAG_dev]; simp)+
  note d0 = dev_only_call [OF this(1)] and d2 = dev_only_call [OF this(2)]
  have c0: "call_ok E m0" using d0 assms(3) by simp
  note s = GDC_send [OF assms(1) c0 assms(2) sd]
  then obtain k where k: "k \<le> 1000000" "job (bios m2) = Some (req, cmd, fad, n, dst, k)"
    using d2 by auto
  have c2: "call_ok E m2" using d2 s by simp
  obtain m3 where "gd_poll E fin req fad n 0 (uninit E) m2 = Ret True (fin m3)" "call_ok E m3"
    "delivered (gd_tgt cmd dst) (sectors disc fad n) m2 m3"
    using gd_poll_ok [OF assms(1,2) c2 k(2), of 0 fin "uninit E"] k(1) by auto
  moreover have "agree m m2" using d0 s d2 agree_trans by blast
  ultimately show ?thesis
    using s delivered_agree [OF _ _ agree_refl]
    by (auto simp: gd_attempt_def sd m0_def [symmetric] m2_def [symmetric])
qed

section \<open>Invalidating the data cache\<close>

text \<open>The cache with \<open>k\<close> lines from line \<open>l\<close> on discarded.\<close>

definition drop_lines :: "nat \<Rightarrow> nat \<Rightarrow> machine \<Rightarrow> machine" where
  "drop_lines l k m = m\<lparr>dcache := (\<lambda>q. if l \<le> line q \<and> line q < l + k then None else dcache m q)\<rparr>"

lemma drop_lines_0 [simp]: "drop_lines l 0 m = m"
proof -
  have "(\<lambda>q. if l \<le> line q \<and> line q < l + 0 then None else dcache m q) = dcache m"
    by (rule ext) auto
  then show ?thesis by (simp add: drop_lines_def)
qed

lemma drop_lines_Suc: "drop_lines (Suc l) k (ocbi a m) = drop_lines l (Suc k) m" if "line (bus a) = l"
  using that by (auto simp: drop_lines_def ocbi_def fun_eq_iff)

text \<open>The lines of a range of the cached window: the loop clears the ones that overlap it.\<close>

lemma ocbi_loop_ok:
  assumes "unat a mod 32 = 0" "0x80000000 \<le> unat a" "unat a + 32 * k \<le> 0xa0000000"
    and "unat e \<le> unat a + 32 * k" "0 < k \<Longrightarrow> unat a + 32 * (k - 1) < unat e"
  shows "ocbi_loop a e m = Some (drop_lines (line (bus a)) k m)"
  using assms
proof (induction k arbitrary: a m)
  case 0
  then have "\<not> a < e" by (simp add: word_less_nat_alt)
  then show ?case by (simp add: ocbi_loop.simps)
next
  case (Suc k)
  then have lt: "a < e" by (simp add: word_less_nat_alt)
  have u: "unat (a + 32) = unat a + 32"
    using Suc.prems unat_add_lt [of a 32] by simp
  have d: "unat (bus a) = unat a - 0x80000000"
  proof -
    have "unat a div 536870912 = 4" "unat a mod 536870912 = unat a - 0x80000000"
      using Suc.prems by (simp_all add: div_nat_eqI mod_nat_eqI)
    then show ?thesis by (simp add: unat_bus_div)
  qed
  show ?case
  proof (cases "k = 0")
    case True
    then have "\<not> a + 32 < e"
      using Suc.prems u by (simp add: word_less_nat_alt)
    with lt have "ocbi_loop a e m = Some (ocbi a m)"
      by (simp add: ocbi_loop.simps [of a] ocbi_loop.simps [of "a + 32"])
    also have "ocbi a m = drop_lines (line (bus a)) (Suc k) m"
      using drop_lines_Suc [of a "line (bus a)" 0 m] True by simp
    finally show ?thesis .
  next
    case False
    have "unat (a + 32) div 536870912 = 4" "unat (a + 32) mod 536870912 = unat a + 32 - 0x80000000"
      using Suc.prems u False by (simp_all add: div_nat_eqI mod_nat_eqI)
    then have l: "line (bus (a + 32)) = Suc (line (bus a))"
      using Suc.prems d by (simp add: line_def unat_bus_div) linarith
    have "ocbi_loop (a + 32) e (ocbi a m) = Some (drop_lines (line (bus (a + 32))) k (ocbi a m))"
      using Suc.prems u False by (intro Suc.IH) (auto simp: mod_add_left_eq [symmetric])
    with lt show ?thesis
      by (simp add: ocbi_loop.simps [of a] l drop_lines_Suc)
  qed
qed

lemma p1_alias:
  fixes p :: u32
  assumes "unat p < 0x20000000"
  shows "unat ((p AND 0x1fffffff) OR 0x80000000) = unat p + 0x80000000"
proof -
  have "take_bit 29 p = p"
    using assms by (simp add: word_unat_eq_iff unsigned_take_bit_eq take_bit_nat_eq_self)
  then have p: "p AND 0x1fffffff = p"
    by (simp add: take_bit_eq_mask mask_numeral)
  have "p AND 0x80000000 = (p AND 0x1fffffff) AND 0x80000000"
    by (simp only: p)
  also have "\<dots> = p AND (0x1fffffff AND 0x80000000)"
    by (simp only: and.assoc)
  also have "\<dots> = 0" by simp
  finally have "p AND 0x80000000 = 0" .
  then have "p OR 0x80000000 = p + 0x80000000"
    using word_plus_and_or [of p "0x80000000"] by simp
  with assms show ?thesis
    using unat_add_lt [of p "0x80000000"] by (simp add: p)
qed

lemma unat_and_not31: "unat (a AND NOT 31 :: u32) = unat a - unat a mod 32"
proof -
  have "(a AND 31) AND (a AND NOT 31) = 0" "(a AND 31) OR (a AND NOT 31) = a"
    by (rule bit_eqI, auto simp: bit_simps)+
  then have "(a AND 31) + (a AND NOT 31) = a"
    using word_plus_and_or [of "a AND 31" "a AND NOT 31"] by simp
  then have "a AND NOT 31 = a - (a AND 31)"
    by (metis add_diff_cancel_left')
  moreover have "a AND 31 \<le> a" by (rule word_and_le2)
  ultimately show ?thesis by (simp add: unat_sub unat_and_mask5)
qed

text \<open>\<open>span_lines p len\<close>: how many lines the \<open>len\<close> bytes from \<open>p\<close> on touch, rounded down to whole lines.\<close>

definition lines_of :: "nat \<Rightarrow> nat \<Rightarrow> nat" where
  "lines_of p len = (if len = 0 \<and> p mod 32 = 0 then 0 else (p + len - 1) div 32 + 1 - p div 32)"

lemma lines_of_bounds:
  fixes p len :: nat
  shows "p + len \<le> p div 32 * 32 + 32 * lines_of p len"
    and "0 < lines_of p len \<Longrightarrow> p div 32 * 32 + 32 * (lines_of p len - 1) < p + len"
    and "p + len \<le> 32 * n \<Longrightarrow> p div 32 * 32 + 32 * lines_of p len \<le> 32 * n"
proof -
  define q r t u where "q = p div 32" and "r = p mod 32" and "t = (p + len - 1) div 32"
    and "u = (p + len - 1) mod 32"
  have p: "p = 32 * q + r" "r < 32" and t: "p + len - 1 = 32 * t + u" "u < 32"
    by (simp_all add: q_def r_def t_def u_def)
  have l: "lines_of p len = 0 \<and> len = 0 \<and> r = 0 \<or> lines_of p len = t + 1 - q \<and> q \<le> t \<and> 0 < p + len"
  proof (cases "len = 0 \<and> r = 0")
    case True
    then show ?thesis by (simp add: lines_of_def r_def)
  next
    case False
    then have "32 * q \<le> p + len - 1" "0 < p + len" using p by auto
    then show ?thesis using False t by (auto simp: lines_of_def q_def r_def t_def)
  qed
  from l show "p + len \<le> p div 32 * 32 + 32 * lines_of p len"
    "0 < lines_of p len \<Longrightarrow> p div 32 * 32 + 32 * (lines_of p len - 1) < p + len"
    using p t unfolding q_def [symmetric] by auto
  assume n: "p + len \<le> 32 * n"
  show "p div 32 * 32 + 32 * lines_of p len \<le> 32 * n"
    using l
  proof
    assume "lines_of p len = t + 1 - q \<and> q \<le> t \<and> 0 < p + len"
    moreover from this have "t + 1 \<le> n" using t n by linarith
    ultimately show ?thesis unfolding q_def [symmetric] by auto
  qed (use p n in \<open>auto simp: q_def [symmetric]\<close>)
qed

lemma dcache_inval_ok:
  assumes "unat p < 0x20000000" "unat p + unat len \<le> 0x20000000"
  shows "dcache_inval p len m = Ret () (drop_lines (unat p div 32) (lines_of (unat p) (unat len)) m)"
proof -
  define a where "a = (p AND 0x1fffffff) OR 0x80000000"
  define e where "e = a + len"
  define c where "c = a AND NOT 31"
  define k where "k = lines_of (unat p) (unat len)"
  have ua: "unat a = unat p + 0x80000000"
    unfolding a_def using assms(1) by (rule p1_alias)
  have ue: "unat e = unat a + unat len"
    unfolding e_def using assms ua by (intro unat_add_lt) simp
  have uc: "unat c = unat a - unat a mod 32"
    unfolding c_def by (rule unat_and_not31)
  have dm: "unat p = unat p div 32 * 32 + unat p mod 32"
    by simp
  have "unat a mod 32 = unat p mod 32"
    using mod_mult_self2 [of "unat p" 32 67108864] by (simp add: ua)
  then have c0: "unat c = 0x80000000 + unat p div 32 * 32"
    using uc ua dm by linarith
  have b: "line (bus c) = unat p div 32"
  proof -
    have "unat p div 32 * 32 < 0x20000000" using assms(1) dm by linarith
    then have "unat c div 536870912 = 4" "unat c mod 536870912 = unat p div 32 * 32"
      unfolding c0 by (simp_all add: div_nat_eqI mod_nat_eqI)
    then have "unat (bus c) = unat p div 32 * 32"
      by (simp add: unat_bus_div)
    then show ?thesis by (simp add: line_def)
  qed
  have "ocbi_loop c e m = Some (drop_lines (line (bus c)) k m)"
  proof (rule ocbi_loop_ok)
    show "unat c mod 32 = 0" "0x80000000 \<le> unat c"
      unfolding c0 by (simp_all add: mod_add_eq [symmetric, of "0x80000000"])
    have k: "unat p + unat len \<le> unat p div 32 * 32 + 32 * k"
      "0 < k \<Longrightarrow> unat p div 32 * 32 + 32 * (k - 1) < unat p + unat len"
      "unat p div 32 * 32 + 32 * k \<le> 0x20000000"
      using lines_of_bounds(1,2) [of "unat p" "unat len"]
        lines_of_bounds(3) [of "unat p" "unat len" 16777216] assms by (simp_all add: k_def)
    show "unat c + 32 * k \<le> 0xa0000000" "unat e \<le> unat c + 32 * k"
      "0 < k \<Longrightarrow> unat c + 32 * (k - 1) < unat e"
      using k unfolding c0 ue ua by linarith+
  qed
  then show ?thesis
    unfolding dcache_inval_def Let_def a_def [symmetric] e_def [symmetric] c_def [symmetric]
    by (simp add: b k_def)
qed

section \<open>What a read leaves in memory\<close>

text \<open>The sector buffer of the shim.\<close>

definition bounce :: "u32 \<Rightarrow> bool" where
  "bounce q \<longleftrightarrow> 0x0cfca000 \<le> unat q \<and> unat q < 0x0cfca800"

text \<open>
  \<open>landed d bs m m'\<close>: from \<open>m\<close> to \<open>m'\<close> the bytes \<open>bs\<close> have arrived in main memory at physical
  address \<open>d\<close>, where an uncached load sees them; the sector buffer and the scratch area may have
  changed, and nothing else has.
\<close>

definition landed :: "nat \<Rightarrow> u8 list \<Rightarrow> machine \<Rightarrow> machine \<Rightarrow> bool" where
  "landed d bs m m' \<longleftrightarrow>
     (\<forall>q. \<not> scratch q \<longrightarrow> \<not> bounce q \<longrightarrow>
        ram m' q = (if d \<le> unat q \<and> unat q < d + length bs then bs ! (unat q - d) else ram m q) \<and>
        (\<not> (d \<le> unat q \<and> unat q < d + length bs) \<longrightarrow> dcache m' q = dcache m q)) \<and>
     cartd m' = cartd m \<and> gdd m' = gdd m \<and> mapled m' = mapled m \<and> utild m' = utild m \<and> maind m' = maind m"

lemma landed_agree: "landed d bs m m1 \<Longrightarrow> agree m1 m2 \<Longrightarrow> landed d bs m m2"
  by (simp add: landed_def agree_def)

lemma agree_landed: "agree m m1 \<Longrightarrow> landed d bs m1 m2 \<Longrightarrow> landed d bs m m2"
  by (simp add: landed_def agree_def)

lemma landed_Nil [simp]: "landed d [] m m"
  by (auto simp: landed_def)

lemma landed_append:
  assumes "landed d bs m m1" "landed (d + length bs) cs m1 m2"
  shows "landed d (bs @ cs) m m2"
  using assms unfolding landed_def by (auto simp: nth_append)

text \<open>A PIO read into uncached memory, a DMA read after the lines have been dropped, and a PIO read
  into the cached sector buffer.\<close>

lemma landed_uncached:
  assumes "delivered a bs m m'" "\<not> cached a" "span a (length bs)"
  shows "landed (unat (bus a)) bs m m'"
  using assms(1) store_bytes_uncached [OF assms(2,3)]
  unfolding delivered_def agree_def landed_def by auto

lemma landed_drop_lines:
  assumes "landed (32 * l) bs (drop_lines l k m) m'" "length bs = 32 * k"
  shows "landed (32 * l) bs m m'"
proof -
  have "\<not> (l \<le> line q \<and> line q < l + k)" if "\<not> (32 * l \<le> unat q \<and> unat q < 32 * l + length bs)" for q
    using that assms(2) unfolding line_def
    by (metis add_mult_distrib2 div_less_iff_less_mult less_eq_div_iff_mult_less_eq mult.commute zero_less_numeral)
  then show ?thesis
    using assms(1) unfolding landed_def drop_lines_def by auto
qed

lemma landed_bounce:
  assumes "delivered SHIM_BOUNCE bs m m'" "length bs = 2048"
  shows "landed d [] m m'" "i < 2048 \<Longrightarrow> ld8 (SHIM_BOUNCE + word_of_nat i) m' = bs ! i"
proof -
  have b: "cached SHIM_BOUNCE" "span SHIM_BOUNCE 2048" "unat (bus SHIM_BOUNCE) = 0x0cfca000"
    by (simp_all add: src_consts cached_def span_def bus_def)
  have "line q < line (bus SHIM_BOUNCE) \<or> (unat (bus SHIM_BOUNCE) + 2048 - 1) div 32 < line q"
    if "\<not> bounce q" for q
    using that b(3) by (auto simp: bounce_def line_def)
  then show "landed d [] m m'"
    using assms store_bytes_cached [OF b(1), where bs = bs and m = m] b
    unfolding delivered_def agree_def landed_def by auto
  show "ld8 (SHIM_BOUNCE + word_of_nat i) m' = bs ! i" if "i < 2048"
  proof -
    have u: "unat (bus (SHIM_BOUNCE + word_of_nat i)) = 0x0cfca000 + i"
      using span_bus [OF b(2) that] b(3) by simp
    then have "ld8 (SHIM_BOUNCE + word_of_nat i) m' = ld8 (SHIM_BOUNCE + word_of_nat i) (store_bytes SHIM_BOUNCE bs m)"
      using assms that by (intro agree_ld8) (auto simp: delivered_def scratch_def)
    then show ?thesis
      using mem.stores_nth [where a = SHIM_BOUNCE and bs = bs and i = i and m = m] b(2) assms(2) that by simp
  qed
qed

section \<open>The read routines on a working drive\<close>

lemma gd_read_sectors_ok:
  assumes "drive_ok E job disc" "gd_req_ok CMD_PIOREAD dst n" "call_ok E m"
  shows "\<exists>m1. gd_read_sectors E dst fad n m = Ret 0 m1 \<and> call_ok E m1 \<and>
    delivered dst (sectors disc fad n) m m1"
proof -
  have "CMD_PIOREAD \<noteq> CMD_DMAREAD" by (simp add: src_consts)
  then show ?thesis
    using gd_attempt_ok [OF assms, where fin = id and fad = fad] by (auto simp: gd_read_sectors_def gd_tgt_def)
qed

lemma agree_irq_mask: "agree m (gd_irq_mask m)"
proof -
  have "scratch_block 0xa05f6910 4" "scratch_block 0xa05f6920 4" "scratch_block 0xa05f6930 4"
    by (simp_all add: scratch_block_def span_def bus_def)
  then show ?thesis
    unfolding gd_irq_mask_def Let_def by (meson agree_reg_w agree_trans)
qed

lemma agree_dma_ack: "agree m (gd_dma_ack m)"
  unfolding gd_dma_ack_def
  by (rule agree_reg_w) (simp add: src_consts scratch_block_def span_def bus_def)

lemma call_ok_cpu: "cpu m' = cpu m \<Longrightarrow> call_ok E m' = call_ok E m"
  by (simp add: call_ok_def ctx_ok_def stack_ok_def)

lemma gd_read_sectors_dma_ok:
  assumes "drive_ok E job disc" "call_ok E m" "unat p mod 32 = 0" "0x0c010000 \<le> unat p"
    and "unat p + unat n * 2048 \<le> 0x0cfd4000"
  shows "\<exists>m1. gd_read_sectors_dma E p fad n m = Ret 0 m1 \<and> call_ok E m1 \<and>
    landed (unat p) (sectors disc fad n) m m1 \<and>
    (\<forall>q. unat p \<le> unat q \<and> unat q < unat p + unat n * 2048 \<longrightarrow> dcache m1 q = None)"
proof -
  let ?l = "unat n * 2048"
  have p: "p AND 0x1fffffff = p"
    using assms(5) by (simp add: word_unat_eq_iff unat_and_mask29)
  have a: "unat (P2ADDR p) = unat p + 0xa0000000"
    using assms(5) unat_P2ADDR_phys [of p] by simp
  then have "unat (P2ADDR p) div 536870912 = 5" "unat (P2ADDR p) mod 536870912 = unat p"
    using assms(5) by (simp_all add: div_nat_eqI mod_nat_eqI)
  then have b: "unat (bus (P2ADDR p)) = unat p" "span (P2ADDR p) ?l" "\<not> cached (P2ADDR p)"
    using assms(5) by (simp_all add: unat_bus_div span_def cached_div)
  then have rq: "gd_req_ok CMD_DMAREAD p n"
    using assms(3-5) by (simp add: gd_req_ok_def gd_tgt_def)
  have len: "unat (n * 2048) = ?l"
    using assms(5) by (simp add: unat_word_ariths)
  obtain q where q: "unat p = 32 * q" using assms(3) by (metis mod_0_imp_dvd dvdE)
  have lo: "lines_of (unat p) ?l = unat n * 64"
    unfolding lines_of_def q by (cases "unat n") auto
  let ?m0 = "gd_irq_mask m"
  let ?m1 = "drop_lines q (unat n * 64) ?m0"
  have iv: "dcache_inval p (n * 2048) ?m0 = Ret () ?m1"
    using dcache_inval_ok [of p "n * 2048" ?m0] assms(5) len lo q by simp
  have c1: "call_ok E ?m1"
    using assms(2) call_ok_cpu [of ?m1 m E] by (simp add: drop_lines_def gd_irq_mask_def Let_def)
  obtain m2 where m2: "gd_attempt E CMD_DMAREAD gd_dma_ack p fad n ?m1 = Ret True (gd_dma_ack m2)"
    "call_ok E m2" "delivered (gd_tgt CMD_DMAREAD p) (sectors disc fad n) ?m1 m2"
    using gd_attempt_ok [OF assms(1) rq c1] by blast
  then have "landed (32 * q) (sectors disc fad n) ?m1 m2"
    using landed_uncached [of "P2ADDR p" "sectors disc fad n" ?m1 m2] b q by (simp add: gd_tgt_def)
  then have "landed (32 * q) (sectors disc fad n) ?m0 m2"
    by (rule landed_drop_lines) simp
  then have "landed (unat p) (sectors disc fad n) m (gd_dma_ack m2)"
    using q agree_irq_mask agree_dma_ack by (metis agree_landed landed_agree)
  moreover have "dcache (gd_dma_ack m2) x = None"
    if "unat p \<le> unat x \<and> unat x < unat p + unat n * 2048" for x
  proof -
    have ns: "\<not> scratch x" using that assms(4,5) by (simp add: scratch_def)
    have "q \<le> line x \<and> line x < q + unat n * 64"
      using that q unfolding line_def by auto
    then have "dcache (store_bytes (P2ADDR p) (sectors disc fad n) ?m1) x = None"
      using b by (simp add: store_bytes_uncached drop_lines_def)
    moreover have "agree (store_bytes (P2ADDR p) (sectors disc fad n) ?m1) (gd_dma_ack m2)"
      using m2(3) agree_trans [OF _ agree_dma_ack] by (simp add: delivered_def gd_tgt_def)
    ultimately show ?thesis using ns by (simp add: agree_def)
  qed
  moreover have "call_ok E (gd_dma_ack m2)"
    using m2(2) call_ok_cpu [of "gd_dma_ack m2" m2 E] by (simp add: gd_dma_ack_def)
  ultimately show ?thesis
    using m2(1) iv by (simp add: gd_read_sectors_dma_def p)
qed

text \<open>The cached view after a DMA read: every line of the buffer was dropped, so loads reach memory.\<close>

lemma landed_cached_view:
  assumes "landed (unat p) bs m m'" "\<And>q. unat p \<le> unat q \<and> unat q < unat p + length bs \<Longrightarrow> dcache m' q = None"
    and "0x0c010000 \<le> unat p" "unat p + length bs \<le> 0x0cfc0000"
  shows "load_bytes (p OR 0x80000000) (length bs) m' = bs"
proof (rule nth_equalityI)
  have "p AND 0x1fffffff = p"
    using assms(4) by (simp add: word_unat_eq_iff unat_and_mask29)
  then have u: "unat (p OR 0x80000000) = unat p + 0x80000000"
    using p1_alias [of p] assms(4) by simp
  fix i
  assume "i < length (load_bytes (p OR 0x80000000) (length bs) m')"
  then have i: "i < length bs" by simp
  let ?a = "p OR 0x80000000 + word_of_nat i"
  have "span (p OR 0x80000000) (length bs)" "unat (bus (p OR 0x80000000)) = unat p"
    using p1_block [of "p OR 0x80000000" "length bs"] u assms(3,4) by simp_all
  then have "unat (bus ((p OR 0x80000000) + word_of_nat i)) = unat p + i"
    using span_bus [OF _ i] by simp
  then show "load_bytes (p OR 0x80000000) (length bs) m' ! i = bs ! i"
    using assms i by (simp add: nth_load_bytes ld8_def landed_def scratch_def bounce_def)
qed simp

lemma gd_dma_fresh:
  assumes "drive_ok E job disc" "call_ok E m" "unat p mod 32 = 0" "0x0c010000 \<le> unat p"
    and "unat p + unat n * 2048 \<le> 0x0cfc0000"
  shows "\<exists>m1. gd_read_sectors_dma E p fad n m = Ret 0 m1 \<and>
    landed (unat p) (sectors disc fad n) m m1 \<and>
    load_bytes (p OR 0x80000000) (unat n * 2048) m1 = sectors disc fad n"
proof -
  obtain m1 where m1: "gd_read_sectors_dma E p fad n m = Ret 0 m1" "landed (unat p) (sectors disc fad n) m m1"
    "\<And>q. unat p \<le> unat q \<and> unat q < unat p + unat n * 2048 \<Longrightarrow> dcache m1 q = None"
    using gd_read_sectors_dma_ok [OF assms(1-4), where n = n and fad = fad] assms(5) by auto
  then have "load_bytes (p OR 0x80000000) (length (sectors disc fad n)) m1 = sectors disc fad n"
    using assms(4,5) by (intro landed_cached_view) auto
  with m1 show ?thesis by auto
qed

end
