(* ===== verification/Gd_Retry.thy ===== *)
theory Gd_Retry
  imports Gd_Lemmas
begin

text \<open>
  How the read routines of \<^verbatim>\<open>gd.c\<close> end for an arbitrary drive: the three outcomes, the retry
  structure as a step relation, and the drive that refuses every command.
\<close>

section \<open>Every read ends, in one of three ways\<close>

lemma shim_die_Die: "\<exists>m1. shim_die E c a b m = Die c a b m1"
  by (simp add: shim_die_def Let_def)

definition poll_end :: "u32 \<Rightarrow> u32 \<Rightarrow> 'a outcome \<Rightarrow> bool" where
  "poll_end a b r \<longleftrightarrow> (\<exists>v m1. r = Ret v m1) \<or> (\<exists>m1. r = Die 5 a b m1)"

lemma poll_end_Ret [simp]: "poll_end a b (Ret v m)"
  by (simp add: poll_end_def)

lemma poll_end_die [simp]: "poll_end a b (shim_die E 5 a b m)"
  using shim_die_Die [of E 5 a b m] by (auto simp: poll_end_def)

lemma gd_poll_end: "poll_end fad n (gd_poll E fin req fad n guard stat m)"
proof (induction E fin req fad n guard stat m rule: gd_poll.induct)
  case (1 E fin req fad n guard stat m)
  obtain s st m1 where pm: "gd_pump E req stat m = (s, st, m1)" by (metis prod_cases3)
  show ?case
    using 1 [OF pm [symmetric] refl refl] by (subst gd_poll.simps) (simp add: pm Let_def)
qed

lemma gd_init_poll_end: "poll_end 0xdead1217 0 (gd_init_poll E req guard stat m)"
proof (induction E req guard stat m rule: gd_init_poll.induct)
  case (1 E req guard stat m)
  obtain s st m1 where pm: "gd_init_pump E req stat m = (s, st, m1)" by (metis prod_cases3)
  show ?case
    using 1 [OF pm [symmetric] refl] by (subst gd_init_poll.simps) (simp add: pm)
qed

lemma gd_recover_end: "poll_end 0xdead1217 0 (gd_recover E m)"
proof -
  have *: "poll_end 0xdead1217 0 (gd_init_drive E m')" for m'
    by (simp add: gd_init_drive_def gd_init_poll_end Let_def split: prod.split)
  show ?thesis
    using * [of "gd_sys_reinit E m"]
    by (auto simp: gd_recover_def poll_end_def)
qed

lemma gd_attempt_end: "poll_end fad n (gd_attempt E cmd fin dst fad n m)"
  by (simp add: gd_attempt_def gd_poll_end Let_def split: prod.split)

text \<open>The ways a whole read may end.\<close>

definition read_end :: "u32 \<Rightarrow> u32 \<Rightarrow> u32 outcome \<Rightarrow> bool" where
  "read_end fad n r \<longleftrightarrow> (\<exists>m1. r = Ret 0 m1) \<or> (\<exists>m1. r = Ret (- 2) m1) \<or> (\<exists>m1. r = Die 5 fad n m1)
     \<or> (\<exists>m1. r = Die 5 0xdead1217 0 m1)"

lemma read_end_simps [simp]:
  "read_end fad n (Ret 0 m)" "read_end fad n (Ret (- 2) m)" "read_end fad n (Die 5 fad n m)"
  "read_end fad n (Die 5 0xdead1217 0 m)"
  by (auto simp: read_end_def)

lemma read_end_recover:
  "(\<And>m1. read_end fad n (f m1)) \<Longrightarrow>
    read_end fad n (bindo (if attempt \<noteq> (0 :: u32) then gd_recover E m else Ret () m) (\<lambda>u m1. f m1))"
  using gd_recover_end [of E m] by (auto simp: poll_end_def)

lemma read_end_attempt:
  "(\<And>m2. read_end fad n (f m2)) \<Longrightarrow>
    read_end fad n (bindo (gd_attempt E cmd fin dst fad n m) (\<lambda>ok m2. if ok then Ret 0 m2 else f m2))"
  using gd_attempt_end [of fad n E cmd fin dst m] by (auto simp: poll_end_def)

lemma gd_pio_loop_end: "read_end fad n (gd_pio_loop E as dst fad n m)"
  by (induction as arbitrary: m) (simp_all only: gd_pio_loop.simps read_end_simps read_end_recover read_end_attempt)

lemma gd_dma_loop_end:
  assumes "unat p < 0x20000000" "unat p + unat (n * 2048) \<le> 0x20000000"
  shows "read_end fad n (gd_dma_loop E as p fad n m)"
  by (induction as arbitrary: m)
    (simp_all add: read_end_recover read_end_attempt dcache_inval_ok [OF assms] del: if_split)

section \<open>The retry loop as a relation\<close>

text \<open>\<open>failed E dst fad n k m m'\<close>: \<open>k\<close> attempts in a row have failed, with a recovery before each but
  the first.\<close>

inductive failed :: "env \<Rightarrow> u32 \<Rightarrow> u32 \<Rightarrow> u32 \<Rightarrow> nat \<Rightarrow> machine \<Rightarrow> machine \<Rightarrow> bool"
  for E dst fad n where
  first: "gd_attempt E CMD_PIOREAD id dst fad n m = Ret False m' \<Longrightarrow> failed E dst fad n 1 m m'"
| again: "failed E dst fad n k m m1 \<Longrightarrow> gd_recover E m1 = Ret () m2 \<Longrightarrow>
    gd_attempt E CMD_PIOREAD id dst fad n m2 = Ret False m' \<Longrightarrow> failed E dst fad n (Suc k) m m'"

inductive_cases failed_SucE: "failed E dst fad n (Suc k) m m'"
inductive_simps failed_0: "failed E dst fad n 0 m m'"

text \<open>\<open>tried E dst fad n k m m'\<close>: \<open>m'\<close> is the machine the attempt number \<open>k\<close> (from 0) starts on.\<close>

definition tried :: "env \<Rightarrow> u32 \<Rightarrow> u32 \<Rightarrow> u32 \<Rightarrow> nat \<Rightarrow> machine \<Rightarrow> machine \<Rightarrow> bool" where
  "tried E dst fad n k m m' \<longleftrightarrow>
     (if k = 0 then m' = m else \<exists>m1. failed E dst fad n k m m1 \<and> gd_recover E m1 = Ret () m')"

lemma failed_tried:
  "failed E dst fad n (Suc k) m m' \<longleftrightarrow>
    (\<exists>m1. tried E dst fad n k m m1 \<and> gd_attempt E CMD_PIOREAD id dst fad n m1 = Ret False m')"
proof
  assume "failed E dst fad n (Suc k) m m'"
  then show "\<exists>m1. tried E dst fad n k m m1 \<and> gd_attempt E CMD_PIOREAD id dst fad n m1 = Ret False m'"
    by (cases rule: failed_SucE) (auto simp: tried_def failed_0)
next
  assume "\<exists>m1. tried E dst fad n k m m1 \<and> gd_attempt E CMD_PIOREAD id dst fad n m1 = Ret False m'"
  then show "failed E dst fad n (Suc k) m m'"
    using failed.first [of E dst fad n m m'] failed.again [of E dst fad n k m]
    by (auto simp: tried_def split: if_splits)
qed

text \<open>The attempts still to make after \<open>k\<close> of the four.\<close>

definition rest_of :: "nat \<Rightarrow> u32 list" where
  "rest_of k = drop k [0, 1, 2, 3]"

lemma rest_of_step: "k < 4 \<Longrightarrow> rest_of k = word_of_nat k # rest_of (Suc k)"
  by (auto simp: rest_of_def less_Suc_eq numeral_eq_Suc)

lemma rest_of_end: "rest_of 4 = []" "rest_of 0 = [0, 1, 2, 3]"
  by (simp_all add: rest_of_def)

lemma word_of_nat_0_iff: "k < 4 \<Longrightarrow> (word_of_nat k :: u32) = 0 \<longleftrightarrow> k = 0"
  using unat_of_nat_u32 [of k] by (simp add: unat_eq_0 [symmetric])

lemma failed_pos: "failed E dst fad n k m m' \<Longrightarrow> 0 < k"
  by (induction rule: failed.induct) auto

lemma failed_loop:
  "failed E dst fad n k m m1 \<Longrightarrow> k \<le> 4 \<Longrightarrow>
    gd_pio_loop E (rest_of 0) dst fad n m = gd_pio_loop E (rest_of k) dst fad n m1"
proof (induction rule: failed.induct)
  case (first m m')
  then show ?case by (simp add: rest_of_step [of 0])
next
  case (again k m m1 m2 m')
  have "0 < k" using failed_pos again.hyps(1) .
  then show ?case
    using again by (simp add: rest_of_step [of k] word_of_nat_0_iff)
qed

lemma tried_loop:
  assumes "tried E dst fad n k m m1" "k < 4"
  shows "gd_pio_loop E (rest_of 0) dst fad n m = bindo (gd_attempt E CMD_PIOREAD id dst fad n m1)
    (\<lambda>ok m2. if ok then Ret 0 m2 else gd_pio_loop E (rest_of (Suc k)) dst fad n m2)"
proof (cases "k = 0")
  case True
  with assms(1) have "m1 = m" by (simp add: tried_def)
  then show ?thesis unfolding True by (simp add: rest_of_step [of 0])
next
  case False
  with assms obtain m0 where "failed E dst fad n k m m0" "gd_recover E m0 = Ret () m1"
    by (auto simp: tried_def)
  with False assms(2) failed_loop [of E dst fad n k m m0] show ?thesis
    by (simp add: rest_of_step [of k] word_of_nat_0_iff)
qed

text \<open>What the loop returns after \<open>k\<close> failures.\<close>

lemma loop_returns:
  "k \<le> 4 \<Longrightarrow> (if k = 0 then m1 = m else failed E dst fad n k m m1) \<Longrightarrow>
    gd_pio_loop E (rest_of k) dst fad n m1 = Ret r m' \<Longrightarrow>
    (r = - 2 \<and> failed E dst fad n 4 m m') \<or>
    (r = 0 \<and> (\<exists>j < 4. \<exists>m2. tried E dst fad n j m m2 \<and> gd_attempt E CMD_PIOREAD id dst fad n m2 = Ret True m'))"
proof (induction "4 - k" arbitrary: k m1)
  case 0
  then show ?case by (auto simp: rest_of_end)
next
  case (Suc j)
  then have k: "k < 4" by simp
  obtain m2 where m2: "tried E dst fad n k m m2" and l: "bindo (gd_attempt E CMD_PIOREAD id dst fad n m2)
    (\<lambda>ok m3. if ok then Ret 0 m3 else gd_pio_loop E (rest_of (Suc k)) dst fad n m3) = Ret r m'"
  proof (cases "k = 0")
    case True
    then show ?thesis
      using that [of m1] Suc.prems unfolding True by (simp add: rest_of_step [of 0] tried_def)
  next
    case False
    then obtain m2 where "gd_recover E m1 = Ret () m2"
      using Suc.prems(3) k by (auto simp: rest_of_step [of k] word_of_nat_0_iff bindo_eq_Ret)
    then show ?thesis
      using that [of m2] Suc.prems k False by (auto simp: rest_of_step [of k] word_of_nat_0_iff tried_def)
  qed
  then obtain ok m3 where at: "gd_attempt E CMD_PIOREAD id dst fad n m2 = Ret ok m3"
    by (auto simp: bindo_eq_Ret)
  show ?case
  proof (cases ok)
    case True
    with at l m2 k show ?thesis by auto
  next
    case False
    then have "failed E dst fad n (Suc k) m m3"
      using at m2 by (auto simp: failed_tried)
    then show ?thesis
      using Suc.hyps(1) [of "Suc k" m3] Suc.hyps(2) k l at False by simp
  qed
qed

lemma read_sectors_Ret:
  "gd_read_sectors E dst fad n m = Ret 0 m' \<longleftrightarrow>
    (\<exists>j < 4. \<exists>m1. tried E dst fad n j m m1 \<and> gd_attempt E CMD_PIOREAD id dst fad n m1 = Ret True m')"
  "gd_read_sectors E dst fad n m = Ret (- 2) m' \<longleftrightarrow> failed E dst fad n 4 m m'"
proof -
  have eq: "gd_read_sectors E dst fad n m = gd_pio_loop E (rest_of 0) dst fad n m"
    by (simp add: gd_read_sectors_def rest_of_end)
  have ne: "(0 :: u32) \<noteq> - 2" by simp
  show "gd_read_sectors E dst fad n m = Ret 0 m' \<longleftrightarrow>
    (\<exists>j < 4. \<exists>m1. tried E dst fad n j m m1 \<and> gd_attempt E CMD_PIOREAD id dst fad n m1 = Ret True m')"
    using loop_returns [of 0 m m E dst fad n 0 m'] tried_loop [of E dst fad n] ne
    unfolding eq by auto
  show "gd_read_sectors E dst fad n m = Ret (- 2) m' \<longleftrightarrow> failed E dst fad n 4 m m'"
    using loop_returns [of 0 m m E dst fad n "- 2" m'] failed_loop [of E dst fad n 4 m m'] ne
    unfolding eq by (auto simp: rest_of_end)
qed

section \<open>A drive that refuses every command\<close>

definition refuses :: "env \<Rightarrow> bool" where
  "refuses E \<longleftrightarrow> (\<forall>c blk m req b m'. gd_vector E c blk GD_SEND m = (req, b, m') \<longrightarrow> sint req \<le> 0)"

lemma GDC_refused:
  assumes "refuses E" "GDC E c blk GD_SEND m = (req, b, m')"
  shows "sint req \<le> 0"
proof -
  have "\<exists>m1 m2. gd_vector E c blk GD_SEND m1 = (req, b, m2)"
    using assms(2) by (auto simp: GDC_def gdc_call_def Let_def split: if_splits prod.splits)
  with assms(1) show ?thesis unfolding refuses_def by blast
qed

lemma refused_attempt:
  assumes "refuses E"
  shows "\<exists>m1. gd_attempt E cmd fin dst fad n m = Ret False m1 \<and> gd_last_err (gdd m1) = 0xcafe0002"
proof -
  obtain req b m1 where sd: "GDC E cmd (Some (fad, n, dst, 0)) GD_SEND
      (GD_PHASE E 1 (GD_DIAG E 120 134 fad m)) = (req, b, m1)"
    by (metis prod_cases3)
  with GDC_refused [OF assms sd] show ?thesis
    by (simp add: gd_attempt_def set_last_err_def Let_def)
qed

lemma refused_recover:
  assumes "refuses E"
  shows "\<exists>m1. gd_recover E m = Ret () m1"
proof -
  have "\<exists>m2. gd_init_drive E m' = Ret () m2" for m'
    using GDC_refused [OF assms] by (auto simp: gd_init_drive_def Let_def split: prod.split)
  from this [of "gd_sys_reinit E m"] show ?thesis by (auto simp: gd_recover_def)
qed

lemma refused_loop:
  assumes "refuses E" "as \<noteq> []"
  shows "\<exists>m1. gd_pio_loop E as dst fad n m = Ret (- 2) m1 \<and> gd_last_err (gdd m1) = 0xcafe0002"
  using assms(2)
proof (induction as arbitrary: m)
  case Nil
  then show ?case by simp
next
  case (Cons a as)
  obtain m1 where r: "(if a \<noteq> 0 then gd_recover E m else Ret () m) = Ret () m1"
    using refused_recover [OF assms(1), of m] by (cases "a = 0") auto
  obtain m2 where a: "gd_attempt E CMD_PIOREAD id dst fad n m1 = Ret False m2" "gd_last_err (gdd m2) = 0xcafe0002"
    using refused_attempt [OF assms(1)] by blast
  show ?case
    using r a Cons.IH [of m2] by (cases "as = []") simp_all
qed

section \<open>Which codes a routine can die with\<close>

definition die_codes :: "u32 set \<Rightarrow> 'a outcome \<Rightarrow> bool" where
  "die_codes S r \<longleftrightarrow> (\<forall>c a b m. r = Die c a b m \<longrightarrow> c \<in> S)"

lemma die_codes_simps [simp]: "die_codes S (Ret v m)" "die_codes S Hang" "die_codes S (Reboot m)"
  by (simp_all add: die_codes_def)

lemma die_codes_die [simp]: "c \<in> S \<Longrightarrow> die_codes S (shim_die E c a b m)"
  by (auto simp: die_codes_def shim_die_def Let_def)

lemma die_codes_bindo: "die_codes S r \<Longrightarrow> (\<And>v m. die_codes S (f v m)) \<Longrightarrow> die_codes S (bindo r f)"
  by (cases r) (auto simp: die_codes_def)

end
