(* ===== verification/Cart_Lemmas.thy ===== *)
theory Cart_Lemmas
  imports Cart Gd_Retry Paint
begin

text \<open>
  What \<^verbatim>\<open>cart.c\<close> guarantees on a working drive. The cartridge reader uses two routines of \<^verbatim>\<open>gd.c\<close>,
  by PIO and by DMA, through one contract, the locale \<open>sector_reader\<close>.
\<close>

section \<open>The contract of a sector reader\<close>

text \<open>
  \<open>rd w dst fad n m\<close> reads \<open>n\<close> cartridge sectors from \<open>fad\<close> on to \<open>dst\<close>; \<open>w\<close> is the world it runs in,
  \<open>good\<close> what it needs of and keeps true for the machine, \<open>okd\<close> which destinations it takes, \<open>phys\<close>
  where they are in memory and \<open>cart\<close> the bytes of the cartridge.
\<close>

locale sector_reader =
  fixes rd :: "'w \<Rightarrow> u32 \<Rightarrow> u32 \<Rightarrow> u32 \<Rightarrow> machine \<Rightarrow> unit outcome"
    and good :: "'w \<Rightarrow> machine \<Rightarrow> bool" and okf :: "'w \<Rightarrow> u32 \<Rightarrow> bool"
    and okd :: "u32 \<Rightarrow> nat \<Rightarrow> bool" and phys :: "u32 \<Rightarrow> nat"
    and cart :: "'w \<Rightarrow> nat \<Rightarrow> u8"
  assumes rd_lands: "good w m \<Longrightarrow> okf w fad \<Longrightarrow> okd dst (unat n * 2048) \<Longrightarrow>
    \<exists>m1. rd w dst fad n m = Ret () m1 \<and> good w m1 \<and>
      landed (phys dst) (chunk (cart w) (unat fad) 0 (unat n * 2048)) m m1"
begin

text \<open>A read that continues what has already landed.\<close>

lemma rd_continues:
  assumes "good w m1" "okf w fad" "okd dst (unat n * 2048)" "landed d bs m m1" "phys dst = d + length bs"
  shows "\<exists>m2. rd w dst fad n m1 = Ret () m2 \<and> good w m2 \<and>
    landed d (bs @ chunk (cart w) (unat fad) 0 (unat n * 2048)) m m2"
  using rd_lands [OF assms(1-3)] assms(4,5) landed_append by metis

end

section \<open>The two readers of the cartridge\<close>

type_synonym world = "env \<times> (u32 list \<Rightarrow> gd_job option) \<times> (nat \<Rightarrow> u8)"

definition w_good :: "world \<Rightarrow> machine \<Rightarrow> bool" where
  "w_good w m = (case w of (E, job, disc) \<Rightarrow> drive_ok E job disc \<and> call_ok E m)"

text \<open>The cartridge image starts at sector \<open>CART_FAD\<close> of the disc.\<close>

definition w_cart :: "world \<Rightarrow> nat \<Rightarrow> u8" where
  "w_cart w i = (case w of (E, job, disc) \<Rightarrow> disc (unat (CART_FAD E) * 2048 + i))"

definition w_fad :: "world \<Rightarrow> u32 \<Rightarrow> bool" where
  "w_fad w fad \<longleftrightarrow> unat (CART_FAD (fst w)) + unat fad < 4294967296"

definition pio_dst :: "u32 \<Rightarrow> nat \<Rightarrow> bool" where
  "pio_dst dst len \<longleftrightarrow> 0xac010000 \<le> unat dst \<and> unat dst + len \<le> 0xacfd4000"

definition dma_dst :: "u32 \<Rightarrow> nat \<Rightarrow> bool" where
  "dma_dst p len \<longleftrightarrow> unat p mod 32 = 0 \<and> 0x0c010000 \<le> unat p \<and> unat p + len \<le> 0x0cfd4000"

definition pio_phys :: "u32 \<Rightarrow> nat" where "pio_phys dst = unat dst - 0xa0000000"

lemma p2_block:
  assumes "0xac000000 \<le> unat a" "unat a + n \<le> 0xb0000000" "0 < n"
  shows "span a n" "unat (bus a) = unat a - 0xa0000000" "\<not> cached a"
proof -
  have "unat a < 0xb0000000" using assms by linarith
  then have "unat a div 536870912 = 5" "unat a mod 536870912 = unat a - 0xa0000000"
    using assms by (simp_all add: div_nat_eqI mod_nat_eqI)
  then show "span a n" "unat (bus a) = unat a - 0xa0000000" "\<not> cached a"
    using assms by (simp_all add: span_def unat_bus_div cached_div)
qed

lemma sectors_cart:
  "unat (CART_FAD E) + unat fad < 4294967296 \<Longrightarrow>
    sectors disc (CART_FAD E + fad) n = chunk (w_cart (E, job, disc)) (unat fad) 0 (unat n * 2048)"
  by (simp add: sectors_def chunk_def w_cart_def unat_add_lt algebra_simps)

lemma gd_or_die_lands:
  assumes "w_good w m" "w_fad w fad" "pio_dst dst (unat n * 2048)"
  shows "\<exists>m1. gd_or_die (fst w) dst fad n m = Ret () m1 \<and> w_good w m1 \<and>
    landed (pio_phys dst) (chunk (w_cart w) (unat fad) 0 (unat n * 2048)) m m1"
proof -
  obtain E job disc where w: "w = (E, job, disc)" by (cases w)
  note g = assms(1) [unfolded w w_good_def prod.case]
  let ?l = "unat n * 2048"
  have d: "unat (bus dst) = unat dst - 0xa0000000" "span dst ?l" "\<not> cached dst"
    using p2_block [of dst "?l + 1"] assms(3) by (auto simp: pio_dst_def intro: span_mono)
  have ne: "CMD_PIOREAD \<noteq> CMD_DMAREAD" by (simp add: src_consts)
  have rq: "gd_req_ok CMD_PIOREAD dst n"
    using d assms(3) ne by (auto simp: gd_req_ok_def gd_tgt_def pio_dst_def)
  obtain m1 where m1: "gd_read_sectors E dst (CART_FAD E + fad) n m = Ret 0 m1" "call_ok E m1"
    "delivered dst (sectors disc (CART_FAD E + fad) n) m m1"
    using gd_read_sectors_ok [OF conjunct1 [OF g] rq conjunct2 [OF g]] by blast
  then have "landed (pio_phys dst) (sectors disc (CART_FAD E + fad) n) m m1"
    using landed_uncached [of dst _ m m1] d by (simp add: pio_phys_def)
  with m1 g assms(2) show ?thesis
    by (simp add: w w_good_def w_fad_def gd_or_die_def sectors_cart [where job = job])
qed

lemma gd_or_die_dma_lands:
  assumes "w_good w m" "w_fad w fad" "dma_dst p (unat n * 2048)"
  shows "\<exists>m1. gd_or_die_dma (fst w) p fad n m = Ret () m1 \<and> w_good w m1 \<and>
    landed (unat p) (chunk (w_cart w) (unat fad) 0 (unat n * 2048)) m m1"
proof -
  obtain E job disc where w: "w = (E, job, disc)" by (cases w)
  note g = assms(1) [unfolded w w_good_def prod.case]
  obtain m1 where "gd_read_sectors_dma E p (CART_FAD E + fad) n m = Ret 0 m1" "call_ok E m1"
    "landed (unat p) (sectors disc (CART_FAD E + fad) n) m m1"
    using gd_read_sectors_dma_ok [OF conjunct1 [OF g] conjunct2 [OF g],
        where p = p and n = n and fad = "CART_FAD E + fad"] assms(3)
    by (auto simp: dma_dst_def)
  with g assms(2) show ?thesis
    by (simp add: w w_good_def w_fad_def gd_or_die_dma_def sectors_cart [where job = job])
qed

interpretation pio: sector_reader "\<lambda>w. gd_or_die (fst w)" w_good w_fad pio_dst pio_phys w_cart
  by unfold_locales (rule gd_or_die_lands)

interpretation dma: sector_reader "\<lambda>w. gd_or_die_dma (fst w)" w_good w_fad dma_dst unat w_cart
  by unfold_locales (rule gd_or_die_dma_lands)

section \<open>Partial sectors through the sector buffer\<close>

definition copy_part :: "env \<Rightarrow> u32 \<Rightarrow> u32 \<Rightarrow> u32 \<Rightarrow> u32 \<Rightarrow> machine \<Rightarrow> unit outcome" where
  "copy_part E dst fad skip n m = bindo (gd_or_die E SHIM_BOUNCE fad 1 m) (\<lambda>u m1.
     Ret () (xmemcpy dst (SHIM_BOUNCE + skip) n m1))"

lemma bounce_window:
  assumes "skip + k \<le> 2048" "0 < k"
  shows "unat (SHIM_BOUNCE + word_of_nat skip) = 0x8cfca000 + skip"
    "span (SHIM_BOUNCE + word_of_nat skip) k"
    "unat (bus (SHIM_BOUNCE + word_of_nat skip)) = 0x0cfca000 + skip"
proof -
  have "unat SHIM_BOUNCE = 0x8cfca000" by (simp add: src_consts)
  then show u: "unat (SHIM_BOUNCE + word_of_nat skip) = 0x8cfca000 + skip"
    using assms unat_add_of_nat [of SHIM_BOUNCE skip] by simp
  show "span (SHIM_BOUNCE + word_of_nat skip) k"
    "unat (bus (SHIM_BOUNCE + word_of_nat skip)) = 0x0cfca000 + skip"
    using p1_block [of "SHIM_BOUNCE + word_of_nat skip" k] assms u by auto
qed

lemma copy_part_lands:
  assumes "w_good w m" "w_fad w fad" "pio_dst dst (unat n)" "unat dst + unat n \<le> 0xacfc0000"
    and "unat skip + unat n \<le> 2048" "0 < unat n"
  shows "\<exists>m1. copy_part (fst w) dst fad skip n m = Ret () m1 \<and> w_good w m1 \<and>
    landed (pio_phys dst) (chunk (w_cart w) (unat fad) (unat skip) (unat n)) m m1"
proof -
  obtain E job disc where w: "w = (E, job, disc)" by (cases w)
  note g = assms(1) [unfolded w w_good_def prod.case]
  have ne: "CMD_PIOREAD \<noteq> CMD_DMAREAD" by (simp add: src_consts)
  have bb: "span SHIM_BOUNCE 2048" "unat (bus SHIM_BOUNCE) = 0x0cfca000"
    using bounce_window [of 0 2048] by simp_all
  then have rq: "gd_req_ok CMD_PIOREAD SHIM_BOUNCE 1"
    using ne by (simp add: gd_req_ok_def gd_tgt_def)
  obtain m1 where m1: "gd_read_sectors E SHIM_BOUNCE (CART_FAD E + fad) 1 m = Ret 0 m1" "call_ok E m1"
    "delivered SHIM_BOUNCE (sectors disc (CART_FAD E + fad) 1) m m1"
    using gd_read_sectors_ok [OF conjunct1 [OF g] rq conjunct2 [OF g]] by blast
  let ?bs = "chunk (w_cart w) (unat fad) 0 2048" and ?src = "SHIM_BOUNCE + skip"
  have sec: "sectors disc (CART_FAD E + fad) 1 = ?bs"
    using assms(2) sectors_cart [of E fad disc 1 job] by (simp add: w w_fad_def)
  note lb = landed_bounce [OF m1(3) [unfolded sec]]
  have d: "unat (bus dst) = unat dst - 0xa0000000" "span dst (unat n)" "\<not> cached dst"
    using p2_block [of dst "unat n"] assms(3,6) by (auto simp: pio_dst_def)
  have src: "span ?src (unat n)" "unat (bus ?src) = 0x0cfca000 + unat skip"
    using bounce_window [of "unat skip" "unat n"] assms(5,6) by simp_all
  have "blocks_apart dst ?src (unat n)"
    using d src assms(3,4) by (auto simp: blocks_apart_def pio_dst_def)
  then have cp: "xmemcpy dst ?src n m1 = store_bytes dst (load_bytes ?src (unat n) m1) m1"
    by (rule xmemcpy_store_bytes)
  have ld: "load_bytes ?src (unat n) m1 = chunk (w_cart w) (unat fad) (unat skip) (unat n)"
  proof (rule nth_equalityI)
    fix i
    assume "i < length (load_bytes ?src (unat n) m1)"
    then have i: "i < unat n" by simp
    have "?src + word_of_nat i = SHIM_BOUNCE + word_of_nat (unat skip + i)"
      by (simp add: add.assoc)
    then show "load_bytes ?src (unat n) m1 ! i = chunk (w_cart w) (unat fad) (unat skip) (unat n) ! i"
      using i assms(5) lb(2) [of "unat skip + i"] by (simp add: nth_load_bytes add.assoc)
  qed simp
  have "landed (pio_phys dst) [] m m1"
    by (rule lb(1)) simp
  moreover have "landed (pio_phys dst + length []) (load_bytes ?src (unat n) m1) m1 (xmemcpy dst ?src n m1)"
    using landed_uncached [of dst "load_bytes ?src (unat n) m1" m1 "xmemcpy dst ?src n m1"] d
    by (simp add: delivered_def cp pio_phys_def)
  ultimately have "landed (pio_phys dst) (chunk (w_cart w) (unat fad) (unat skip) (unat n)) m (xmemcpy dst ?src n m1)"
    using landed_append ld by fastforce
  moreover have "call_ok E (xmemcpy dst ?src n m1)"
    using m1(2) call_ok_cpu [of "xmemcpy dst ?src n m1" m1 E] by (simp add: cp)
  ultimately show ?thesis
    using m1(1) g by (simp add: w w_good_def copy_part_def gd_or_die_def)
qed

section \<open>A whole cartridge read\<close>

text \<open>A request that the fence of the service routine lets through, on a buffer above system work RAM.\<close>

definition cart_req :: "env \<Rightarrow> u32 \<Rightarrow> u32 \<Rightarrow> u32 \<Rightarrow> bool" where
  "cart_req E off len dest \<longleftrightarrow> unat off + unat len \<le> 0x06800000 \<and> 0x0c010000 \<le> unat dest
     \<and> unat dest + unat len \<le> 0x0cfc0000 \<and> unat (CART_FAD E) < 0x80000000"

lemma split_fads:
  assumes "cart_req (fst w) off len dest"
  shows "w_fad w (head_fad (cart_split off len))" "w_fad w (body_fad (cart_split off len))"
    "w_fad w (tail_fad (cart_split off len))"
proof -
  let ?s = "cart_split off len"
  have c: "unat (CART_FAD (fst w)) < 0x80000000" and ol: "unat off + unat len \<le> 0x06800000"
    using assms by (simp_all add: cart_req_def)
  have "unat (head_fad ?s) \<le> unat off div 2048"
    by (simp add: cart_split_def Let_def unat_div2048)
  then have h: "unat (head_fad ?s) \<le> unat off" using div_le_dividend le_trans by blast
  have b: "unat (body_fad ?s) \<le> unat off + 1"
    unfolding unat_body_fad by (simp add: le_SucI)
  have "unat (body_sect ?s) \<le> unat len"
    unfolding unat_body_sect by (meson diff_le_self div_le_dividend le_trans)
  then have "unat (tail_fad ?s) \<le> unat off + 1 + unat len"
    using split_tail [of off len] b by (cases "tail_take ?s = 0") (auto simp: split_tail_fad unat_gt_0)
  with c ol h b show "w_fad w (head_fad ?s)" "w_fad w (body_fad ?s)" "w_fad w (tail_fad ?s)"
    by (simp_all add: w_fad_def)
qed

lemma copy_part_continues:
  assumes "w_good w m1" "w_fad w fad" "pio_dst dst (unat n)" "unat dst + unat n \<le> 0xacfc0000"
    and "unat skip + unat n \<le> 2048" "landed d bs m m1" "pio_phys dst = d + length bs"
  shows "\<exists>m2. (if n \<noteq> 0 then copy_part (fst w) dst fad skip n m1 else Ret () m1) = Ret () m2 \<and>
    w_good w m2 \<and> landed d (bs @ chunk (w_cart w) (unat fad) (unat skip) (unat n)) m m2"
proof (cases "n = 0")
  case True
  with assms show ?thesis by simp
next
  case False
  then have "0 < unat n" by (simp add: unat_gt_0)
  with False copy_part_lands [OF assms(1-5)] assms(6,7) landed_append show ?thesis by metis
qed

lemma cart_head_eq: "cart_head E s dst m =
    (if head_take s \<noteq> 0 then copy_part E dst (head_fad s) (head_skip s) (head_take s) m else Ret () m)"
  by (simp add: cart_head_def copy_part_def)

lemma cart_tail_eq: "cart_tail E s dst m =
    (if tail_take s \<noteq> 0 then copy_part E dst (tail_fad s) 0 (tail_take s) m else Ret () m)"
  by (simp add: cart_tail_def copy_part_def)

lemma cart_body_continues:
  assumes "w_good w m1" "w_fad w (body_fad s)" "landed d bs m m1"
    and "unat dst = d + length bs + 0xa0000000" "unat (dest + head_take s) = d + length bs"
    and "0x0c010000 \<le> d" "d + length bs + unat (body_sect s) * 2048 \<le> 0x0cfc0000"
  shows "\<exists>m2. cart_body (fst w) s dst dest m1 = Ret () m2 \<and> w_good w m2 \<and>
    landed d (bs @ chunk (w_cart w) (unat (body_fad s)) 0 (unat (body_sect s) * 2048)) m m2"
proof (cases "body_sect s = 0")
  case True
  with assms show ?thesis by (simp add: cart_body_def)
next
  case False
  let ?p = "dest + head_take s"
  have "unat (?p AND 31) = unat ?p mod 32" by (rule unat_and_mask5)
  then have al: "?p AND 31 = 0 \<longleftrightarrow> unat ?p mod 32 = 0"
    by (metis unat_eq_0)
  show ?thesis
  proof (cases "SHIM_GD_DMA (fst w) \<and> ?p AND 31 = 0")
    case True
    then have "dma_dst ?p (unat (body_sect s) * 2048)"
      using al assms(5-7) by (simp add: dma_dst_def)
    from dma.rd_continues [OF assms(1,2) this assms(3,5)] show ?thesis
      using False True by (simp add: cart_body_def)
  next
    case nodma: False
    have "pio_dst dst (unat (body_sect s) * 2048)" "pio_phys dst = d + length bs"
      using assms(4,6,7) by (simp_all add: pio_dst_def pio_phys_def)
    from pio.rd_continues [OF assms(1,2) this(1) assms(3) this(2)] show ?thesis
      using False nodma by (auto simp: cart_body_def Let_def)
  qed
qed

lemma or_P2ADDR: "dest OR 0xa0000000 = P2ADDR dest"
  by (simp add: P2ADDR_def)

lemma cart_read_lands:
  assumes "w_good w (cart_marks (fst w) m)" "cart_req (fst w) off len dest"
  shows "\<exists>m1. cart_read (fst w) off len dest m = Ret () m1 \<and> w_good w m1 \<and>
    landed (unat dest) (map (w_cart w) [unat off ..< unat off + unat len]) (cart_marks (fst w) m) m1"
proof -
  define s where "s = cart_split off len"
  define dst where "dst = P2ADDR dest"
  let ?m = "cart_marks (fst w) m"
  let ?h = "unat (head_take s)" and ?b = "unat (body_sect s) * 2048" and ?t = "unat (tail_take s)"
  let ?H = "chunk (w_cart w) (unat (head_fad s)) (unat (head_skip s)) ?h"
  let ?B = "chunk (w_cart w) (unat (body_fad s)) 0 ?b"
  let ?T = "chunk (w_cart w) (unat (tail_fad s)) 0 ?t"
  have sum: "?h + ?b + ?t = unat len" unfolding s_def by (rule split_takes_sum)
  have d: "0x0c010000 \<le> unat dest" "unat dest + unat len \<le> 0x0cfc0000"
    using assms(2) by (simp_all add: cart_req_def)
  have fads: "w_fad w (head_fad s)" "w_fad w (body_fad s)" "w_fad w (tail_fad s)"
    using split_fads [OF assms(2)] by (simp_all add: s_def)
  have udst: "unat dst = unat dest + 0xa0000000"
    unfolding dst_def using d sum by (intro unat_P2ADDR_phys) linarith
  define dst1 where "dst1 = dst + head_take s"
  define dst2 where "dst2 = dst1 + body_sect s * 2048"
  have u1: "unat dst1 = unat dst + ?h" "unat (dest + head_take s) = unat dest + ?h"
    unfolding dst1_def using udst d sum by (intro unat_add_lt; linarith)+
  have "unat (body_sect s * 2048) = ?b"
    using d sum by (simp add: unat_word_ariths)
  then have u2: "unat dst2 = unat dst1 + ?b"
    unfolding dst2_def using udst u1 d sum by (subst unat_add_lt) linarith+
  have hd: "unat (head_skip s) + ?h \<le> 2048"
  proof (cases "?h = 0")
    case True
    then show ?thesis by (simp add: s_def cart_split_def Let_def unat_mod2048 less_imp_le)
  qed (use split_head [of off len] in \<open>simp add: s_def\<close>)
  have tl: "unat (0 :: u32) + ?t \<le> 2048"
    using unat_tail_take [of off len] by (simp add: s_def less_imp_le)
  obtain m1 where m1: "cart_head (fst w) s dst ?m = Ret () m1" "w_good w m1"
    "landed (unat dest) ([] @ ?H) ?m m1"
    using copy_part_continues [OF assms(1) fads(1), of dst "head_take s" "head_skip s" "unat dest" "[]" ?m]
      udst d sum hd unfolding cart_head_eq by (auto simp: pio_dst_def pio_phys_def)
  obtain m2 where m2: "cart_body (fst w) s dst1 dest m1 = Ret () m2" "w_good w m2"
    "landed (unat dest) (([] @ ?H) @ ?B) ?m m2"
    using cart_body_continues [OF m1(2) fads(2) m1(3), of dst1 dest] u1 udst d sum by auto
  obtain m3 where m3: "cart_tail (fst w) s dst2 m2 = Ret () m3" "w_good w m3"
    "landed (unat dest) ((([] @ ?H) @ ?B) @ ?T) ?m m3"
    using copy_part_continues [OF m2(2) fads(3), of dst2 "tail_take s" 0 "unat dest" "([] @ ?H) @ ?B" ?m]
      u1 u2 udst d sum tl m2(3) unfolding cart_tail_eq by (auto simp: pio_dst_def pio_phys_def)
  have "(([] @ ?H) @ ?B) @ ?T = map (w_cart w) [unat off ..< unat off + unat len]"
    using split_bytes_cart [of "w_cart w" off len] by (simp add: split_bytes_def s_def)
  moreover have "cart_read (fst w) off len dest m = Ret () m3"
  proof -
    have *: "(if head_take s \<noteq> 0 then dst + head_take s else dst) = dst1"
      "(if body_sect s \<noteq> 0 then dst1 + body_sect s * 2048 else dst1) = dst2"
      by (simp_all add: dst1_def dst2_def)
    show ?thesis
      unfolding cart_read_def or_P2ADDR Let_def s_def [symmetric] dst_def [symmetric]
      by (simp only: * m1(1) m2(1) m3(1) bindo.simps)
  qed
  ultimately show ?thesis using m3 by auto
qed

section \<open>The fence\<close>

text \<open>The fence of the service routine, over the naturals: no sum in it can wrap.\<close>

definition cart_fence :: "nat \<Rightarrow> nat \<Rightarrow> nat \<Rightarrow> bool" where
  "cart_fence off len dest \<longleftrightarrow> 0 < len \<and> len \<le> 0x01000000 \<and> off + len \<le> 0x06800000
     \<and> 0x0c000000 \<le> dest \<and> dest + len \<le> 0x0cfc0000"

lemma and_1f: "a AND 0x1f000000 = push_bit 24 (take_bit 5 (drop_bit 24 a))" for a :: u32
proof -
  have "(0x1f000000 :: u32) = push_bit 24 (mask 5)"
    by (simp add: mask_numeral)
  moreover have "a AND push_bit 24 (mask 5) = push_bit 24 (take_bit 5 (drop_bit 24 a))"
    by (rule bit_eqI) (auto simp: bit_simps)
  ultimately show ?thesis by simp
qed

lemma area3:
  assumes "unat (a :: u32) < 0x20000000"
  shows "a AND 0x1f000000 = 0x0c000000 \<longleftrightarrow> 0x0c000000 \<le> unat a \<and> unat a < 0x0d000000"
proof -
  have lt: "unat a div 16777216 < 32" using assms by (simp add: less_mult_imp_div_less)
  have "unat (drop_bit 24 a) = unat a div 16777216"
    by (simp add: drop_bit_eq_div unat_div)
  then have "unat (take_bit 5 (drop_bit 24 a)) = unat a div 16777216"
    using lt by (simp add: unsigned_take_bit_eq take_bit_nat_eq_self)
  then have "unat (a AND 0x1f000000) = unat a div 16777216 * 16777216"
    unfolding and_1f using lt by (simp add: push_bit_eq_mult unat_word_ariths)
  then have "a AND 0x1f000000 = 0x0c000000 \<longleftrightarrow> unat a div 16777216 = 12"
    by (simp add: word_unat_eq_iff)
  also have "\<dots> \<longleftrightarrow> 0x0c000000 \<le> unat a \<and> unat a < 0x0d000000"
    by auto
  finally show ?thesis .
qed

lemma unat_off: "unat (cart_off m) < 0x10000000"
proof -
  have "cart_off m \<le> 0x0fffffff"
    unfolding cart_off_def by (rule word_and_le1)
  then have "unat (cart_off m) \<le> 0x0fffffff" by (simp add: word_le_nat_alt)
  then show ?thesis by simp
qed

lemma unat_dest: "unat (cart_dest m) < 0x20000000"
  by (simp add: cart_dest_def unat_and_mask29)

lemma cart_refused_fence:
  assumes "unat off < 0x10000000" "unat dest < 0x20000000"
  shows "cart_refused off len dest \<longleftrightarrow> \<not> cart_fence (unat off) (unat len) (unat dest)"
proof (cases "unat len \<le> 0x01000000")
  case True
  then have "unat (off + len) = unat off + unat len" "unat (dest + len) = unat dest + unat len"
    using assms by (auto intro: unat_add_lt)
  with True area3 [OF assms(2)] show ?thesis
    by (auto simp: cart_refused_def cart_fence_def word_less_nat_alt u32_zero_iff CART_SIZE_def SHIM_BASE_def)
next
  case False
  then show ?thesis
    by (auto simp: cart_refused_def cart_fence_def word_less_nat_alt)
qed

section \<open>The service routine\<close>

lemma shim_mark_agree: "slot < 32 \<Longrightarrow> agree m (shim_mark E slot c m)"
  by (rule dev_only_agree [OF shim_mark_dev_only])

text \<open>The statics aside, the marks touch no memory outside the scratch area.\<close>

definition agree_mem :: "machine \<Rightarrow> machine \<Rightarrow> bool" where
  "agree_mem m m' \<longleftrightarrow> (\<forall>q. \<not> scratch q \<longrightarrow> ram m' q = ram m q \<and> dcache m' q = dcache m q) \<and>
     gdd m' = gdd m \<and> mapled m' = mapled m \<and> utild m' = utild m \<and> maind m' = maind m \<and> cpu m' = cpu m \<and>
     bios m' = bios m \<and> gds m' = gds m"

lemma agree_mem_trans: "agree_mem a b \<Longrightarrow> agree_mem b c \<Longrightarrow> agree_mem a c"
  by (simp add: agree_mem_def)

lemma dev_only_agree_mem: "dev_only m m' \<Longrightarrow> agree_mem m m'"
  by (simp add: dev_only_def agree_mem_def scratch_def)

lemma agree_mem_cartd [simp]: "agree_mem m (m'\<lparr>cartd := c\<rparr>) = agree_mem m m'"
  "agree_mem (m'\<lparr>cartd := c\<rparr>) m = agree_mem m' m"
  by (simp_all add: agree_mem_def)

lemma mark_agree_mem: "agree_mem m m' \<Longrightarrow> slot < 32 \<Longrightarrow> agree_mem m (shim_mark E slot c m')"
  by (rule agree_mem_trans [OF _ dev_only_agree_mem [OF shim_mark_dev_only]])

lemma agree_mem_refl [simp]: "agree_mem m m"
  by (simp add: agree_mem_def)

lemma cart_marks_agree_mem: "agree_mem m (cart_marks E m)"
  unfolding cart_marks_def Let_def by (auto intro!: mark_agree_mem)

lemma cart_marks_cartd: "cartd (cart_marks E m) = (cartd m)\<lparr>cart_first := 0, cart_count := cart_count (cartd m) + 1\<rparr>"
proof -
  have "cartd (shim_mark E s c m') = cartd m'" if "s < 32" for s c m'
    using shim_mark_dev_only [OF that, of m' E c] by (simp add: dev_only_def)
  then show ?thesis by (cases "cartd m") (simp add: cart_marks_def Let_def)
qed

lemma cart_trace_off [simp]: "\<not> SHIM_SERIAL E \<Longrightarrow> cart_trace E off len dest m = m"
  by (simp add: cart_trace_def Let_def)

lemma pb_step_agree_mem: "agree_mem m (pb_step E len m)"
  unfolding pb_step_def Let_def
  by (auto intro: agree_mem_trans [OF _ dev_only_agree_mem [OF loadbar_paint_dev_only]])

lemma pb_step_left: "cartd (pb_step E len m) = (cartd m)\<lparr>pb_left :=
  (if SHIM_LOADBAR E then (if len \<ge> pb_left (cartd m) then 0 else pb_left (cartd m) - len) else pb_left (cartd m))\<rparr>"
proof -
  have "cartd (loadbar_paint f m') = cartd m'" for f m'
    using loadbar_paint_dev_only [of m' f] by (simp add: dev_only_def)
  then show ?thesis by (auto simp: pb_step_def Let_def)
qed

text \<open>The diagnostic builds paint and count, and leave memory and the counters of \<^verbatim>\<open>cart.c\<close> alone.\<close>

definition harmless :: "machine \<Rightarrow> machine \<Rightarrow> bool" where
  "harmless m m' \<longleftrightarrow> agree_mem m m' \<and> cartd m' = cartd m"

lemma harmless_trans [trans]: "harmless a b \<Longrightarrow> harmless b c \<Longrightarrow> harmless a c"
  using agree_mem_trans by (auto simp: harmless_def)

lemma harmless_diagd [simp]: "harmless m (m\<lparr>diagd := d\<rparr>)"
  by (simp add: harmless_def agree_mem_def)

lemma harmless_refl [simp, intro]: "harmless m m"
  by (simp add: harmless_def)

lemma harmless_dev: "dev_only m m' \<Longrightarrow> harmless m m'"
  using dev_only_agree_mem by (simp add: harmless_def dev_only_def)

lemma stream_mark_dev [frame]: "dev_only m (stream_mark E t m)"
  by (simp add: stream_mark_def hex_paint_c_dev_only)

lemma stream_check_dev [frame]: "dev_only m (stream_check E dest len m)"
  by (auto simp: stream_check_def intro!: dev_only_trans [OF hex_paint_c_dev_only stream_mark_dev])

lemma ls_begin_harmless: "harmless m (ls_begin E m)"
  by (simp add: ls_begin_def)

lemma ls_stampA_harmless: "harmless m (ls_stampA E s m)"
  by (simp add: ls_stampA_def Let_def)

lemma ls_end_harmless: "harmless m (ls_end E t0 len m)"
proof (cases "SHIM_LOADSTAT E")
  case True
  have h: "harmless m' (hex_paint_c 20 y v 0 0xffff m')" if "y \<le> 470" for y v m'
    using that by (intro harmless_dev hex_paint_c_dev_only) simp_all
  show ?thesis
    unfolding ls_end_def Let_def using True
    by (simp del: harmless_diagd)
      (rule harmless_trans [OF harmless_trans [OF harmless_trans [OF harmless_trans
        [OF harmless_diagd ls_stampA_harmless] h] h] h]; simp)
qed (simp add: ls_end_def)

text \<open>The register that tells the game its transfer is done.\<close>

definition SB_GDST :: u32 where [src_consts]: "SB_GDST = P2ADDR G1_MIRROR + 0x418"

lemma SB_GDST_addr: "unat SB_GDST = 0xacfc8c18"
proof -
  have "unat (P2ADDR G1_MIRROR) = unat G1_MIRROR + 0x20000000"
    by (simp add: src_consts P2ADDR_def)
  then show ?thesis by (simp add: SB_GDST_def src_consts P2ADDR_def)
qed

text \<open>What a served request leaves behind, outside the destination and the done register.\<close>

definition untouched :: "u32 \<Rightarrow> u32 \<Rightarrow> machine \<Rightarrow> machine \<Rightarrow> bool" where
  "untouched dest len m m' \<longleftrightarrow> (\<forall>q. \<not> scratch q \<longrightarrow> \<not> bounce q \<longrightarrow>
     \<not> (unat dest \<le> unat q \<and> unat q < unat dest + unat len) \<longrightarrow>
     \<not> (0x0cfc8c18 \<le> unat q \<and> unat q < 0x0cfc8c1c) \<longrightarrow> ram m' q = ram m q \<and> dcache m' q = dcache m q)
   \<and> gdd m' = gdd m \<and> mapled m' = mapled m \<and> utild m' = utild m \<and> maind m' = maind m"

lemma st32_done:
  "ld32 SB_GDST (st32 SB_GDST 0 m) = 0"
  "\<not> (0x0cfc8c18 \<le> unat q \<and> unat q < 0x0cfc8c1c) \<Longrightarrow>
    ram (st32 SB_GDST 0 m) q = ram m q \<and> dcache (st32 SB_GDST 0 m) q = dcache m q"
proof -
  have g: "span SB_GDST 4" "unat (bus SB_GDST) = 0x0cfc8c18" "\<not> cached SB_GDST"
    using p2_block [of SB_GDST 4] SB_GDST_addr by simp_all
  then show "ld32 SB_GDST (st32 SB_GDST 0 m) = 0"
    by (simp add: ld32_st32_same)
  assume "\<not> (0x0cfc8c18 \<le> unat q \<and> unat q < 0x0cfc8c1c)"
  then show "ram (st32 SB_GDST 0 m) q = ram m q \<and> dcache (st32 SB_GDST 0 m) q = dcache m q"
    using g store_bytes_uncached [OF g(3), of "[0, 0, 0, 0]" m]
    by (auto simp: st32_bytes simp del: store_bytes.simps)
qed

lemma agree_mem_ld32:
  assumes "agree_mem m m'" "\<And>i. i < 4 \<Longrightarrow> \<not> scratch (bus (a + word_of_nat i))"
  shows "ld32 a m' = ld32 a m"
proof -
  have "ld8 (a + word_of_nat i) m' = ld8 (a + word_of_nat i) m" if "i < 4" for i
    using assms that by (auto simp: agree_mem_def ld8_def split: option.split)
  from this [of 0] this [of 1] this [of 2] this [of 3] show ?thesis
    by (simp add: ld32_def)
qed

lemma call_ok_agree_mem: "agree_mem m m' \<Longrightarrow> call_ok E m' = call_ok E m"
  by (rule call_ok_cpu) (simp add: agree_mem_def)

lemma untouched_dest:
  "landed (unat dest) bs m m' \<Longrightarrow> length bs = unat len \<Longrightarrow> untouched dest len m m'"
  by (simp add: landed_def untouched_def)

lemma untouched_agree: "agree_mem m m1 \<Longrightarrow> untouched dest len m1 m2 \<Longrightarrow> untouched dest len m m2"
  by (simp add: agree_mem_def untouched_def)

lemma untouched_then: "untouched dest len m m1 \<Longrightarrow> agree_mem m1 m2 \<Longrightarrow> untouched dest len m m2"
  by (simp add: agree_mem_def untouched_def)

lemma landed_load:
  assumes "landed (unat dest) bs m m'" "0x0c010000 \<le> unat dest" "unat dest + length bs \<le> 0x0cfc0000" "bs \<noteq> []"
  shows "load_bytes (P2ADDR dest) (length bs) m' = bs"
proof (rule nth_equalityI)
  have u: "unat (P2ADDR dest) = unat dest + 0xa0000000"
    using assms by (intro unat_P2ADDR_phys) linarith
  then have b: "span (P2ADDR dest) (length bs)" "unat (bus (P2ADDR dest)) = unat dest" "\<not> cached (P2ADDR dest)"
    using p2_block [of "P2ADDR dest" "length bs"] assms by simp_all
  fix i
  assume "i < length (load_bytes (P2ADDR dest) (length bs) m')"
  then have i: "i < length bs" by simp
  then have "unat (bus (P2ADDR dest + word_of_nat i)) = unat dest + i" "\<not> cached (P2ADDR dest + word_of_nat i)"
    using b span_bus [OF b(1) i] span_cached [OF b(1) i] by simp_all
  then show "load_bytes (P2ADDR dest) (length bs) m' ! i = bs ! i"
    using assms i by (simp add: nth_load_bytes ld8_def landed_def scratch_def bounce_def)
qed simp

lemma cart_service_ok:
  assumes "drive_ok E job disc" "call_ok E m" "\<not> SHIM_SERIAL E" "unat (CART_FAD E) < 0x80000000"
    and "cart_fence (unat (cart_off m)) (unat (cart_len m)) (unat (cart_dest m))"
    and "0x0c010000 \<le> unat (cart_dest m)"
  shows "\<exists>m1. shim_cart_service E m = Ret () m1 \<and> call_ok E m1 \<and>
    load_bytes (P2ADDR (cart_dest m)) (unat (cart_len m)) m1
      = map (\<lambda>i. disc (unat (CART_FAD E) * 2048 + i)) [unat (cart_off m) ..< unat (cart_off m) + unat (cart_len m)] \<and>
    ld32 SB_GDST m1 = 0 \<and> untouched (cart_dest m) (cart_len m) m m1 \<and>
    pb_left (cartd m1) = (if SHIM_LOADBAR E then (if cart_len m \<ge> pb_left (cartd m) then 0
      else pb_left (cartd m) - cart_len m) else pb_left (cartd m)) \<and>
    cart_count (cartd m1) = cart_count (cartd m) + 1"
proof -
  let ?off = "cart_off m" and ?len = "cart_len m" and ?dest = "cart_dest m" and ?w = "(E, job, disc)"
  let ?bs = "map (w_cart ?w) [unat ?off ..< unat ?off + unat ?len]"
  have nr: "\<not> cart_refused ?off ?len ?dest"
    using assms(5) cart_refused_fence [OF unat_off unat_dest] by simp
  define m0 where "m0 = ls_begin E (stream_mark E 0xA0000000 m)"
  define t0 where "t0 = ld32 LS_TCNT0 m0"
  have h0: "harmless m m0"
    unfolding m0_def by (rule harmless_trans [OF harmless_dev [OF stream_mark_dev] ls_begin_harmless])
  have am: "agree_mem m (cart_marks E m0)"
    using h0 agree_mem_trans [OF _ cart_marks_agree_mem] by (simp add: harmless_def)
  have "w_good ?w (cart_marks E m0)"
    using assms(1,2) call_ok_agree_mem [OF am, of E] by (simp add: w_good_def)
  moreover have "cart_req (fst ?w) ?off ?len ?dest"
    using assms(4-6) by (simp add: cart_req_def cart_fence_def)
  ultimately obtain m1 where rd: "cart_read E ?off ?len ?dest m0 = Ret () m1" and g: "w_good ?w m1"
    and l: "landed (unat ?dest) ?bs (cart_marks E m0) m1"
    using cart_read_lands [of ?w m0 ?off ?len ?dest] by auto
  define m2 where "m2 = st32 SB_GDST 0 m1"
  define m2' where "m2' = stream_check E ?dest ?len m2"
  define m3' where "m3' = pb_step E ?len m2'"
  define m3 where "m3 = ls_end E t0 ?len (stream_mark E 0xE0000000 m3')"
  have h2: "harmless m2 m2'" unfolding m2'_def by (rule harmless_dev [OF stream_check_dev])
  have h3: "harmless m3' m3"
    unfolding m3_def by (rule harmless_trans [OF harmless_dev [OF stream_mark_dev] ls_end_harmless])
  have sv: "shim_cart_service E m = Ret () m3"
    unfolding shim_cart_service_def Let_def
    using nr rd assms(3)
    by (simp add: m3_def m3'_def m2'_def m2_def SB_GDST_def m0_def [symmetric] t0_def [symmetric])
  have d: "unat ?dest + unat ?len \<le> 0x0cfc0000" "0 < unat ?len"
    using assms(5) by (simp_all add: cart_fence_def)
  have "landed (unat ?dest) ?bs (cart_marks E m0) m1" by (rule l)
  then have lb: "load_bytes (P2ADDR ?dest) (unat ?len) m1 = ?bs"
    using landed_load [of ?dest ?bs "cart_marks E m0" m1] assms(6) d by simp
  have am3: "agree_mem m2 m3"
    using h2 h3 pb_step_agree_mem [of m2' E ?len] agree_mem_trans unfolding harmless_def m3'_def by blast
  have u2: "untouched ?dest ?len m m2"
    using untouched_agree [OF am untouched_dest [OF l]] st32_done(2) [of _ m1]
    by (simp add: untouched_def m2_def)
  then have "untouched ?dest ?len m m3"
    using am3 by (rule untouched_then)
  moreover have "call_ok E m3"
    using g call_ok_agree_mem [OF am3, of E] call_ok_cpu [of m2 m1 E] by (simp add: w_good_def m2_def)
  moreover have "ld32 SB_GDST m3 = 0"
  proof -
    have "unat (bus (SB_GDST + word_of_nat i)) = 0x0cfc8c18 + i" if "i < 4" for i
      using p2_block [of SB_GDST 4] SB_GDST_addr span_bus [of SB_GDST 4 i] that by simp
    then have "ld32 SB_GDST m3 = ld32 SB_GDST m2"
      by (intro agree_mem_ld32 [OF am3]) (simp add: scratch_def)
    then show ?thesis by (simp add: m2_def st32_done)
  qed
  moreover have "load_bytes (P2ADDR ?dest) (unat ?len) m3 = load_bytes (P2ADDR ?dest) (unat ?len) m1"
  proof -
    have "ld8 (P2ADDR ?dest + word_of_nat i) m3 = ld8 (P2ADDR ?dest + word_of_nat i) m1" if "i < unat ?len" for i
    proof -
      have u: "unat (P2ADDR ?dest) = unat ?dest + 0xa0000000"
        using d by (intro unat_P2ADDR_phys) linarith
      then have b: "span (P2ADDR ?dest) (unat ?len)" "unat (bus (P2ADDR ?dest)) = unat ?dest"
        using p2_block [of "P2ADDR ?dest" "unat ?len"] assms(6) d by simp_all
      have q: "unat (bus (P2ADDR ?dest + word_of_nat i)) = unat ?dest + i"
        using span_bus [OF b(1) that] b(2) by simp
      then have ns: "\<not> scratch (bus (P2ADDR ?dest + word_of_nat i))"
        using assms(6) d that by (simp add: scratch_def)
      have "ram m2 (bus (P2ADDR ?dest + word_of_nat i)) = ram m1 (bus (P2ADDR ?dest + word_of_nat i))"
        "dcache m2 (bus (P2ADDR ?dest + word_of_nat i)) = dcache m1 (bus (P2ADDR ?dest + word_of_nat i))"
        using st32_done(2) [of "bus (P2ADDR ?dest + word_of_nat i)" m1] q d that by (auto simp: m2_def)
      then show ?thesis
        using am3 ns by (auto simp: agree_mem_def ld8_def split: option.split)
    qed
    then show ?thesis by (simp add: load_bytes_def)
  qed
  moreover have "pb_left (cartd m2) = pb_left (cartd m)" "cart_count (cartd m2) = cart_count (cartd m) + 1"
    using l cart_marks_cartd [of E m0] h0 by (simp_all add: m2_def landed_def harmless_def)
  moreover have "cartd m3 = cartd m3'" "cartd m2' = cartd m2"
    using h2 h3 by (simp_all add: harmless_def)
  ultimately show ?thesis
    using sv lb by (simp add: m3'_def pb_step_left w_cart_def)
qed

section \<open>Which codes a cartridge read can die with\<close>

lemma poll_end_codes: "poll_end a b r \<Longrightarrow> die_codes {4, 5} r"
  by (auto simp: poll_end_def die_codes_def)

lemma dcache_inval_codes: "die_codes S (dcache_inval p len m)"
  by (simp add: dcache_inval_def Let_def split: option.split)

lemma gd_loops_codes:
  "die_codes {4, 5} (gd_pio_loop E as dst fad n m)" "die_codes {4, 5} (gd_dma_loop E as dst fad n m)"
  by (induction as arbitrary: m)
    (auto intro!: die_codes_bindo poll_end_codes [OF gd_recover_end]
      poll_end_codes [OF gd_attempt_end] dcache_inval_codes)

lemma gd_or_die_codes:
  "die_codes {4, 5} (gd_or_die E dst fad n m)" "die_codes {4, 5} (gd_or_die_dma E dst fad n m)"
  by (auto simp: gd_or_die_def gd_or_die_dma_def gd_read_sectors_def gd_read_sectors_dma_def
      intro!: die_codes_bindo gd_loops_codes simp del: gd_pio_loop.simps gd_dma_loop.simps)

lemma cart_read_codes: "die_codes {4, 5} (cart_read E off len dest m)"
  by (auto simp: cart_read_def cart_head_def cart_body_def cart_tail_def Let_def
      intro!: die_codes_bindo gd_or_die_codes)

section \<open>The progress counter\<close>

lemma pb_step_unat:
  "SHIM_LOADBAR E \<Longrightarrow> unat (pb_left (cartd (pb_step E len m))) = unat (pb_left (cartd m)) - unat len"
  by (simp add: pb_step_left word_le_nat_alt unat_sub)

lemma pb_fold:
  "SHIM_LOADBAR E \<Longrightarrow> unat (pb_left (cartd (fold (pb_step E) lens m)))
    = unat (pb_left (cartd m)) - sum_list (map unat lens)"
  by (induction lens arbitrary: m) (simp_all add: pb_step_unat)

text \<open>A step paints the bar for the bytes that have arrived with it.\<close>

lemma pb_step_pixel:
  assumes "SHIM_LOADBAR E" "pb_left (cartd m) \<noteq> 0" "x < 640" "y < 480" "unat (pb_left (cartd (pb_step E len m))) \<le> 10485760"
  shows "get_px (live_fb m) (y * 640 + x) (pb_step E len m) =
    loadbar_picture ((10485760 - unat (pb_left (cartd (pb_step E len m)))) div 32768) x y (get_px (live_fb m) (y * 640 + x) m)"
proof -
  define left where "left = pb_left (cartd (pb_step E len m))"
  let ?m = "m\<lparr>cartd := (cartd m)\<lparr>pb_left := left\<rparr>\<rparr>"
  have l: "left = (if len \<ge> pb_left (cartd m) then 0 else pb_left (cartd m) - len)"
    using assms(1) by (simp add: left_def pb_step_left)
  have p: "pb_step E len m = loadbar_paint (drop_bit 15 (PB_TOTAL - left)) ?m"
    unfolding l using assms(1,2) by (simp add: pb_step_def Let_def)
  have "unat (drop_bit 15 (PB_TOTAL - left)) = (10485760 - unat left) div 32768"
    using assms(5) by (simp add: drop_bit_eq_div unat_div unat_sub word_le_nat_alt PB_TOTAL_def left_def)
  moreover have "live_fb ?m = live_fb m" "get_px fb i ?m = get_px fb i m" for fb i
    by (simp_all add: live_fb_def get_px_def ld16_def)
  ultimately have "get_px (live_fb m) (y * 640 + x) (loadbar_paint (drop_bit 15 (PB_TOTAL - left)) ?m) =
      loadbar_picture ((10485760 - unat left) div 32768) x y (get_px (live_fb m) (y * 640 + x) m)"
    using loadbar_paint_pixel [OF assms(3,4), of ?m] by simp
  then show ?thesis by (simp only: p [symmetric] left_def [symmetric])
qed

text \<open>The columns of the bar: one for every 32 KiB of the 10 MiB, all of them at the end.\<close>

lemma bar_columns: "(10485760 - n) div 32768 \<le> (320 :: nat)" "(10485760 - n) div 32768 = 320 \<longleftrightarrow> n = (0 :: nat)"
proof -
  show "(10485760 - n) div 32768 \<le> 320" using div_le_mono [of "10485760 - n" 10485760 32768] by simp
  have "(10485760 - n) div 32768 < 320" if "0 < n"
    using that less_mult_imp_div_less [of "10485760 - n" 320 32768] by simp
  then show "(10485760 - n) div 32768 = 320 \<longleftrightarrow> n = 0" by (cases "n = 0") auto
qed

lemma head_skip_take:
  "unat (head_skip (cart_split off len)) + unat (head_take (cart_split off len)) \<le> 2048"
proof (cases "unat (head_take (cart_split off len)) = 0")
  case True
  then show ?thesis by (simp add: cart_split_def Let_def unat_mod2048 less_imp_le)
qed (use split_head [of off len] in simp)

end
