(* ===== verification/Demo.thy ===== *)
theory Demo
  imports Cart_Lemmas
begin

text \<open>
  A concrete world, used to show that the hypotheses of the properties can hold: a GD backend that
  keeps its request in six words of work RAM, answers one status check with \<^verbatim>\<open>PROCESSING\<close> and then
  delivers, and a machine whose game has programmed a cartridge transfer.
\<close>

definition demo_disc :: "nat \<Rightarrow> u8" where
  "demo_disc i = word_of_nat i"

fun disc_vector :: "(nat \<Rightarrow> u8) \<Rightarrow> u32 \<Rightarrow> block4 option \<Rightarrow> u32 \<Rightarrow> machine \<Rightarrow> u32 \<times> block4 \<times> machine" where
  "disc_vector disc c blk f m =
     (if f = GD_SEND then
        (case blk of
           Some (fad, n, dst, t) \<Rightarrow> (1, (fad, n, dst, t), m\<lparr>bios := [1, c, fad, n, dst, 1]\<rparr>)
         | None \<Rightarrow> (0, (0, 0, 0, 0), m))
      else if f = GD_CHECK then
        (case bios m of
           [req, cmd, fad, n, dst, k] \<Rightarrow>
             if k = 0 then (2, (0, 0, 0, 0), store_bytes (gd_tgt cmd dst) (sectors disc fad n) m)
             else (1, (0, 0, 0, 0), m\<lparr>bios := [req, cmd, fad, n, dst, k - 1]\<rparr>)
         | _ \<Rightarrow> (0, (0, 0, 0, 0), m))
      else (0, (0, 0, 0, 0), m))"

abbreviation demo_vector :: "u32 \<Rightarrow> block4 option \<Rightarrow> u32 \<Rightarrow> machine \<Rightarrow> u32 \<times> block4 \<times> machine" where
  "demo_vector \<equiv> disc_vector demo_disc"

definition demo_job :: "u32 list \<Rightarrow> gd_job option" where
  "demo_job b = (case b of
     [req, cmd, fad, n, dst, k] \<Rightarrow> Some (req, cmd, fad, n, dst, unat k)
   | _ \<Rightarrow> None)"

definition demo_env :: env where
  "demo_env = \<lparr>CART_FAD = 451878, SHIM_CDXA = False, SHIM_GD_DMA = True, SHIM_GD_STACK = True,
     SHIM_LOADBAR = True, SHIM_HUD = False, SHIM_TRACE = False, SHIM_SERIAL = False,
     SHIM_LOADSTAT = False, SHIM_PROBES = False, SHIM_GD_DIAG = False,
     gd_vector = demo_vector, uninit = (0, 0, 0, 0), maple_hw = (\<lambda>m. m), scif_hw = (\<lambda>m. m),
     engine = (\<lambda>m. (0, m)), stc_spc = (\<lambda>m. 0), stc_vbr = (\<lambda>m. 0), stc_sgr = (\<lambda>m. 0), vid_sdk = (\<lambda>a b c d m. (0, m)), blob_bytes = (\<lambda>b. replicate 256 0)\<rparr>"

lemma demo_env_simps [simp]:
  "CART_FAD demo_env = 451878" "\<not> SHIM_CDXA demo_env" "SHIM_GD_DMA demo_env" "SHIM_GD_STACK demo_env"
  "SHIM_LOADBAR demo_env" "\<not> SHIM_HUD demo_env" "\<not> SHIM_TRACE demo_env" "\<not> SHIM_SERIAL demo_env"
  "\<not> SHIM_LOADSTAT demo_env" "\<not> SHIM_PROBES demo_env" "\<not> SHIM_GD_DIAG demo_env"
  "gd_vector demo_env = demo_vector" "maple_hw demo_env = (\<lambda>m. m)" "engine demo_env = (\<lambda>m. (0, m))"
  "vid_sdk demo_env = (\<lambda>a b c d m. (0, m))" "blob_bytes demo_env = (\<lambda>b. replicate 256 0)"
  by (simp_all add: demo_env_def)

lemma demo_job_Some:
  "demo_job b = Some (req, cmd, fad, n, dst, k) \<longleftrightarrow> (\<exists>w. b = [req, cmd, fad, n, dst, w] \<and> unat w = k)"
  by (auto simp: demo_job_def split: list.splits)

lemma disc_drive_ok:
  assumes "gd_vector E = disc_vector disc"
  shows "drive_ok E demo_job disc"
  unfolding drive_ok_def
proof (intro conjI)
  show "drive_send E demo_job"
    by (auto simp: assms drive_send_def demo_job_Some agree_def)
  show "drive_exec E demo_job"
    by (auto simp: assms drive_exec_def progress_def src_consts)
  have k: "unat (w - 1 :: u32) = unat w - 1" if "w \<noteq> 0" for w
    using that by (metis unat_minus_one)
  have ne: "GD_CHECK \<noteq> GD_SEND" by (simp add: src_consts)
  show "drive_check E demo_job disc"
    unfolding drive_check_def demo_job_Some
  proof (intro allI impI, elim exE conjE)
    fix req cmd fad n dst k stat m s b m' w
    assume w: "bios m = [req, cmd, fad, n, dst, w]" "unat w = k"
      and v: "gd_vector E req (Some stat) GD_CHECK m = (s, b, m')"
    show "gds m' = gds m \<and> (if k = 0 then sint s = GD_COMPLETED \<and>
          delivered (gd_tgt cmd dst) (sectors disc fad n) m m'
        else sint s \<in> {0, 1, 3, 4} \<and> (\<exists>w'. bios m' = [req, cmd, fad, n, dst, w'] \<and> unat w' = k - 1) \<and>
          progress (gd_tgt cmd dst) (unat n * 2048) m m')"
      using v w k ne
      by (cases "w = 0") (auto simp: assms delivered_def progress_def GD_COMPLETED_def agree_def unat_gt_0)
  qed
qed

lemma demo_drive_ok: "drive_ok demo_env demo_job demo_disc"
  by (rule disc_drive_ok) simp

section \<open>A machine\<close>

definition demo_cpu :: cpu where
  "demo_cpu = \<lparr>sp = 0x8c00f000, pr = 0x8c03bc40, sr = 0x40000000, fpscr = 0x00140001, fpul = 7,
     fbank0 = map word_of_nat [0 ..< 16], fbank1 = map word_of_nat [100 ..< 116]\<rparr>"

definition demo_zero :: machine where
  "demo_zero = \<lparr>ram = (\<lambda>q. 0), dcache = (\<lambda>q. None), bios = [], io = [], cpu = demo_cpu,
     gds = gdstack_init, cartd = cart_init PB_TOTAL, gdd = gd_init, mapled = maple_init,
     utild = util_init, maind = main_init, diagd = diag_init\<rparr>"

text \<open>The game asks for 5000 bytes from offset 256 on, to \<^verbatim>\<open>0x8c100000\<close>.\<close>

definition demo_m :: machine where
  "demo_m = st32 (P2ADDR G1_MIRROR + 0x404) 0x8c100000 (st32 (P2ADDR G1_MIRROR + 0x408) 5000
     (st32 (P2ADDR G1_MIRROR + 0x10) 256 demo_zero))"

lemma demo_call_ok: "call_ok demo_env demo_zero" "call_ok demo_env demo_m"
  by (simp_all add: call_ok_def ctx_ok_def stack_ok_def demo_m_def demo_zero_def demo_cpu_def)

lemma demo_regs: "cart_off demo_m = 256" "cart_len demo_m = 5000" "cart_dest demo_m = 0x0c100000"
  by code_simp+

end
