(* ===== verification/Drive_Props.thy ===== *)
theory Drive_Props
  imports Demo
begin

text \<open>
  The properties of the cartridge path: \<^verbatim>\<open>cart.c\<close>, \<^verbatim>\<open>gd.c\<close>, \<^verbatim>\<open>gdstack.S\<close> and the load bar of
  \<^verbatim>\<open>util.c\<close>, each with a witness where it has hypotheses.
\<close>

section \<open>Cartridge service\<close>

text \<open>
  C1. On a working drive, a request that passes the fence and whose buffer lies above system work
  RAM is served: the routine returns, the destination holds exactly the requested bytes of the
  cartridge, the mirrored \<^verbatim>\<open>SB_GDST\<close> reads 0, nothing else outside the scratch area and the sector
  buffer has changed, and the boot progress counter has gone down by the length.
\<close>

theorem cart_service_delivers:
  assumes "drive_ok E job disc" "call_ok E m" "\<not> SHIM_SERIAL E" "unat (CART_FAD E) < 0x80000000"
    and "cart_fence (unat (cart_off m)) (unat (cart_len m)) (unat (cart_dest m))"
    and "0x0c010000 \<le> unat (cart_dest m)"
  shows "\<exists>m1. shim_cart_service E m = Ret () m1 \<and>
    load_bytes (P2ADDR (cart_dest m)) (unat (cart_len m)) m1
      = map (\<lambda>i. disc (unat (CART_FAD E) * 2048 + i)) [unat (cart_off m) ..< unat (cart_off m) + unat (cart_len m)] \<and>
    ld32 SB_GDST m1 = 0 \<and> untouched (cart_dest m) (cart_len m) m m1 \<and>
    pb_left (cartd m1) = (if SHIM_LOADBAR E then (if cart_len m \<ge> pb_left (cartd m) then 0
      else pb_left (cartd m) - cart_len m) else pb_left (cartd m))"
  using cart_service_ok [OF assms] by blast

lemma cart_service_delivers_witness:
  "\<exists>m1. shim_cart_service demo_env demo_m = Ret () m1 \<and> ld32 SB_GDST m1 = 0 \<and>
    load_bytes (P2ADDR 0x0c100000) 5000 m1
      = map (\<lambda>i. demo_disc (451878 * 2048 + i)) [256 ..< 256 + 5000]"
proof -
  have u: "unat (cart_off demo_m) = 256" "unat (cart_len demo_m) = 5000"
    "unat (cart_dest demo_m) = 0x0c100000" "unat (CART_FAD demo_env) = 451878"
    by (simp_all add: demo_regs)
  have "\<not> SHIM_SERIAL demo_env" "unat (CART_FAD demo_env) < 0x80000000"
    "cart_fence (unat (cart_off demo_m)) (unat (cart_len demo_m)) (unat (cart_dest demo_m))"
    "0x0c010000 \<le> unat (cart_dest demo_m)"
    by (simp_all add: u cart_fence_def)
  from cart_service_delivers [OF demo_drive_ok demo_call_ok(2) this]
  obtain m1 where "shim_cart_service demo_env demo_m = Ret () m1" "ld32 SB_GDST m1 = 0"
    "load_bytes (P2ADDR (cart_dest demo_m)) (unat (cart_len demo_m)) m1
      = map (\<lambda>i. demo_disc (unat (CART_FAD demo_env) * 2048 + i))
          [unat (cart_off demo_m) ..< unat (cart_off demo_m) + unat (cart_len demo_m)]"
    by (elim exE conjE)
  from this [unfolded u] show ?thesis
    unfolding demo_regs(3) by (intro exI conjI)
qed

text \<open>
  C7. The split of a request is exact: head, body and tail together hold the requested slice of the
  cartridge, byte for byte and in order; the head stays inside its sector and the tail is less than
  one sector.
\<close>

theorem cart_split_tiles:
  "split_bytes cart (cart_split off len) = map cart [unat off ..< unat off + unat len] \<and>
   unat (head_take (cart_split off len)) + 2048 * unat (body_sect (cart_split off len))
     + unat (tail_take (cart_split off len)) = unat len \<and>
   unat (head_skip (cart_split off len)) + unat (head_take (cart_split off len)) \<le> 2048 \<and>
   unat (tail_take (cart_split off len)) < 2048"
  using split_bytes_cart [of cart off len] split_takes_sum [of off len] head_skip_take [of off len]
  by (simp add: unat_tail_take ac_simps)

text \<open>
  C6. The routine dies with code 2 exactly on the requests outside the fence, whatever the drive
  does: an empty or oversized request, one past the end of the cartridge, or one whose destination
  is not main memory below the shim's home. None of the 32-bit sums of the check can wrap.
\<close>

theorem cart_fence_exact:
  "(\<exists>a b m1. shim_cart_service E m = Die 2 a b m1) \<longleftrightarrow>
    \<not> cart_fence (unat (cart_off m)) (unat (cart_len m)) (unat (cart_dest m))"
proof -
  have "die_codes {4, 5} (shim_cart_service E m)" if "\<not> cart_refused (cart_off m) (cart_len m) (cart_dest m)"
    using that by (simp add: shim_cart_service_def Let_def die_codes_bindo cart_read_codes)
  moreover have "\<exists>m1. shim_cart_service E m = Die 2 (cart_off m) (cart_dest m) m1"
    if "cart_refused (cart_off m) (cart_len m) (cart_dest m)"
    using that by (simp add: shim_cart_service_def Let_def shim_die_Die)
  ultimately show ?thesis
    unfolding cart_refused_fence [OF unat_off unat_dest] by (auto simp: die_codes_def)
qed

section \<open>GD reads\<close>

text \<open>
  C11. On a working drive a PIO read returns 0 and the requested sectors are in the destination;
  nothing else has changed.
\<close>

theorem gd_read_delivers:
  assumes "drive_ok E job disc" "call_ok E m" "gd_req_ok CMD_PIOREAD dst n"
  shows "\<exists>m1. gd_read_sectors E dst fad n m = Ret 0 m1 \<and> delivered dst (sectors disc fad n) m m1"
  using gd_read_sectors_ok [OF assms(1,3,2)] by blast

lemma gd_read_delivers_witness:
  "\<exists>m1. gd_read_sectors demo_env 0xac200000 451900 3 demo_zero = Ret 0 m1 \<and>
     delivered 0xac200000 (sectors demo_disc 451900 3) demo_zero m1"
  by (rule gd_read_delivers [OF demo_drive_ok demo_call_ok(1)])
    (simp add: gd_req_ok_def gd_tgt_def src_consts span_def bus_def)

text \<open>
  C10. On a working drive a DMA read to a 32-byte-aligned buffer returns 0, the sectors are in
  memory, and the cached view of the buffer shows them too: no stale line survives.
\<close>

theorem gd_dma_coherent:
  assumes "drive_ok E job disc" "call_ok E m" "unat p mod 32 = 0" "0x0c010000 \<le> unat p"
    and "unat p + unat n * 2048 \<le> 0x0cfc0000"
  shows "\<exists>m1. gd_read_sectors_dma E p fad n m = Ret 0 m1 \<and>
    landed (unat p) (sectors disc fad n) m m1 \<and>
    load_bytes (p OR 0x80000000) (unat n * 2048) m1 = sectors disc fad n"
  using gd_dma_fresh [OF assms] by blast

lemma gd_dma_coherent_witness:
  "\<exists>m1. gd_read_sectors_dma demo_env 0x0c200020 451900 3 demo_zero = Ret 0 m1 \<and>
    landed 0x0c200020 (sectors demo_disc 451900 3) demo_zero m1 \<and>
    load_bytes 0x8c200020 6144 m1 = sectors demo_disc 451900 3"
  using gd_dma_coherent [OF demo_drive_ok demo_call_ok(1), where p = "0x0c200020" and n = 3 and fad = 451900] by simp

text \<open>
  C13. Whatever the drive does, a PIO read ends, and in one of four ways: success, failure reported
  as -2, or the fatal screen with code 5 of the read's own hang detector or of the re-init's.
\<close>

theorem gd_read_outcomes:
  "(\<exists>m1. gd_read_sectors E dst fad n m = Ret 0 m1) \<or>
   (\<exists>m1. gd_read_sectors E dst fad n m = Ret (- 2) m1) \<or>
   (\<exists>m1. gd_read_sectors E dst fad n m = Die 5 fad n m1) \<or>
   (\<exists>m1. gd_read_sectors E dst fad n m = Die 5 0xdead1217 0 m1)"
  using gd_pio_loop_end [of fad n E "[0, 1, 2, 3]" dst m]
  by (simp only: gd_read_sectors_def read_end_def)

text \<open>
  C12. The retry protocol: a read succeeds exactly if one of its four attempts does, every earlier
  one having failed and been followed by a recovery; it returns -2 exactly if all four failed.
\<close>

theorem gd_read_retries:
  "(gd_read_sectors E dst fad n m = Ret 0 m' \<longleftrightarrow>
     (\<exists>j < 4. \<exists>m1. tried E dst fad n j m m1 \<and> gd_attempt E CMD_PIOREAD id dst fad n m1 = Ret True m')) \<and>
   (gd_read_sectors E dst fad n m = Ret (- 2) m' \<longleftrightarrow> failed E dst fad n 4 m m')"
  using read_sectors_Ret by blast

definition demo_refusing :: env where
  "demo_refusing = demo_env\<lparr>gd_vector := \<lambda>c blk f m. (0, (0, 0, 0, 0), m)\<rparr>"

lemma gd_read_retries_witness:
  "\<exists>m'. failed demo_refusing 0xac200000 451900 1 4 demo_zero m'"
proof -
  have "refuses demo_refusing"
    by (simp add: refuses_def demo_refusing_def)
  then obtain m1 where "gd_pio_loop demo_refusing [0, 1, 2, 3] 0xac200000 451900 1 demo_zero = Ret (- 2) m1"
    using refused_loop by (metis list.distinct(1))
  then show ?thesis
    using gd_read_retries [where E = demo_refusing and dst = "0xac200000" and fad = 451900 and n = 1
        and m = demo_zero and m' = m1]
    by (auto simp: gd_read_sectors_def)
qed

text \<open>
  C14. When the drive refuses every command, the read returns -2 and leaves the code of a refused
  send, \<^verbatim>\<open>0xcafe0002\<close>, for the fatal screen.
\<close>

theorem gd_read_refused:
  assumes "refuses E"
  shows "\<exists>m1. gd_read_sectors E dst fad n m = Ret (- 2) m1 \<and> gd_last_err (gdd m1) = 0xcafe0002"
  unfolding gd_read_sectors_def by (rule refused_loop [OF assms]) simp

lemma gd_read_refused_witness:
  "\<exists>m1. gd_read_sectors demo_refusing 0xac200000 451900 1 demo_zero = Ret (- 2) m1
     \<and> gd_last_err (gdd m1) = 0xcafe0002"
  by (rule gd_read_refused) (simp add: refuses_def demo_refusing_def)

text \<open>
  C15. The cache invalidation before a DMA always ends, and discards exactly the lines that the range
  touches.
\<close>

theorem dcache_inval_exact:
  assumes "unat p < 0x20000000" "unat p + unat len \<le> 0x20000000" "0 < unat len"
  shows "\<exists>m1. dcache_inval p len m = Ret () m1 \<and> ram m1 = ram m \<and>
    (\<forall>q. dcache m1 q = (if unat p div 32 \<le> unat q div 32 \<and> unat q div 32 \<le> (unat p + unat len - 1) div 32
       then None else dcache m q))"
proof -
  have "unat p div 32 + lines_of (unat p) (unat len) = (unat p + unat len - 1) div 32 + 1"
    using assms(3) div_le_mono [of "unat p" "unat p + unat len - 1" 32] by (auto simp: lines_of_def)
  then show ?thesis
    using dcache_inval_ok [OF assms(1,2)] by (auto simp: drop_lines_def line_def)
qed

lemma dcache_inval_exact_witness:
  "\<exists>m1. dcache_inval 0x0c100010 100 demo_zero = Ret () m1 \<and> ram m1 = ram demo_zero"
  using dcache_inval_exact [where p = "0x0c100010" and len = 100 and m = demo_zero] by auto

section \<open>The syscall wrapper\<close>

text \<open>
  C16. Around a backend that keeps the C calling convention, the wrapper gives the caller its whole
  context back: stack pointer, return address, \<^verbatim>\<open>FPSCR\<close>, \<^verbatim>\<open>FPUL\<close> and both floating-point banks.
\<close>

theorem gdc_call_context:
  assumes "ctx_ok m" "gd_vector E c blk f (gdc_entry m) = (r, b, m1)" "abi_ok (gdc_entry m) m1"
  shows "\<exists>m'. gdc_call E c blk f m = (r, b, m') \<and> cpu m' = (cpu m)\<lparr>sr := sr (cpu m1)\<rparr>"
  using gdc_context [OF assms(1,3)] by (simp add: gdc_call_split assms(2))

lemma gdc_call_context_witness:
  "\<exists>m'. gdc_call demo_env 0 None GD_EXEC demo_zero = (0, (0, 0, 0, 0), m') \<and> sp (cpu m') = 0x8c00f000"
proof -
  have "gd_vector demo_env 0 None GD_EXEC (gdc_entry demo_zero) = (0, (0, 0, 0, 0), gdc_entry demo_zero)"
    by (simp add: src_consts)
  moreover have "ctx_ok demo_zero" using demo_call_ok(1) by (simp add: call_ok_def)
  ultimately have "\<exists>m'. gdc_call demo_env 0 None GD_EXEC demo_zero = (0, (0, 0, 0, 0), m') \<and>
    cpu m' = (cpu demo_zero)\<lparr>sr := sr (cpu (gdc_entry demo_zero))\<rparr>"
    by (intro gdc_call_context) (simp_all add: abi_ok_def)
  then show ?thesis by (auto simp: demo_zero_def demo_cpu_def)
qed

text \<open>
  C17. The MMU window: an isoldr backend runs with \<^verbatim>\<open>MMUCR\<close> clear and the caller's value is put
  back; for any other backend the wrapper never writes \<^verbatim>\<open>MMUCR\<close>.
\<close>

theorem gdc_call_mmu:
  assumes "ctx_ok m" "gd_vector E c blk f (gdc_entry m) = (r, b, m1)" "gds m1 = gds (gdc_entry m)"
  shows "\<exists>m'. gdc_call E c blk f m = (r, b, m') \<and>
    (if isoldr_probe m
     then ld32 MMUCR (gdc_entry m) = 0 \<and> ld32 MMUCR m' = ld32 MMUCR (gdc_save m) \<and>
       io m' = io m1 @ [(MMUCR, ld32 MMUCR (gdc_save m))]
     else io m' = io m1 \<and> io (gdc_entry m) = io (gdc_save m))"
  using gdc_mmu_window [OF assms(1,3)] gdc_save_probe [OF assms(1)]
  by (simp add: gdc_call_split assms(2)) (simp add: gdc_entry_def gdc_mmu_off_facts)

lemma gdc_call_mmu_witness:
  "\<exists>m'. gdc_call demo_env 0 None GD_EXEC demo_zero = (0, (0, 0, 0, 0), m')"
proof -
  have "gd_vector demo_env 0 None GD_EXEC (gdc_entry demo_zero) = (0, (0, 0, 0, 0), gdc_entry demo_zero)"
    by (simp add: src_consts)
  moreover have "ctx_ok demo_zero" using demo_call_ok(1) by (simp add: call_ok_def)
  ultimately show ?thesis
    using gdc_call_mmu [of demo_zero demo_env 0 None GD_EXEC 0 "(0, 0, 0, 0)" "gdc_entry demo_zero"]
    by blast
qed

section \<open>The load bar\<close>

text \<open>
  C28. The boot progress counter over a sequence of served reads: it counts the bytes down and stays
  at 0 once 10 MiB have passed. Each read paints the bar, pixel by pixel, with one column for every 32 KiB that
  have arrived: never more than 320 columns, and all of them exactly when the counter has reached 0. After
  that nothing is painted any more.
\<close>

theorem progress_counts_down:
  assumes "SHIM_LOADBAR E" "unat (pb_left (cartd m)) \<le> 10485760" "M = fold (pb_step E) lens m"
  shows "unat (pb_left (cartd M)) = unat (pb_left (cartd m)) - sum_list (map unat lens) \<and>
    (pb_left (cartd M) = 0 \<longrightarrow> pb_step E len M = M) \<and>
    (pb_left (cartd M) \<noteq> 0 \<longrightarrow> x < 640 \<longrightarrow> y < 480 \<longrightarrow>
      (\<exists>fill \<le> 320. fill = (10485760 - (unat (pb_left (cartd m)) - sum_list (map unat (lens @ [len])))) div 32768 \<and>
        (fill = 320 \<longleftrightarrow> pb_left (cartd (pb_step E len M)) = 0) \<and>
        get_px (live_fb M) (y * 640 + x) (pb_step E len M) =
          loadbar_picture fill x y (get_px (live_fb M) (y * 640 + x) M)))"
proof -
  let ?left = "unat (pb_left (cartd (pb_step E len M)))"
  let ?fill = "(10485760 - ?left) div 32768"
  have l: "unat (pb_left (cartd M)) = unat (pb_left (cartd m)) - sum_list (map unat lens)"
    using pb_fold [OF assms(1), of lens m] assms(3) by simp
  have left: "?left = unat (pb_left (cartd m)) - sum_list (map unat (lens @ [len]))"
    using pb_step_unat [OF assms(1), of len M] l by simp
  have "?fill \<le> 320" "?fill = 320 \<longleftrightarrow> pb_left (cartd (pb_step E len M)) = 0"
    by (simp_all only: bar_columns unat_eq_0)
  moreover have "get_px (live_fb M) (y * 640 + x) (pb_step E len M) =
      loadbar_picture ?fill x y (get_px (live_fb M) (y * 640 + x) M)"
    if "pb_left (cartd M) \<noteq> 0" "x < 640" "y < 480"
    using pb_step_pixel [OF assms(1) that] left assms(2) by simp
  ultimately show ?thesis
    using l left by (auto simp: pb_step_def)
qed

lemma progress_counts_down_witness:
  "unat (pb_left (cartd (fold (pb_step demo_env) [5000, 2048] demo_zero))) = 10478712 \<and>
   get_px (live_fb (fold (pb_step demo_env) [5000, 2048] demo_zero)) (421 * 640 + 161)
     (pb_step demo_env 0x10000 (fold (pb_step demo_env) [5000, 2048] demo_zero)) = 0x7984"
proof -
  let ?M = "fold (pb_step demo_env) [5000, 2048] demo_zero"
  have "unat (pb_left (cartd demo_zero)) = 10485760" by (simp add: demo_zero_def cart_init_def PB_TOTAL_def)
  moreover from this have l: "unat (pb_left (cartd ?M)) = 10478712"
    using progress_counts_down [of demo_env demo_zero ?M "[5000, 2048]" 0 0 0] by simp
  moreover have "pb_left (cartd ?M) \<noteq> 0" using l unat_eq_0 [of "pb_left (cartd ?M)"] by linarith
  ultimately show ?thesis
    using progress_counts_down [of demo_env demo_zero ?M "[5000, 2048]" "0x10000" 161 421]
    by (simp add: loadbar_picture_def)
qed

text \<open>
  C29. The picture the load bar paints in the live frame buffer, pixel by pixel: \<open>fill\<close> orange
  columns of a 320-pixel track, a black track to their right, a black outline two pixels away, and
  every other pixel as it was.
\<close>

theorem loadbar_pixels:
  assumes "x < 640" "y < 480"
  shows "get_px (live_fb m) (y * 640 + x) (loadbar_paint fill m) =
    loadbar_picture (unat fill) x y (get_px (live_fb m) (y * 640 + x) m)"
  by (rule loadbar_paint_pixel [OF assms])

lemma loadbar_pixels_witness:
  "get_px (live_fb demo_zero) (421 * 640 + 200) (loadbar_paint 100 demo_zero) = 0x7984"
  using loadbar_pixels [of 200 421 demo_zero 100] by (simp add: loadbar_picture_def)

end
