(* ===== verification/Loader.thy ===== *)
theory Loader
  imports Gd
begin

text \<open>
  \<^verbatim>\<open>loader/main.c\<close> and \<^verbatim>\<open>loader/handoff.S\<close>: the program KallistiOS starts from the disc. It shows the splash,
  reads the game image, rehearses the shim's GD path, patches the image, places the shim and the
  data the game expects, and hands over. \<open>LOADER_SERIAL\<close> is 0, so \<^verbatim>\<open>dbglog\<close> writes nothing and is left out.
\<close>

section \<open>What the loader is linked with\<close>

text \<open>
  A row of the generated patch table (the type that \<^verbatim>\<open>scripts/build_patch_table.py\<close> writes into
  \<^verbatim>\<open>patch_table.h\<close>).
\<close>

record patch_t =
  p_addr :: u32
  p_len :: u32
  p_old :: "u8 list"
  p_neu :: "u8 list"
  p_what :: string

text \<open>
  \<open>kos\<close>: the KallistiOS routines the loader calls, the address of its sector buffer, and the blobs
  that its Makefile embeds. \<open>cdrom_read_sectors\<close> returns whether the result was \<^verbatim>\<open>ERR_OK\<close>; \<open>vid_set_mode\<close>
  is the call with \<^verbatim>\<open>DM_640x480\<close> and \<^verbatim>\<open>PM_RGB555\<close>; \<open>arch_timer_gettime\<close> gives seconds and nanoseconds.
\<close>

type_synonym u64 = "64 word"

record kos =
  LOADER_QUIET :: bool
  LOADER_TIMING :: bool
  vram_s :: u32
  sysbuf :: u32
  vid_set_mode :: "machine \<Rightarrow> machine"
  bfont_draw_str :: "u32 \<Rightarrow> u32 \<Rightarrow> u32 \<Rightarrow> string \<Rightarrow> machine \<Rightarrow> machine"
  cdrom_reinit :: "machine \<Rightarrow> machine"
  cdrom_read_sectors :: "u32 \<Rightarrow> u32 \<Rightarrow> u32 \<Rightarrow> machine \<Rightarrow> bool \<times> machine"
  dcache_purge_range :: "u32 \<Rightarrow> u32 \<Rightarrow> machine \<Rightarrow> machine"
  irq_disable :: "machine \<Rightarrow> machine"
  arch_timer_gettime :: "machine \<Rightarrow> u64 \<times> u64"
  splash_bin :: "u8 list"
  shim_bin :: "u8 list"
  bios_data :: "u8 list"
  handoff_stub :: "u8 list"
  cleo_patches :: "patch_t list"

text \<open>The loader's state: the machine and the statics of the file.\<close>

record loader =
  mach :: machine
  say_row :: u32
  tmk_us :: "u64 list"
  tmk_lbl :: "string list"
  tmk_n :: nat

definition loader_init :: "machine \<Rightarrow> loader" where
  "loader_init m = \<lparr>mach = m, say_row = 0, tmk_us = replicate 16 0, tmk_lbl = replicate 16 [], tmk_n = 0\<rparr>"

definition on_mach :: "(machine \<Rightarrow> machine) \<Rightarrow> loader \<Rightarrow> loader" where
  "on_mach f l = l\<lparr>mach := f (mach l)\<rparr>"

text \<open>A stage goes on, stops for good on a red screen, or has jumped into the game.\<close>

datatype 'a boot = Go 'a loader | Halted string machine | Jumped u32 machine

fun bindb :: "'a boot \<Rightarrow> ('a \<Rightarrow> loader \<Rightarrow> 'b boot) \<Rightarrow> 'b boot" where
  "bindb (Go a l) f = f a l"
| "bindb (Halted s m) f = Halted s m"
| "bindb (Jumped e m) f = Jumped e m"

section \<open>The screen\<close>

definition HANDOFF_SCRATCH :: u32 where [src_consts]: "HANDOFF_SCRATCH = 0x8ce00000"
definition GAME_SECTORS :: u32 where [src_consts]: "GAME_SECTORS = GAME_LEN div 2048"

definition say :: "kos \<Rightarrow> string \<Rightarrow> loader \<Rightarrow> loader" where
  "say K s l =
     (if LOADER_QUIET K then l
      else l\<lparr>mach := bfont_draw_str K (vram_s K + 2 * ((40 + say_row l * 26) * 640 + 20)) 640 1 s (mach l),
             say_row := say_row l + 1\<rparr>)"

definition halt :: "kos \<Rightarrow> string \<Rightarrow> loader \<Rightarrow> 'a boot" where
  "halt K msg l =
     (let m1 = fold (\<lambda>i. put_px (vram_s K) i 0xf800) [0 ..< 640 * 480] (mach l)
      in Halted msg (bfont_draw_str K (vram_s K + 2 * (100 * 640 + 20)) 640 1 msg m1))"

definition splash_px :: "kos \<Rightarrow> nat \<Rightarrow> u16" where
  "splash_px K i = ucast (splash_bin K ! (2 * i)) OR push_bit 8 (ucast (splash_bin K ! (2 * i + 1)))"

definition loader_splash :: "kos \<Rightarrow> machine \<Rightarrow> machine" where
  "loader_splash K m =
     (if LOADER_QUIET K
      then fold (\<lambda>i. put_px (vram_s K) i (RGB565_TO_0555 (splash_px K i))) [0 ..< 640 * 480] (vid_set_mode K m)
      else m)"

section \<open>Load-stage timing\<close>

definition tmark :: "kos \<Rightarrow> string \<Rightarrow> loader \<Rightarrow> loader" where
  "tmark K lbl l =
     (if LOADER_TIMING K \<and> tmk_n l < 16 then
        (let (sec, nsec) = arch_timer_gettime K (mach l)
         in l\<lparr>tmk_us := (tmk_us l)[tmk_n l := sec * 1000000 + nsec div 1000],
              tmk_lbl := (tmk_lbl l)[tmk_n l := lbl], tmk_n := tmk_n l + 1\<rparr>)
      else l)"

text \<open>\<^verbatim>\<open>%lu\<close>, \<^verbatim>\<open>%4lu\<close>, \<^verbatim>\<open>%03lu\<close> and \<^verbatim>\<open>%-16s\<close> of the standard library.\<close>

fun dec :: "nat \<Rightarrow> string" where
  "dec n = (if n < 10 then [char_of (48 + n)] else dec (n div 10) @ [char_of (48 + n mod 10)])"

declare dec.simps [simp del]

definition pad_left :: "nat \<Rightarrow> char \<Rightarrow> string \<Rightarrow> string" where
  "pad_left w c s = replicate (w - length s) c @ s"

definition pad_right :: "nat \<Rightarrow> string \<Rightarrow> string" where
  "pad_right w s = s @ replicate (w - length s) CHR '' ''"

text \<open>A line of the report, cut to the 48-byte buffer; the two numbers are 32-bit.\<close>

definition timing_text :: "string \<Rightarrow> u64 \<Rightarrow> string" where
  "timing_text lbl d =
     pad_right 16 lbl @ '' '' @ pad_left 4 CHR '' '' (dec (unat (ucast (d div 1000) :: u32))) @ ''.''
       @ pad_left 3 CHR ''0'' (dec (unat (ucast (d mod 1000) :: u32))) @ '' ms''"

definition timing_line :: "string \<Rightarrow> u64 \<Rightarrow> string" where
  "timing_line lbl d = take 47 (timing_text lbl d)"

definition tmark_row :: "kos \<Rightarrow> nat \<Rightarrow> string \<Rightarrow> machine \<Rightarrow> machine" where
  "tmark_row K i s = bfont_draw_str K (vram_s K + 2 * ((180 + word_of_nat i * 26) * 640 + 20)) 640 1 s"

definition tmark_dump :: "kos \<Rightarrow> loader \<Rightarrow> loader" where
  "tmark_dump K l =
     (if LOADER_TIMING K then
        (let us = tmk_us l; n = tmk_n l;
             rows = fold (\<lambda>i. tmark_row K i (timing_line (tmk_lbl l ! i) (us ! i - us ! (i - 1)))) [1 ..< n]
         in on_mach (tmark_row K n (timing_line ''TOTAL'' (us ! (n - 1) - us ! 0))) (on_mach rows l))
      else l)"

section \<open>The rehearsal of the GD path\<close>

function sysrd_poll :: "env \<Rightarrow> u32 \<Rightarrow> u32 \<Rightarrow> block4 \<Rightarrow> machine \<Rightarrow> int \<times> machine" where
  "sysrd_poll E req guard stat m =
     (if guard < 100000000 then
        (case gd_vector E 0 None 2 m of (r, b, m1) \<Rightarrow>
         case gd_vector E req (Some stat) 1 m1 of (s, stat1, m2) \<Rightarrow>
           if sint s = 2 then (0, m2)
           else if sint s = 0 \<or> sint s \<le> - 1 then (- 2, m2)
           else sysrd_poll E req (guard + 1) stat1 m2)
      else (- 3, m))"
  by pat_completeness auto
termination
proof (relation "measure (\<lambda>(E, req, guard, stat, m). 100000000 - unat guard)", goal_cases)
  case (2 E req guard)
  then have "unat guard < 100000000" by (simp add: word_less_nat_alt)
  then show ?case using unat_add_lt [of guard 1] by simp
qed simp

declare sysrd_poll.simps [simp del]

definition sysrd_test :: "env \<Rightarrow> u32 \<Rightarrow> u32 \<Rightarrow> u32 \<Rightarrow> machine \<Rightarrow> int \<times> machine" where
  "sysrd_test E dst fad n m =
     (case gd_vector E 16 (Some (fad, n, dst, 0)) 0 m of (req, b, m1) \<Rightarrow>
        if sint req \<le> 0 then (- 1, m1) else sysrd_poll E req 0 (uninit E) m1)"

section \<open>Patching\<close>

text \<open>Verify the old bytes of a row, then write the new ones; the first mismatch stops.\<close>

fun apply_patches :: "patch_t list \<Rightarrow> u32 \<Rightarrow> machine \<Rightarrow> int \<times> machine" where
  "apply_patches [] img m = (0, m)"
| "apply_patches (p # ps) img m =
     (let at = img + (p_addr p - GAME_LOAD_ADDR); n = unat (p_len p)
      in if load_bytes at n m \<noteq> take n (p_old p) then (- 1, m)
         else apply_patches ps img (store_bytes at (take n (p_neu p)) m))"

section \<open>The stages of \<^verbatim>\<open>main\<close>\<close>

definition naomi :: "u8 list" where
  "naomi = map of_char ''NAOMI''"

definition loader_read :: "env \<Rightarrow> kos \<Rightarrow> loader \<Rightarrow> unit boot" where
  "loader_read E K l =
     (let l1 = say K ''CLEO LOADER M2'' l;
          l2 = tmark K ''gd init'' (say K ''GD init OK'' (on_mach (cdrom_reinit K) l1));
          (ok, m) = cdrom_read_sectors K STAGING_ADDR (CART_FAD E) GAME_SECTORS (mach l2);
          l3 = l2\<lparr>mach := m\<rparr>
      in if \<not> ok then halt K ''KOS GD READ FAIL'' l3
         else let l4 = tmark K ''read 1MB PIO'' l3
              in if load_bytes STAGING_ADDR 5 m \<noteq> naomi then halt K ''BAD IMAGE (KOS READ)'' l4
                 else Go () (say K ''cart read OK (KOS)'' l4))"

definition loader_rehearse :: "env \<Rightarrow> kos \<Rightarrow> loader \<Rightarrow> unit boot" where
  "loader_rehearse E K l =
     (let (sr, m) = sysrd_test E (sysbuf K) (CART_FAD E) 1 (mach l); l1 = l\<lparr>mach := m\<rparr>
      in if sr = - 3 then halt K ''SYSCALL GD POLL HANG'' l1
         else if sr \<noteq> 0 then halt K ''SYSCALL GD READ FAIL'' l1
         else if load_bytes (sysbuf K) 5 m \<noteq> naomi then halt K ''BAD IMAGE (SYSCALL READ)'' l1
         else Go () (tmark K ''syscall rd'' (say K ''cart read OK (BIOS syscall)'' l1)))"

definition loader_patch :: "kos \<Rightarrow> loader \<Rightarrow> unit boot" where
  "loader_patch K l =
     (let (r, m) = apply_patches (cleo_patches K) STAGING_ADDR (mach l); l1 = l\<lparr>mach := m\<rparr>
      in if r \<noteq> 0 then halt K ''PATCH ABORT'' l1 else Go () (tmark K ''patches+log'' (say K ''patches OK'' l1)))"

text \<open>\<^verbatim>\<open>for (i = 0; i < n; i++) mir[i] = 0\<close>.\<close>

definition zero_words :: "u32 \<Rightarrow> nat \<Rightarrow> machine \<Rightarrow> machine" where
  "zero_words a n m = fold (\<lambda>i. st32 (a + 4 * word_of_nat i) 0) [0 ..< n] m"

definition place :: "kos \<Rightarrow> machine \<Rightarrow> machine" where
  "place K m =
     (let shim_len = word_of_nat (length (shim_bin K));
          m1 = store_bytes SHIM_BASE (shim_bin K) m;
          m2 = store_bytes (SHIM_BASE + shim_len) (replicate (unat (SHIM_CODE_MAX - shim_len)) 0) m1;
          m3 = store_bytes BIOS_DATA_60000 (take (unat BIOS_DATA_60000_LEN) (bios_data K)) m2;
          m4 = store_bytes BIOS_DATA_1FFD00
                 (take (unat BIOS_DATA_1FFD00_LEN) (drop (unat BIOS_DATA_60000_LEN) (bios_data K))) m3;
          m5 = zero_words (P2ADDR G1_MIRROR) (0x800 div 4) m4;
          m6 = zero_words (P2ADDR MAPLE_MIRROR) (unat (MAPLE_MIRROR_LEN div 4)) m5
      in store_bytes HANDOFF_SCRATCH (handoff_stub K) m6)"

definition purge_all :: "kos \<Rightarrow> machine \<Rightarrow> machine" where
  "purge_all K m =
     (let ho_len = word_of_nat (length (handoff_stub K));
          m1 = dcache_purge_range K STAGING_ADDR GAME_LEN m;
          m2 = dcache_purge_range K SHIM_BASE SHIM_CODE_MAX m1;
          m3 = dcache_purge_range K HANDOFF_SCRATCH ho_len m2;
          m4 = dcache_purge_range K BIOS_DATA_60000 BIOS_DATA_60000_LEN m3
      in dcache_purge_range K BIOS_DATA_1FFD00 BIOS_DATA_1FFD00_LEN m4)"

text \<open>MMU off, graphics reset pulsed, latched interrupts dropped.\<close>

definition TA_SOFTRESET :: u32 where [src_consts]: "TA_SOFTRESET = 0xa05f8008"
definition SB_ISTERR :: u32 where [src_consts]: "SB_ISTERR = 0xa05f690c"

definition quiesce :: "machine \<Rightarrow> machine" where
  "quiesce m =
     reg_w SB_ISTERR 0xffffffff (reg_w SB_ISTNRM 0xffffffff
       (reg_w TA_SOFTRESET 0 (reg_w TA_SOFTRESET 3 (reg_w MMUCR 0 m))))"

section \<open>The hand-over stub\<close>

definition CCR :: u32 where [src_consts]: "CCR = 0xff00001c"
definition CCR_VALUE :: u32 where [src_consts]: "CCR_VALUE = 0x0000090d"

text \<open>
  The loop over \<^verbatim>\<open>r0\<close> longwords; \<^verbatim>\<open>dt\<close> decrements before the test, so a count of 0 means \<open>2 ^ 32\<close> turns.
\<close>

function handoff_copy :: "u32 \<Rightarrow> u32 \<Rightarrow> u32 \<Rightarrow> machine \<Rightarrow> machine" where
  "handoff_copy r4 r5 r0 m =
     (let m1 = st32 r5 (ld32 r4 m) m
      in if r0 - 1 = 0 then m1 else handoff_copy (r4 + 4) (r5 + 4) (r0 - 1) m1)"
  by pat_completeness auto
termination
proof (relation "measure (\<lambda>(r4, r5, r0, m). unat (r0 - 1))", goal_cases)
  case (2 r4 r5 r0 m)
  then show ?case
    using unat_minus_one [of "r0 - 1"] unat_gt_0 [of "r0 - 1"] by simp
qed simp

declare handoff_copy.simps [simp del]

text \<open>A store to \<^verbatim>\<open>CCR\<close> with bit 3 (\<^verbatim>\<open>OCI\<close>) set empties the operand cache without writing it back.\<close>

definition ccr_store :: "u32 \<Rightarrow> machine \<Rightarrow> machine" where
  "ccr_store v m =
     (let m1 = reg_w CCR v m in if bit v 3 then m1\<lparr>dcache := (\<lambda>q. None)\<rparr> else m1)"

definition handoff :: "u32 \<Rightarrow> u32 \<Rightarrow> u32 \<Rightarrow> u32 \<Rightarrow> machine \<Rightarrow> u32 \<times> machine" where
  "handoff src dst len entry m =
     (entry, ccr_store CCR_VALUE (handoff_copy src dst (drop_bit 2 len) m))"

section \<open>\<^verbatim>\<open>main\<close>\<close>

definition loader_jump :: "kos \<Rightarrow> loader \<Rightarrow> unit boot" where
  "loader_jump K l =
     (let l1 = tmark K ''place+purge'' (on_mach (purge_all K \<circ> place K) l);
          l2 = tmark K ''handoff prep'' (say K ''HANDOFF -> game'' (say K ''shim + BIOS data placed'' l1));
          m = quiesce (irq_disable K (mach (tmark_dump K l2)));
          (e, m1) = handoff (P2ADDR STAGING_ADDR) (P2ADDR GAME_LOAD_ADDR) GAME_LEN GAME_ENTRY m
      in Jumped e m1)"

definition loader_start :: "kos \<Rightarrow> machine \<Rightarrow> loader" where
  "loader_start K m = tmark K ''splash'' (on_mach (loader_splash K) (tmark K ''start'' (loader_init m)))"

definition loader_main :: "env \<Rightarrow> kos \<Rightarrow> machine \<Rightarrow> unit boot" where
  "loader_main E K m =
     bindb (loader_read E K (loader_start K m)) (\<lambda>u l1.
     bindb (loader_rehearse E K l1) (\<lambda>u l2.
     bindb (loader_patch K l2) (\<lambda>u l3.
     loader_jump K l3)))"

end
