(* ===== verification/Footprint.thy ===== *)
theory Footprint
  imports Paint
begin

text \<open>
  Footprints: which bytes a routine may change, as seen on the bus and through the cache. The
  locale \<open>footprint\<close> states the contract of a store routine; the transport proofs are made from it.
\<close>

text \<open>What a cached load of the byte at bus address \<open>q\<close> sees.\<close>

definition cview :: "machine \<Rightarrow> u32 \<Rightarrow> u8" where
  "cview m q = (if dcache m q = None then ram m q else the (dcache m q))"

definition touches :: "(u32 \<Rightarrow> bool) \<Rightarrow> machine \<Rightarrow> machine \<Rightarrow> bool" where
  "touches F m m' \<longleftrightarrow> (\<forall>q. \<not> F q \<longrightarrow> ram m' q = ram m q \<and> cview m' q = cview m q)"

lemma touches_refl [simp, intro]: "touches F m m"
  by (simp add: touches_def)

lemma touches_trans [trans]: "touches F a b \<Longrightarrow> touches F b c \<Longrightarrow> touches F a c"
  by (simp add: touches_def)

lemma touches_mono: "touches F m m' \<Longrightarrow> (\<And>q. F q \<Longrightarrow> G q) \<Longrightarrow> touches G m m'"
  unfolding touches_def by blast

lemma touches_fields [simp]:
  "touches F m (m'\<lparr>cpu := c\<rparr>) = touches F m m'" "touches F m (m'\<lparr>io := l\<rparr>) = touches F m m'"
  "touches F m (m'\<lparr>mapled := d\<rparr>) = touches F m m'" "touches F m (m'\<lparr>utild := u\<rparr>) = touches F m m'"
  "touches F m (m'\<lparr>maind := n\<rparr>) = touches F m m'" "touches F m (m'\<lparr>gds := g\<rparr>) = touches F m m'"
  by (simp_all add: touches_def cview_def)

lemma ld8_cview: "ld8 a m = (if cached a then cview m (bus a) else ram m (bus a))"
  by (auto simp: ld8_def cview_def)

lemma touches_ld8: "touches F m m' \<Longrightarrow> \<not> F (bus a) \<Longrightarrow> ld8 a m' = ld8 a m"
  by (simp add: ld8_cview touches_def)

lemma touches_ld32:
  assumes "touches F m m'" "\<And>i. i < 4 \<Longrightarrow> \<not> F (bus (a + word_of_nat i))"
  shows "ld32 a m' = ld32 a m"
  using assms(2) [of 0] assms(2) [of 1] assms(2) [of 2] assms(2) [of 3]
  by (simp add: ld32_def touches_ld8 [OF assms(1)])

text \<open>A routine that stores \<open>n\<close> bytes from an address on.\<close>

locale footprint =
  fixes put :: "u32 \<Rightarrow> 'v \<Rightarrow> machine \<Rightarrow> machine" and width :: "'v \<Rightarrow> nat"
  assumes put_touches: "(\<And>i. i < width v \<Longrightarrow> F (bus (a + word_of_nat i))) \<Longrightarrow> touches F m (put a v m)"
begin

text \<open>Inside a block of which the bus addresses are known.\<close>

lemma put_block:
  assumes "span a (width v)" "\<And>q. unat (bus a) \<le> unat q \<Longrightarrow> unat q < unat (bus a) + width v \<Longrightarrow> F q"
  shows "touches F m (put a v m)"
  using assms by (intro put_touches) (simp add: span_bus)

lemma put_then:
  "touches F m m' \<Longrightarrow> span a (width v) \<Longrightarrow>
    (\<And>q. unat (bus a) \<le> unat q \<Longrightarrow> unat q < unat (bus a) + width v \<Longrightarrow> F q) \<Longrightarrow> touches F m (put a v m')"
  using put_block touches_trans by blast

end

lemma touches_st8: "F (bus a) \<Longrightarrow> touches F m (st8 a v m)"
  unfolding touches_def cview_def
  by (auto simp: st8_def fill_line_def)

lemma touches_store_bytes:
  "(\<And>i. i < length bs \<Longrightarrow> F (bus (a + word_of_nat i))) \<Longrightarrow> touches F m (store_bytes a bs m)"
proof (induction bs arbitrary: a m)
  case Nil
  then show ?case by simp
next
  case (Cons x xs)
  have "touches F m (st8 a x m)"
    using Cons.prems [of 0] by (simp add: touches_st8)
  also have "touches F (st8 a x m) (store_bytes (a + 1) xs (st8 a x m))"
  proof (rule Cons.IH)
    fix i
    assume "i < length xs"
    then show "F (bus (a + 1 + word_of_nat i))"
      using Cons.prems [of "Suc i"] by (simp add: add.assoc)
  qed
  finally show ?case by simp
qed

interpretation fpb: footprint store_bytes length
  by unfold_locales (rule touches_store_bytes)

interpretation fp32: footprint st32 "\<lambda>v. 4"
  by unfold_locales (simp only: st32_bytes, rule touches_store_bytes, simp)

interpretation fpr: footprint reg_w "\<lambda>v. 4"
  by unfold_locales (simp only: reg_w_def st32_bytes touches_fields, rule touches_store_bytes, simp)

interpretation fp1: footprint st8 "\<lambda>v. 1"
proof
  fix v and F :: "u32 \<Rightarrow> bool" and a m
  assume "\<And>i. i < (1 :: nat) \<Longrightarrow> F (bus (a + word_of_nat i))"
  from this [of 0] show "touches F m (st8 a v m)" by (simp add: touches_st8)
qed

section \<open>Word blocks\<close>

lemma store_bytes_append:
  "store_bytes a (bs @ cs) m = store_bytes (a + word_of_nat (length bs)) cs (store_bytes a bs m)"
  by (induction bs arbitrary: a m) (simp_all add: add.assoc)

lemma store_bytes_load_same: "span a (length bs) \<Longrightarrow> load_bytes a (length bs) (store_bytes a bs m) = bs"
  unfolding load_bytes_def by (rule mem.stores_map)

end
