(* ===== verification/Blocks.thy ===== *)
theory Blocks
  imports Footprint
begin

text \<open>
  Lists of disjoint blocks: storing them one after the other leaves every block in place and nothing
  else changed. The loader's placement and the EEPROM read are such lists.
\<close>

section \<open>Blocks of memory\<close>

definition in_block :: "u32 \<Rightarrow> nat \<Rightarrow> u32 \<Rightarrow> bool" where
  "in_block a n q \<longleftrightarrow> unat (bus a) \<le> unat q \<and> unat q < unat (bus a) + n"

lemma bus_span: "span a n \<Longrightarrow> i < n \<Longrightarrow> in_block a n (bus (a + word_of_nat i))"
  by (simp add: in_block_def span_bus)

lemma store_bytes_touches: "span a (length bs) \<Longrightarrow> touches (in_block a (length bs)) m (store_bytes a bs m)"
  by (intro fpb.put_block) (simp_all add: in_block_def)

lemma touches_load_bytes:
  assumes "touches F m m'" "\<And>i. i < n \<Longrightarrow> \<not> F (bus (a + word_of_nat i))"
  shows "load_bytes a n m' = load_bytes a n m"
  using assms by (auto simp: load_bytes_def touches_ld8)

definition blocks_disjoint :: "u32 \<Rightarrow> nat \<Rightarrow> u32 \<Rightarrow> nat \<Rightarrow> bool" where
  "blocks_disjoint a n b k \<longleftrightarrow> unat (bus a) + n \<le> unat (bus b) \<or> unat (bus b) + k \<le> unat (bus a)"

lemma store_bytes_load_other:
  assumes "span a n" "span b (length bs)" "blocks_disjoint a n b (length bs)"
  shows "load_bytes a n (store_bytes b bs m) = load_bytes a n m"
proof (rule touches_load_bytes [OF store_bytes_touches [OF assms(2)]])
  fix i
  assume "i < n"
  then show "\<not> in_block b (length bs) (bus (a + word_of_nat i))"
    using bus_span [OF assms(1)] assms(3) by (fastforce simp: in_block_def blocks_disjoint_def)
qed

text \<open>A list of blocks stored one after the other.\<close>

definition lay :: "(u32 \<times> u8 list) list \<Rightarrow> machine \<Rightarrow> machine" where
  "lay L m = fold (\<lambda>(a, bs). store_bytes a bs) L m"

definition layout_ok :: "(u32 \<times> u8 list) list \<Rightarrow> bool" where
  "layout_ok L \<longleftrightarrow> (\<forall>(a, bs) \<in> set L. span a (length bs)) \<and>
     sorted_wrt (\<lambda>(a, bs) (b, cs). blocks_disjoint a (length bs) b (length cs)) L"

lemma lay_simps [simp]: "lay [] m = m" "lay ((a, bs) # L) m = lay L (store_bytes a bs m)"
  by (simp_all add: lay_def)

lemma layout_ok_Cons:
  "layout_ok ((a, bs) # L) \<longleftrightarrow> span a (length bs) \<and> layout_ok L \<and>
     (\<forall>(b, cs) \<in> set L. blocks_disjoint a (length bs) b (length cs))"
  by (auto simp: layout_ok_def)

lemma lay_load_other:
  "layout_ok L \<Longrightarrow> span a n \<Longrightarrow> (\<forall>(b, cs) \<in> set L. blocks_disjoint a n b (length cs)) \<Longrightarrow>
    load_bytes a n (lay L m) = load_bytes a n m"
proof (induction L arbitrary: m)
  case (Cons x L)
  obtain b cs where "x = (b, cs)" by (cases x)
  with Cons show ?case by (simp add: layout_ok_Cons store_bytes_load_other)
qed simp

lemma lay_load:
  "layout_ok L \<Longrightarrow> (a, bs) \<in> set L \<Longrightarrow> load_bytes a (length bs) (lay L m) = bs"
proof (induction L arbitrary: m)
  case (Cons x L)
  obtain b cs where x: "x = (b, cs)" by (cases x)
  with Cons show ?case
    by (auto simp: layout_ok_Cons lay_load_other store_bytes_load_same)
qed simp

lemma touches_disj: "touches F a b \<Longrightarrow> touches G b c \<Longrightarrow> touches (\<lambda>q. F q \<or> G q) a c"
  by (simp add: touches_def)

lemma lay_touches: "layout_ok L \<Longrightarrow> touches (\<lambda>q. \<exists>(a, bs) \<in> set L. in_block a (length bs) q) m (lay L m)"
proof (induction L arbitrary: m)
  case (Cons x L)
  obtain b cs where x: "x = (b, cs)" by (cases x)
  with Cons show ?case
    using touches_disj [OF store_bytes_touches [of b cs m]] by (auto simp: layout_ok_Cons)
qed simp

text \<open>The bytes of a loaded word.\<close>

lemma ld32_bytes:
  "ucast (ld32 s m) = ld8 s m" "ucast (drop_bit 8 (ld32 s m)) = ld8 (s + 1) m"
  "ucast (drop_bit 16 (ld32 s m)) = ld8 (s + 2) m" "ucast (drop_bit 24 (ld32 s m)) = ld8 (s + 3) m"
proof -
  have l: "n < 8" if "bit (x :: u8) n" for x n
    using bit_imp_le_length [OF that] by simp
  show "ucast (ld32 s m) = ld8 s m"
    by (rule bit_eqI) (auto simp: ld32_def bit_simps dest: l)
  show "ucast (drop_bit 8 (ld32 s m)) = ld8 (s + 1) m"
    by (rule bit_eqI) (auto simp: ld32_def bit_simps dest: l)
  show "ucast (drop_bit 16 (ld32 s m)) = ld8 (s + 2) m"
    by (rule bit_eqI) (auto simp: ld32_def bit_simps dest: l)
  show "ucast (drop_bit 24 (ld32 s m)) = ld8 (s + 3) m"
    by (rule bit_eqI) (auto simp: ld32_def bit_simps dest: l)
qed

end
