(* ===== verification/Loader_Lemmas.thy ===== *)
theory Loader_Lemmas
  imports Loader Gd_Lemmas Blocks
begin

text \<open>
  What the loader guarantees: the patch stage as a pure function on images, the copy loop of the
  hand-over stub as one block store, and the placement of the shim's data as a list of disjoint
  blocks that reach memory before the cache is thrown away.
\<close>

section \<open>The copy loop\<close>

lemma zero_words_store: "zero_words a n m = store_bytes a (replicate (4 * n) 0) m"
proof (induction n)
  case (Suc n)
  have "zero_words a (Suc n) m = st32 (a + 4 * word_of_nat n) 0 (store_bytes a (replicate (4 * n) 0) m)"
    using Suc by (simp add: zero_words_def)
  also have "\<dots> = store_bytes a (replicate (4 * n) 0 @ replicate 4 0) m"
    by (simp add: store_bytes_append st32_bytes numeral_eq_Suc del: store_bytes.simps)
  finally show ?case by (simp add: replicate_add [symmetric] add.commute)
qed (simp add: zero_words_def)

lemma word_copy: "st32 d (ld32 s m) m = store_bytes d (load_bytes s 4 m) m"
proof -
  have "load_bytes s 4 m = [ld8 s m, ld8 (s + 1) m, ld8 (s + 2) m, ld8 (s + 3) m]"
    by (simp add: load_bytes_def upt_rec)
  then show ?thesis by (simp only: st32_bytes ld32_bytes)
qed

lemma load_bytes_append:
  "load_bytes a (n + k) m = load_bytes a n m @ load_bytes (a + word_of_nat n) k m"
  by (rule nth_equalityI) (auto simp: nth_load_bytes nth_append add.assoc simp flip: of_nat_add)

lemma handoff_copy_block:
  "blocks_apart d s (4 * n) \<Longrightarrow> 0 < n \<Longrightarrow> n < 0x40000000 \<Longrightarrow>
    handoff_copy s d (word_of_nat n) m = store_bytes d (load_bytes s (4 * n) m) m"
proof (induction n arbitrary: d s m)
  case (Suc n)
  have dec: "(word_of_nat (Suc n) :: u32) - 1 = word_of_nat n" by simp
  have step: "handoff_copy s d (word_of_nat (Suc n)) m =
    (let m1 = store_bytes d (load_bytes s 4 m) m
     in if (word_of_nat n :: u32) = 0 then m1 else handoff_copy (s + 4) (d + 4) (word_of_nat n) m1)"
    by (subst handoff_copy.simps) (simp only: word_copy dec)
  show ?case
  proof (cases "n = 0")
    case True
    then show ?thesis using step by (simp add: Let_def)
  next
    case False
    have nz: "(word_of_nat n :: u32) \<noteq> 0"
      using False Suc.prems(3) unat_of_nat_u32 [of n] by auto
    have b: "unat (bus (d + 4)) = unat (bus d) + 4" "unat (bus (s + 4)) = unat (bus s) + 4"
      using Suc.prems(1) False span_bus [of d "4 * Suc n" 4] span_bus [of s "4 * Suc n" 4]
      by (simp_all add: blocks_apart_def)
    have sp: "span (d + 4) (4 * n)" "span (s + 4) (4 * n)" "span d 4" "span (s + 4) (4 * n)"
      using Suc.prems(1) False span_mod [of d "4 * Suc n" 4] span_mod [of s "4 * Suc n" 4]
      by (auto simp: blocks_apart_def span_def)
    have ap: "blocks_apart (d + 4) (s + 4) (4 * n)"
      using Suc.prems(1) b sp by (auto simp: blocks_apart_def)
    let ?m1 = "store_bytes d (load_bytes s 4 m) m"
    have "load_bytes (s + 4) (4 * n) ?m1 = load_bytes (s + 4) (4 * n) m"
      using Suc.prems(1) b sp by (intro store_bytes_load_other) (auto simp: blocks_apart_def blocks_disjoint_def)
    then have "handoff_copy s d (word_of_nat (Suc n)) m
        = store_bytes (d + 4) (load_bytes (s + 4) (4 * n) m) ?m1"
      unfolding step Let_def using Suc.IH [OF ap] False Suc.prems(3) nz by simp
    also have "\<dots> = store_bytes d (load_bytes s 4 m @ load_bytes (s + 4) (4 * n) m) m"
      by (simp add: store_bytes_append)
    finally show ?thesis
      using load_bytes_append [of s 4 "4 * n" m] by simp
  qed
qed simp

section \<open>Patching as a function on images\<close>

definition patch_off :: "patch_t \<Rightarrow> nat" where
  "patch_off p = unat (p_addr p - GAME_LOAD_ADDR)"

definition splice :: "nat \<Rightarrow> 'a list \<Rightarrow> 'a list \<Rightarrow> 'a list" where
  "splice k c b = take k b @ c @ drop (k + length c) b"

definition slice :: "nat \<Rightarrow> nat \<Rightarrow> 'a list \<Rightarrow> 'a list" where
  "slice k n b = take n (drop k b)"

text \<open>A row of the table that fits into an image of \<open>len\<close> bytes.\<close>

definition patch_fits :: "nat \<Rightarrow> patch_t \<Rightarrow> bool" where
  "patch_fits len p \<longleftrightarrow> length (p_old p) = unat (p_len p) \<and> length (p_neu p) = unat (p_len p) \<and>
     patch_off p + unat (p_len p) \<le> len"

fun patch_img :: "patch_t list \<Rightarrow> u8 list \<Rightarrow> u8 list option" where
  "patch_img [] b = Some b"
| "patch_img (p # ps) b =
     (if slice (patch_off p) (unat (p_len p)) b \<noteq> p_old p then None
      else patch_img ps (splice (patch_off p) (p_neu p) b))"

lemma length_splice [simp]: "k + length c \<le> length b \<Longrightarrow> length (splice k c b) = length b"
  by (simp add: splice_def)

lemma length_slice [simp]: "k + n \<le> length b \<Longrightarrow> length (slice k n b) = n"
  by (simp add: slice_def)

lemma nth_splice:
  "k + length c \<le> length b \<Longrightarrow> i < length b \<Longrightarrow>
    splice k c b ! i = (if k \<le> i \<and> i < k + length c then c ! (i - k) else b ! i)"
  by (auto simp: splice_def nth_append)

lemma load_slice:
  assumes "k + n \<le> l"
  shows "slice k n (load_bytes a l m) = load_bytes (a + word_of_nat k) n m"
  using assms by (intro nth_equalityI) (auto simp: slice_def nth_load_bytes add.assoc simp flip: of_nat_add)

lemma load_splice:
  assumes "span a l" "k + length c \<le> l"
  shows "load_bytes a l (store_bytes (a + word_of_nat k) c m) = splice k c (load_bytes a l m)"
proof (rule nth_equalityI)
  show "length (load_bytes a l (store_bytes (a + word_of_nat k) c m)) = length (splice k c (load_bytes a l m))"
    using assms(2) by simp
next
  fix i
  assume "i < length (load_bytes a l (store_bytes (a + word_of_nat k) c m))"
  then have i: "i < l" by simp
  show "load_bytes a l (store_bytes (a + word_of_nat k) c m) ! i = splice k c (load_bytes a l m) ! i"
  proof (cases "c = []")
    case False
    then have kl: "k < l" using assms(2) by (cases c) auto
    have sk: "span (a + word_of_nat k) (length c)"
      using assms span_mod [OF assms(1) kl] by (simp add: span_def)
    show ?thesis
    proof (cases "k \<le> i \<and> i < k + length c")
      case True
      then have "ld8 (a + word_of_nat k + word_of_nat (i - k)) (store_bytes (a + word_of_nat k) c m) = c ! (i - k)"
        by (intro mem.stores_nth [OF sk]) auto
      moreover have "a + word_of_nat k + word_of_nat (i - k) = a + word_of_nat i"
        using True by (simp add: add.assoc flip: of_nat_add)
      ultimately show ?thesis
        using True i assms(2) by (simp add: nth_load_bytes nth_splice)
    next
      case out: False
      have "unat (bus (a + word_of_nat k)) = unat (bus a) + k" "unat (bus (a + word_of_nat i)) = unat (bus a) + i"
        using span_bus [OF assms(1) kl] span_bus [OF assms(1) i] by simp_all
      then have "mem.apart (a + word_of_nat i) (a + word_of_nat k) (length c)"
        using out by (auto simp: mem.apart_def)
      then show ?thesis
        using out i assms(2) mem.stores_other [OF sk] by (auto simp: nth_load_bytes nth_splice)
    qed
  qed (use i in \<open>simp add: splice_def\<close>)
qed

text \<open>The routine refines the pure function: same verdict, same image, nothing else written.\<close>

lemma apply_patches_image:
  "span a l \<Longrightarrow> (\<forall>p \<in> set ps. patch_fits l p) \<Longrightarrow> load_bytes a l m = b \<Longrightarrow>
    (case patch_img ps b of
       None \<Rightarrow> \<exists>m'. apply_patches ps a m = (- 1, m') \<and> touches (in_block a l) m m'
     | Some b' \<Rightarrow> \<exists>m'. apply_patches ps a m = (0, m') \<and> load_bytes a l m' = b' \<and> touches (in_block a l) m m')"
proof (induction ps arbitrary: m b)
  case (Cons p ps)
  let ?n = "unat (p_len p)" and ?k = "patch_off p"
  have at: "a + (p_addr p - GAME_LOAD_ADDR) = a + word_of_nat ?k"
    by (simp add: patch_off_def)
  have f: "length (p_old p) = ?n" "length (p_neu p) = ?n" "?k + ?n \<le> l"
    using Cons.prems(2) by (simp_all add: patch_fits_def)
  have ld: "load_bytes (a + word_of_nat ?k) ?n m = slice ?k ?n b"
    using load_slice [OF f(3), of a m] Cons.prems(3) by simp
  show ?case
  proof (cases "slice ?k ?n b = p_old p")
    case False
    then show ?thesis
      using f ld by (auto simp: at Let_def)
  next
    case True
    let ?m1 = "store_bytes (a + word_of_nat ?k) (p_neu p) m"
    have ap: "apply_patches (p # ps) a m = apply_patches ps a ?m1"
      using True f ld by (simp add: at Let_def)
    have img: "load_bytes a l ?m1 = splice ?k (p_neu p) b"
      using load_splice [OF Cons.prems(1)] f Cons.prems(3) by simp
    have "touches (in_block a l) m ?m1"
    proof (rule touches_store_bytes)
      fix i
      assume "i < length (p_neu p)"
      then have "?k + i < l" using f by simp
      from bus_span [OF Cons.prems(1) this]
      show "in_block a l (bus (a + word_of_nat ?k + word_of_nat i))"
        by (simp add: add.assoc)
    qed
    then have t: "touches (in_block a l) ?m1 m' \<Longrightarrow> touches (in_block a l) m m'" for m'
      using touches_trans by blast
    have pi: "patch_img (p # ps) b = patch_img ps (splice ?k (p_neu p) b)"
      using True by simp
    have fit: "\<forall>p \<in> set ps. patch_fits l p"
      using Cons.prems(2) by simp
    show ?thesis
      using Cons.IH [OF Cons.prems(1) fit img] t unfolding pi ap by (fastforce split: option.splits)
  qed
qed simp

section \<open>Patches that do not overlap\<close>

definition patch_apart :: "patch_t \<Rightarrow> patch_t \<Rightarrow> bool" where
  "patch_apart p q \<longleftrightarrow> patch_off p + unat (p_len p) \<le> patch_off q \<or> patch_off q + unat (p_len q) \<le> patch_off p"

definition in_patch :: "nat \<Rightarrow> patch_t \<Rightarrow> bool" where
  "in_patch i p \<longleftrightarrow> patch_off p \<le> i \<and> i < patch_off p + unat (p_len p)"

lemma slice_splice_apart:
  assumes "patch_fits (length b) p" "patch_fits (length b) q" "patch_apart p q"
  shows "slice (patch_off q) (unat (p_len q)) (splice (patch_off p) (p_neu p) b)
    = slice (patch_off q) (unat (p_len q)) b"
  using assms by (intro nth_equalityI)
    (auto simp: slice_def nth_splice patch_fits_def patch_apart_def)

lemma patch_img_checks:
  "(\<forall>p \<in> set ps. patch_fits (length b) p) \<Longrightarrow> sorted_wrt patch_apart ps \<Longrightarrow>
    patch_img ps b = None \<longleftrightarrow> (\<exists>p \<in> set ps. slice (patch_off p) (unat (p_len p)) b \<noteq> p_old p)"
proof (induction ps arbitrary: b)
  case (Cons p ps)
  then have f: "patch_off p + length (p_neu p) \<le> length b" by (auto simp: patch_fits_def)
  from Cons show ?case
    using Cons.IH [of "splice (patch_off p) (p_neu p) b"] slice_splice_apart [of b p]
    by (auto simp: length_splice [OF f])
qed simp

lemma patch_img_nth:
  "(\<forall>p \<in> set ps. patch_fits (length b) p) \<Longrightarrow> sorted_wrt patch_apart ps \<Longrightarrow> patch_img ps b = Some b' \<Longrightarrow>
    length b' = length b \<and>
    (\<forall>p \<in> set ps. \<forall>i. in_patch i p \<longrightarrow> b' ! i = p_neu p ! (i - patch_off p)) \<and>
    (\<forall>i < length b. (\<forall>p \<in> set ps. \<not> in_patch i p) \<longrightarrow> b' ! i = b ! i)"
proof (induction ps arbitrary: b)
  case (Cons p ps)
  let ?b = "splice (patch_off p) (p_neu p) b"
  have fp: "length (p_neu p) = unat (p_len p)" "patch_off p + unat (p_len p) \<le> length b"
    using Cons.prems(1) by (auto simp: patch_fits_def)
  then have l: "length ?b = length b" by simp
  have nth: "?b ! i = (if in_patch i p then p_neu p ! (i - patch_off p) else b ! i)" if "i < length b" for i
    using fp that by (simp add: nth_splice in_patch_def)
  have "patch_img ps ?b = Some b'"
    using Cons.prems(3) by (simp split: if_splits)
  with Cons.IH [of ?b] Cons.prems(1,2) l
  have ih: "length b' = length b"
    "\<forall>p \<in> set ps. \<forall>i. in_patch i p \<longrightarrow> b' ! i = p_neu p ! (i - patch_off p)"
    "\<forall>i < length b. (\<forall>p \<in> set ps. \<not> in_patch i p) \<longrightarrow> b' ! i = ?b ! i"
    by simp_all
  have own: "b' ! i = p_neu p ! (i - patch_off p)" if "in_patch i p" for i
  proof -
    have "i < length b" using that fp by (simp add: in_patch_def)
    moreover have "\<not> in_patch i q" if "q \<in> set ps" for q
      using that \<open>in_patch i p\<close> Cons.prems(2) by (auto simp: in_patch_def patch_apart_def)
    ultimately show ?thesis using ih(3) nth that by simp
  qed
  show ?case using ih own nth by simp
qed simp

end
