(* ===== verification/Loader_Boot.thy ===== *)
theory Loader_Boot
  imports Loader_Lemmas
begin

text \<open>
  From the patched image in the staging buffer to the first instruction of the game: what KallistiOS
  is relied on for, what has reached memory when the cache is thrown away, and the rehearsal.
\<close>

section \<open>Purging the cache\<close>

text \<open>
  \<open>flushed S m m'\<close>: the bytes in \<open>S\<close> have been written back, all others are as they were; what the
  cached view shows has not changed.
\<close>

definition flushed :: "(u32 \<Rightarrow> bool) \<Rightarrow> machine \<Rightarrow> machine \<Rightarrow> bool" where
  "flushed S m m' \<longleftrightarrow> (\<forall>q. cview m' q = cview m q \<and> ram m' q = (if S q then cview m q else ram m q))"

lemma flushed_trans: "flushed S a b \<Longrightarrow> flushed T b c \<Longrightarrow> flushed (\<lambda>q. S q \<or> T q) a c"
  by (simp add: flushed_def)

text \<open>The lines that \<open>n\<close> bytes from \<open>a\<close> on touch.\<close>

definition in_lines :: "u32 \<Rightarrow> nat \<Rightarrow> u32 \<Rightarrow> bool" where
  "in_lines a n q \<longleftrightarrow> line (bus a) \<le> line q \<and> line q \<le> (unat (bus a) + n - 1) div 32"

text \<open>
  What the loader relies on in KallistiOS: \<^verbatim>\<open>dcache_purge_range\<close> writes the lines of a cached range back,
  \<^verbatim>\<open>irq_disable\<close> changes the processor state only, \<^verbatim>\<open>bfont_draw_str\<close> draws into the frame buffer, and a sector read that reports \<^verbatim>\<open>ERR_OK\<close> has put the
  sectors where it was told to.
\<close>

definition kos_ok :: "env \<Rightarrow> kos \<Rightarrow> (nat \<Rightarrow> u8) \<Rightarrow> bool" where
  "kos_ok E K disc \<longleftrightarrow> LOADER_QUIET K \<and>
     (\<forall>a n m. cached a \<longrightarrow> span a (unat n) \<longrightarrow> 0 < unat n \<longrightarrow>
        flushed (in_lines a (unat n)) m (dcache_purge_range K a n m)) \<and>
     (\<forall>m. \<exists>c. irq_disable K m = m\<lparr>cpu := c\<rparr>) \<and>
     (\<forall>k s m. unat k < 0x100000 \<longrightarrow> dev_only m (bfont_draw_str K (vram_s K + k) 640 1 s m)) \<and>
     (\<forall>m m'. cdrom_read_sectors K STAGING_ADDR (CART_FAD E) GAME_SECTORS m = (True, m') \<longrightarrow>
        load_bytes STAGING_ADDR (unat GAME_LEN) m' = sectors disc (CART_FAD E) GAME_SECTORS)"

text \<open>The embedded blobs have the sizes their build rules enforce.\<close>

definition blobs_ok :: "kos \<Rightarrow> bool" where
  "blobs_ok K \<longleftrightarrow> length (shim_bin K) \<le> 0x8000 \<and> length (bios_data K) = 0x7070 \<and>
     0 < length (handoff_stub K) \<and> length (handoff_stub K) \<le> 0x1000"

section \<open>Placing\<close>

definition shim_image :: "kos \<Rightarrow> u8 list" where
  "shim_image K = shim_bin K @ replicate (0x8000 - length (shim_bin K)) 0"

definition boot_layout :: "kos \<Rightarrow> (u32 \<times> u8 list) list" where
  "boot_layout K =
    [(SHIM_BASE, shim_image K),
     (BIOS_DATA_60000, take 0x7000 (bios_data K)),
     (BIOS_DATA_1FFD00, drop 0x7000 (bios_data K)),
     (P2ADDR G1_MIRROR, replicate 0x800 0),
     (P2ADDR MAPLE_MIRROR, replicate 0x100 0),
     (HANDOFF_SCRATCH, handoff_stub K)]"

lemma place_lay:
  assumes "blobs_ok K"
  shows "place K m = lay (boot_layout K) m"
proof -
  let ?n = "length (shim_bin K)"
  have n: "?n \<le> 0x8000" using assms by (simp add: blobs_ok_def)
  have "unat (word_of_nat ?n :: u32) = ?n"
    using n by (intro unat_of_nat_u32) simp
  then have z: "unat (SHIM_CODE_MAX - word_of_nat ?n) = 0x8000 - ?n"
    using n by (simp add: unat_sub_u32 word_le_nat_alt SHIM_CODE_MAX_def)
  have t: "take (unat BIOS_DATA_1FFD00_LEN) (drop (unat BIOS_DATA_60000_LEN) (bios_data K)) = drop 0x7000 (bios_data K)"
    using assms by (simp add: blobs_ok_def src_consts)
  show ?thesis
    unfolding place_def Let_def t z zero_words_store boot_layout_def shim_image_def
    by (simp add: store_bytes_append src_consts)
qed

lemma layout_lengths:
  assumes "blobs_ok K"
  shows "length (shim_image K) = 0x8000" "length (take 0x7000 (bios_data K)) = 0x7000"
    "length (drop 0x7000 (bios_data K)) = 0x70"
  using assms by (simp_all add: blobs_ok_def shim_image_def)

lemma boot_layout_ok:
  assumes "blobs_ok K"
  shows "layout_ok (boot_layout K)"
  using assms unfolding boot_layout_def layout_ok_def
  by (simp add: layout_lengths [OF assms] span_def blocks_disjoint_def unat_bus src_consts P2ADDR_def blobs_ok_def)

section \<open>What reaches memory\<close>

definition ram_bytes :: "u32 \<Rightarrow> nat \<Rightarrow> machine \<Rightarrow> u8 list" where
  "ram_bytes a n m = map (\<lambda>i. ram m (bus (a + word_of_nat i))) [0 ..< n]"

lemma ram_bytes_uncached: "\<not> cached a \<Longrightarrow> span a n \<Longrightarrow> load_bytes a n m = ram_bytes a n m"
  by (simp add: load_bytes_def ram_bytes_def ld8_cview span_cached)

lemma ram_bytes_empty: "(\<And>q. dcache m q = None) \<Longrightarrow> load_bytes a n m = ram_bytes a n m"
  by (simp add: load_bytes_def ram_bytes_def ld8_def)

lemma ram_bytes_cong:
  assumes "span a n" "\<And>q. in_block a n q \<Longrightarrow> ram m' q = ram m q"
  shows "ram_bytes a n m' = ram_bytes a n m"
  using assms(2) bus_span [OF assms(1)] by (simp add: ram_bytes_def)

lemma ram_bytes_alias:
  assumes "span a n" "span b n" "bus a = bus b"
  shows "ram_bytes a n m = ram_bytes b n m"
proof -
  have "bus (a + word_of_nat i) = bus (b + word_of_nat i)" if "i < n" for i
    using span_bus [OF assms(1) that] span_bus [OF assms(2) that] assms(3)
    by (simp add: word_unat_eq_iff)
  then show ?thesis by (simp add: ram_bytes_def)
qed

lemma in_block_lines: "in_block a n q \<Longrightarrow> in_lines a n q"
  by (auto simp: in_block_def in_lines_def line_def intro: div_le_mono)

lemma in_lines_bounds:
  assumes "in_lines a n q" "0 < n"
  shows "unat (bus a) div 32 * 32 \<le> unat q" "unat q < unat (bus a) + n + 31"
proof -
  have 1: "unat (bus a) div 32 \<le> unat q div 32" "unat q div 32 \<le> (unat (bus a) + n - 1) div 32"
    using assms(1) by (simp_all add: in_lines_def line_def)
  show "unat (bus a) div 32 * 32 \<le> unat q"
    using 1(1) by (meson div_times_less_eq_dividend le_trans mult_le_mono1)
  have "unat q = unat q div 32 * 32 + unat q mod 32" "unat q mod 32 < 32" by simp_all
  moreover have "(unat (bus a) + n - 1) div 32 * 32 \<le> unat (bus a) + n - 1" by simp
  moreover have "unat q div 32 * 32 \<le> (unat (bus a) + n - 1) div 32 * 32"
    using 1(2) by (rule mult_le_mono1)
  ultimately show "unat q < unat (bus a) + n + 31" using assms(2) by linarith
qed

text \<open>After a purge the memory of a covered block is what its cached view showed.\<close>

lemma flushed_block:
  assumes "flushed S m m'" "cached a" "span a n" "\<And>q. in_block a n q \<Longrightarrow> S q"
  shows "ram_bytes a n m' = load_bytes a n m"
  using assms bus_span [OF assms(3)]
  by (simp add: ram_bytes_def load_bytes_def ld8_cview span_cached flushed_def)

lemma flushed_outside:
  assumes "flushed S m m'" "\<not> cached a" "span a n" "\<And>q. in_block a n q \<Longrightarrow> \<not> S q"
  shows "ram_bytes a n m' = load_bytes a n m"
  unfolding ram_bytes_uncached [OF assms(2,3)]
  using assms by (intro ram_bytes_cong) (auto simp: flushed_def)

definition purged :: "kos \<Rightarrow> u32 \<Rightarrow> bool" where
  "purged K q \<longleftrightarrow> in_lines STAGING_ADDR 0x100000 q \<or> in_lines SHIM_BASE 0x8000 q
     \<or> in_lines HANDOFF_SCRATCH (length (handoff_stub K)) q
     \<or> in_lines BIOS_DATA_60000 0x7000 q \<or> in_lines BIOS_DATA_1FFD00 0x70 q"

lemma purge_all_flushed:
  assumes "kos_ok E K disc" "blobs_ok K"
  shows "flushed (purged K) m (purge_all K m)"
proof -
  have len: "unat (word_of_nat (length (handoff_stub K)) :: u32) = length (handoff_stub K)"
    using assms(2) by (intro unat_of_nat_u32) (simp add: blobs_ok_def)
  have p: "flushed (in_lines a k) m' (dcache_purge_range K a n m')"
    if "0x8c000000 \<le> unat a" "unat n = k" "0 < k" "unat a + k \<le> 0x8d000000" for a n m' k
  proof -
    have d: "unat a div 536870912 = 4" "unat a mod 536870912 = unat a - 0x80000000"
      using that by (auto intro!: div_nat_eqI mod_nat_eqI)
    then have "cached a" "span a (unat n)"
      using that by (simp_all add: cached_div span_def)
    then show ?thesis using assms(1) that unfolding kos_ok_def by blast
  qed
  note q = flushed_trans [OF flushed_trans [OF flushed_trans [OF flushed_trans [OF p p] p] p] p]
  show ?thesis
    unfolding purge_all_def Let_def purged_def disj_assoc [symmetric]
    using assms(2) by (intro q) (simp_all add: len src_consts blobs_ok_def)
qed

section \<open>The jump\<close>

definition boot_blocks :: "kos \<Rightarrow> (u32 \<times> nat) set" where
  "boot_blocks K = insert (STAGING_ADDR, 0x100000) ((\<lambda>(a, bs). (a, length bs)) ` set (boot_layout K))"

lemma boot_blocks_list:
  assumes "blobs_ok K"
  shows "boot_blocks K = {(STAGING_ADDR, 0x100000), (SHIM_BASE, 0x8000), (BIOS_DATA_60000, 0x7000),
    (BIOS_DATA_1FFD00, 0x70), (P2ADDR G1_MIRROR, 0x800), (P2ADDR MAPLE_MIRROR, 0x100),
    (HANDOFF_SCRATCH, length (handoff_stub K))}"
  unfolding boot_blocks_def boot_layout_def using assms
  by (simp add: layout_lengths(1) blobs_ok_def)

lemma boot_block_addr:
  assumes "blobs_ok K" "(a, n) \<in> boot_blocks K"
  shows "span a n" "0x0c120000 \<le> unat (bus a)" "unat (bus a) + n \<le> 0x0d000000"
  using assms(2) assms(1) unfolding boot_blocks_list [OF assms(1)]
  by (auto simp: span_def unat_bus src_consts P2ADDR_def blobs_ok_def)

lemma purge_blocks:
  assumes "kos_ok E K disc" "blobs_ok K" "(a, n) \<in> boot_blocks K"
  shows "ram_bytes a n (purge_all K m) = load_bytes a n m"
proof (cases "cached a")
  case True
  have "in_block a n q \<Longrightarrow> purged K q" for q
    using assms(3) True unfolding boot_blocks_list [OF assms(2)] purged_def
    by (auto simp: cached_def src_consts P2ADDR_def dest: in_block_lines)
  then show ?thesis
    using flushed_block [OF purge_all_flushed [OF assms(1,2)] True] boot_block_addr [OF assms(2,3)] by blast
next
  case False
  have "\<not> purged K q" if "in_block a n q" for q
  proof
    assume "purged K q"
    then have "(0x0cd00000 \<le> unat q \<and> unat q < 0x0ce0001f) \<or> (0x0cfc0000 \<le> unat q \<and> unat q < 0x0cfc801f)
       \<or> (0x0ce00000 \<le> unat q \<and> unat q < 0x0ce0101f)
       \<or> (0x0cfcb000 \<le> unat q \<and> unat q < 0x0cfd201f) \<or> (0x0cfd2000 \<le> unat q \<and> unat q < 0x0cfd208f)"
      using in_lines_bounds [of STAGING_ADDR "0x100000" q] in_lines_bounds [of SHIM_BASE "0x8000" q]
        in_lines_bounds [of HANDOFF_SCRATCH "length (handoff_stub K)" q]
        in_lines_bounds [of BIOS_DATA_60000 "0x7000" q] in_lines_bounds [of BIOS_DATA_1FFD00 "0x70" q] assms(2)
      unfolding purged_def by (auto simp: src_consts unat_bus blobs_ok_def)
    moreover have "(0x0cfc8800 \<le> unat q \<and> unat q < 0x0cfc9000) \<or> (0x0cfd3000 \<le> unat q \<and> unat q < 0x0cfd3100)"
      using that assms(3) False unfolding boot_blocks_list [OF assms(2)]
      by (auto simp: in_block_def cached_def src_consts P2ADDR_def unat_bus)
    ultimately show False by auto
  qed
  then show ?thesis
    using flushed_outside [OF purge_all_flushed [OF assms(1,2)] False] boot_block_addr [OF assms(2,3)] by blast
qed

text \<open>The stub: the game image has moved, everything else in memory is as it was, the cache is empty.\<close>

lemma staging_to_game:
  "handoff_copy (P2ADDR STAGING_ADDR) (P2ADDR GAME_LOAD_ADDR) (drop_bit 2 GAME_LEN) m
    = store_bytes (P2ADDR GAME_LOAD_ADDR) (load_bytes (P2ADDR STAGING_ADDR) 0x100000 m) m"
proof -
  have "handoff_copy (P2ADDR STAGING_ADDR) (P2ADDR GAME_LOAD_ADDR) (word_of_nat 0x40000) m
    = store_bytes (P2ADDR GAME_LOAD_ADDR) (load_bytes (P2ADDR STAGING_ADDR) (4 * 0x40000) m) m"
    by (rule handoff_copy_block) (simp_all add: blocks_apart_def span_def unat_bus src_consts P2ADDR_def)
  then show ?thesis by (simp add: GAME_LEN_def)
qed

lemma ccr_store_memory:
  "ram (ccr_store CCR_VALUE m) q = (if in_block CCR 4 q then ram (reg_w CCR CCR_VALUE m) q else ram m q)"
  "dcache (ccr_store CCR_VALUE m) q = None"
proof -
  have "touches (in_block CCR 4) m (reg_w CCR CCR_VALUE m)"
    by (intro fpr.put_block) (simp_all add: in_block_def span_def CCR_def)
  then show "ram (ccr_store CCR_VALUE m) q = (if in_block CCR 4 q then ram (reg_w CCR CCR_VALUE m) q else ram m q)"
    by (simp add: ccr_store_def Let_def touches_def)
  show "dcache (ccr_store CCR_VALUE m) q = None"
    by (simp add: ccr_store_def Let_def CCR_VALUE_def)
qed

lemma handoff_memory:
  assumes "handoff (P2ADDR STAGING_ADDR) (P2ADDR GAME_LOAD_ADDR) GAME_LEN e m = (e', m1)"
  shows "e' = e" "\<And>q. dcache m1 q = None"
    "load_bytes GAME_LOAD_ADDR 0x100000 m1 = ram_bytes STAGING_ADDR 0x100000 m"
    "\<And>q. 0x0c120000 \<le> unat q \<Longrightarrow> \<not> in_block CCR 4 q \<Longrightarrow> ram m1 q = ram m q"
proof -
  let ?img = "load_bytes (P2ADDR STAGING_ADDR) 0x100000 m"
  let ?g = "P2ADDR GAME_LOAD_ADDR"
  let ?m = "store_bytes ?g ?img m"
  have m1: "e' = e" "m1 = ccr_store CCR_VALUE ?m"
    using assms by (auto simp: handoff_def staging_to_game)
  then show "e' = e" "\<And>q. dcache m1 q = None" by (simp_all add: ccr_store_memory)
  have g: "\<not> cached ?g" "span ?g 0x100000" "unat (bus ?g) = 0x0c020000"
    "span GAME_LOAD_ADDR 0x100000" "bus GAME_LOAD_ADDR = bus ?g"
    by (simp_all add: cached_def span_def unat_bus bus_def src_consts P2ADDR_def)
  have r: "ram m1 q = ram ?m q" if "\<not> in_block CCR 4 q" for q
    using that by (simp add: m1 ccr_store_memory)
  have out: "\<not> in_block CCR 4 q" if "in_block ?g 0x100000 q" for q
    using that g by (simp add: in_block_def CCR_def unat_bus)
  have "load_bytes GAME_LOAD_ADDR 0x100000 m1 = ram_bytes GAME_LOAD_ADDR 0x100000 m1"
    by (rule ram_bytes_empty) (simp add: m1 ccr_store_memory)
  also have "\<dots> = ram_bytes ?g 0x100000 m1"
    using g by (intro ram_bytes_alias) simp_all
  also have "\<dots> = ram_bytes ?g 0x100000 ?m"
    using g out r by (intro ram_bytes_cong) auto
  also have "\<dots> = load_bytes ?g 0x100000 ?m"
    using g by (simp add: ram_bytes_uncached)
  also have "\<dots> = ?img"
    using store_bytes_load_same [of ?g ?img m] g by simp
  also have "\<dots> = ram_bytes (P2ADDR STAGING_ADDR) 0x100000 m"
    by (rule ram_bytes_uncached) (simp_all add: cached_def span_def src_consts P2ADDR_def)
  also have "\<dots> = ram_bytes STAGING_ADDR 0x100000 m"
    by (rule ram_bytes_alias) (simp_all add: span_def src_consts P2ADDR_def bus_def)
  finally show "load_bytes GAME_LOAD_ADDR 0x100000 m1 = ram_bytes STAGING_ADDR 0x100000 m" .
  show "ram m1 q = ram m q" if "0x0c120000 \<le> unat q" "\<not> in_block CCR 4 q" for q
    using r [OF that(2)] store_bytes_uncached(2) [OF g(1), of ?img m q] g that by simp
qed

lemma quiesce_dev: "dev_only m (quiesce m)"
proof -
  have "dev_addr MMUCR 4" "dev_addr TA_SOFTRESET 4" "dev_addr SB_ISTNRM 4" "dev_addr SB_ISTERR 4"
    by (simp_all add: dev_addr_def cached_def span_def unat_bus src_consts)
  then show ?thesis
    unfolding quiesce_def by (intro dev_only_trans [OF _ dev_only_reg_w] dev_only_refl)
qed

text \<open>The timing build: a mark changes no memory, and the report only the screen.\<close>

lemma tmark_simps [simp]:
  "mach (tmark K s l) = mach l" "tmk_n l \<le> 16 \<Longrightarrow> tmk_n (tmark K s l) \<le> 16"
  by (simp_all add: tmark_def split_beta Let_def)

lemma on_mach_simps [simp]: "mach (on_mach f l) = f (mach l)" "tmk_n (on_mach f l) = tmk_n l"
  by (simp_all add: on_mach_def)

lemma say_marks [simp]: "tmk_n (say K s l) = tmk_n l"
  by (simp add: say_def)

lemma tmark_row_dev:
  assumes "kos_ok E K disc" "i \<le> 16"
  shows "dev_only m (tmark_row K i s m)"
proof -
  have u: "unat (word_of_nat i :: u32) = i"
    using assms(2) by (simp add: unsigned_of_nat take_bit_nat_eq_self)
  have "unat (2 * ((180 + word_of_nat i * 26) * 640 + 20) :: u32) = 2 * ((180 + i * 26) * 640 + 20)"
    using assms(2) by (simp add: unat_word_ariths u)
  then have "unat (2 * ((180 + word_of_nat i * 26) * 640 + 20) :: u32) < 0x100000"
    using assms(2) by simp
  then show ?thesis using assms(1) unfolding kos_ok_def tmark_row_def by blast
qed

lemma tmark_dump_dev:
  assumes "kos_ok E K disc" "tmk_n l \<le> 16"
  shows "dev_only (mach l) (mach (tmark_dump K l))"
proof -
  have "dev_only (mach l) (fold (\<lambda>i. tmark_row K i (f i)) [1 ..< tmk_n l] (mach l))" for f
    using assms by (intro dev_only_fold tmark_row_dev) auto
  from dev_only_trans [OF this tmark_row_dev [OF assms]] show ?thesis
    by (simp add: tmark_dump_def Let_def)
qed

lemma loader_jump_blocks:
  assumes "kos_ok E K disc" "blobs_ok K" "tmk_n l \<le> 16"
  shows "\<exists>m1. loader_jump K l = Jumped GAME_ENTRY m1 \<and> (\<forall>q. dcache m1 q = None) \<and>
    load_bytes GAME_LOAD_ADDR 0x100000 m1 = load_bytes STAGING_ADDR 0x100000 (mach l) \<and>
    (\<forall>(a, bs) \<in> set (boot_layout K). load_bytes a (length bs) m1 = bs)"
proof -
  let ?p = "place K (mach l)"
  let ?f = "purge_all K ?p"
  let ?l = "tmark K ''handoff prep'' (tmark K ''place+purge'' (on_mach (purge_all K \<circ> place K) l))"
  define d where "d = mach (tmark_dump K ?l)"
  have d: "dev_only ?f d"
    using tmark_dump_dev [OF assms(1), of ?l] assms(3) by (simp add: d_def)
  obtain c where c: "irq_disable K d = d\<lparr>cpu := c\<rparr>"
    using assms(1) unfolding kos_ok_def by blast
  let ?q = "quiesce (d\<lparr>cpu := c\<rparr>)"
  obtain e m1 where h: "handoff (P2ADDR STAGING_ADDR) (P2ADDR GAME_LOAD_ADDR) GAME_LEN GAME_ENTRY ?q = (e, m1)"
    by (metis prod.exhaust)
  note m1 = handoff_memory [OF h]
  have j: "loader_jump K l = Jumped GAME_ENTRY m1"
    using assms(1) h m1(1) by (simp add: loader_jump_def say_def kos_ok_def Let_def c d_def [symmetric])
  have rq: "ram_bytes a n ?q = load_bytes a n ?p" if "(a, n) \<in> boot_blocks K" for a n
  proof -
    note b = boot_block_addr [OF assms(2) that]
    have "ram_bytes a n ?q = ram_bytes a n ?f"
      using b d quiesce_dev [of "d\<lparr>cpu := c\<rparr>"]
      by (intro ram_bytes_cong) (auto simp: in_block_def dev_only_def)
    then show ?thesis by (simp add: purge_blocks [OF assms(1,2) that])
  qed
  have lo: "layout_ok (boot_layout K)" by (rule boot_layout_ok [OF assms(2)])
  have img: "load_bytes STAGING_ADDR 0x100000 ?p = load_bytes STAGING_ADDR 0x100000 (mach l)"
    unfolding place_lay [OF assms(2)]
    using assms(2) by (intro lay_load_other [OF lo])
      (auto simp: boot_layout_def layout_lengths [OF assms(2)] blocks_disjoint_def span_def unat_bus
        src_consts P2ADDR_def blobs_ok_def)
  have "load_bytes a (length bs) m1 = bs" if "(a, bs) \<in> set (boot_layout K)" for a bs
  proof -
    have bb: "(a, length bs) \<in> boot_blocks K" using that by (force simp: boot_blocks_def)
    note b = boot_block_addr [OF assms(2) bb]
    have "load_bytes a (length bs) m1 = ram_bytes a (length bs) m1"
      by (rule ram_bytes_empty) (rule m1(2))
    also have "\<dots> = ram_bytes a (length bs) ?q"
      using b m1(4) by (intro ram_bytes_cong) (auto simp: in_block_def CCR_def unat_bus)
    also have "\<dots> = bs"
      using rq [OF bb] lay_load [OF lo that] by (simp add: place_lay [OF assms(2)])
    finally show ?thesis .
  qed
  moreover have "load_bytes GAME_LOAD_ADDR 0x100000 m1 = load_bytes STAGING_ADDR 0x100000 (mach l)"
    using m1(3) rq [of STAGING_ADDR "0x100000"] img by (simp add: boot_blocks_def)
  ultimately show ?thesis using j m1(2) by blast
qed

section \<open>The rehearsal\<close>

lemma sysrd_poll_codes: "fst (sysrd_poll E req guard stat m) \<in> {0, - 2, - 3}"
proof (induction E req guard stat m rule: sysrd_poll.induct)
  case (1 E req guard stat m)
  then show ?case
    by (subst sysrd_poll.simps) (auto split: prod.split)
qed

lemma sysrd_test_codes: "fst (sysrd_test E dst fad n m) \<in> {0, - 1, - 2, - 3}"
proof -
  have "fst (sysrd_poll E req 0 stat m1) \<in> {0, - 1, - 2, - 3}" for req stat m1
    using sysrd_poll_codes [of E req 0 stat m1] by blast
  then show ?thesis by (simp add: sysrd_test_def split_beta)
qed

lemma drive_execD:
  assumes "drive_ok E job disc" "gd_vector E 0 None GD_EXEC m = (r, b, m1)"
    "job (bios m) = Some (req, cmd, fad, n, dst, k)"
  shows "job (bios m1) = Some (req, cmd, fad, n, dst, k)" "progress (gd_tgt cmd dst) (unat n * 2048) m m1"
  using assms unfolding drive_ok_def drive_exec_def by (metis, blast)

lemma drive_checkD:
  assumes "drive_ok E job disc" "gd_vector E req (Some stat) GD_CHECK m = (s, b, m1)"
    "job (bios m) = Some (req, cmd, fad, n, dst, k)"
  shows "k = 0 \<Longrightarrow> sint s = 2 \<and> delivered (gd_tgt cmd dst) (sectors disc fad n) m m1"
    "k \<noteq> 0 \<Longrightarrow> sint s \<in> {0, 1, 3, 4} \<and> job (bios m1) = Some (req, cmd, fad, n, dst, k - 1) \<and>
      progress (gd_tgt cmd dst) (unat n * 2048) m m1"
proof -
  have "if k = 0 then sint s = GD_COMPLETED \<and> delivered (gd_tgt cmd dst) (sectors disc fad n) m m1
        else sint s \<in> {0, 1, 3, 4} \<and> job (bios m1) = Some (req, cmd, fad, n, dst, k - 1) \<and>
          progress (gd_tgt cmd dst) (unat n * 2048) m m1"
    using assms unfolding drive_ok_def drive_check_def by blast
  then show "k = 0 \<Longrightarrow> sint s = 2 \<and> delivered (gd_tgt cmd dst) (sectors disc fad n) m m1"
    "k \<noteq> 0 \<Longrightarrow> sint s \<in> {0, 1, 3, 4} \<and> job (bios m1) = Some (req, cmd, fad, n, dst, k - 1) \<and>
      progress (gd_tgt cmd dst) (unat n * 2048) m m1"
    by (simp_all add: GD_COMPLETED_def)
qed

text \<open>A drive that is never caught between commands by a status check.\<close>

definition prompt :: "env \<Rightarrow> (u32 list \<Rightarrow> gd_job option) \<Rightarrow> bool" where
  "prompt E job \<longleftrightarrow> (\<forall>req stat m. job (bios m) \<noteq> None \<longrightarrow> sint (fst (gd_vector E req (Some stat) GD_CHECK m)) \<noteq> 0)"

lemma sysrd_poll_ok:
  assumes "drive_ok E job disc" "gd_req_ok cmd dst n"
    and "job (bios m) = Some (req, cmd, fad, n, dst, k)" "unat guard + k \<le> 1000000"
  shows "\<exists>r m1. sysrd_poll E req guard stat m = (r, m1) \<and> progress (gd_tgt cmd dst) (unat n * 2048) m m1 \<and>
    (r = 0 \<and> delivered (gd_tgt cmd dst) (sectors disc fad n) m m1 \<or> r = - 2 \<and> \<not> prompt E job)"
  using assms(3,4)
proof (induction k arbitrary: guard stat m)
  case 0
  obtain r b m1 where ex: "gd_vector E 0 None GD_EXEC m = (r, b, m1)" by (metis prod_cases3)
  obtain s st m2 where ck: "gd_vector E req (Some stat) GD_CHECK m1 = (s, st, m2)" by (metis prod_cases3)
  have sp: "span (gd_tgt cmd dst) (unat n * 2048)" using assms(2) by (simp add: gd_req_ok_def)
  have e: "job (bios m1) = Some (req, cmd, fad, n, dst, 0)" "progress (gd_tgt cmd dst) (unat n * 2048) m m1"
    by (rule drive_execD [OF assms(1) ex 0(1)])+
  then have c: "sint s = 2" "delivered (gd_tgt cmd dst) (sectors disc fad n) m1 m2"
    using drive_checkD(1) [OF assms(1) ck] by auto
  have "guard < 100000000" using 0(2) by (simp add: word_less_nat_alt)
  then have "sysrd_poll E req guard stat m = (0, m2)"
    using ex ck c(1) by (subst sysrd_poll.simps) (simp add: GD_EXEC_def GD_CHECK_def)
  moreover have "delivered (gd_tgt cmd dst) (sectors disc fad n) m m2"
    by (rule progress_delivered [OF sp length_sectors e(2) c(2)])
  moreover from this have "progress (gd_tgt cmd dst) (unat n * 2048) m m2"
    unfolding delivered_def progress_def by (metis length_sectors)
  ultimately show ?case by blast
next
  case (Suc k)
  obtain r b m1 where ex: "gd_vector E 0 None GD_EXEC m = (r, b, m1)" by (metis prod_cases3)
  obtain s st m2 where ck: "gd_vector E req (Some stat) GD_CHECK m1 = (s, st, m2)" by (metis prod_cases3)
  have sp: "span (gd_tgt cmd dst) (unat n * 2048)" using assms(2) by (simp add: gd_req_ok_def)
  have e: "job (bios m1) = Some (req, cmd, fad, n, dst, Suc k)" "progress (gd_tgt cmd dst) (unat n * 2048) m m1"
    by (rule drive_execD [OF assms(1) ex Suc(2)])+
  then have c: "sint s \<in> {0, 1, 3, 4}" "job (bios m2) = Some (req, cmd, fad, n, dst, k)"
    "progress (gd_tgt cmd dst) (unat n * 2048) m1 m2"
    using drive_checkD(2) [OF assms(1) ck e(1)] by auto
  note p = progress_trans [OF sp e(2) c(3)]
  have g: "guard < 100000000" "unat (guard + 1) = unat guard + 1"
    using Suc(3) unat_add_lt [of guard 1] by (simp_all add: word_less_nat_alt)
  have step: "sysrd_poll E req guard stat m =
    (if sint s = 0 then (- 2, m2) else sysrd_poll E req (guard + 1) st m2)"
    using ex ck c(1) g by (subst sysrd_poll.simps) (auto simp: GD_EXEC_def GD_CHECK_def)
  show ?case
  proof (cases "sint s = 0")
    case True
    then have "\<not> prompt E job"
      using e(1) ck unfolding prompt_def by (metis fst_conv option.distinct(1))
    then show ?thesis using True step p by simp
  next
    case False
    then show ?thesis
      using Suc.IH [OF c(2), of "guard + 1" st] Suc(3) g step p progress_trans [OF sp p]
        progress_delivered [OF sp length_sectors p] by auto
  qed
qed

lemma sysrd_test_ok:
  assumes "drive_ok E job disc" "gd_req_ok CMD_PIOREAD dst n"
  shows "\<exists>r m1. sysrd_test E dst fad n m = (r, m1) \<and> progress dst (unat n * 2048) m m1 \<and>
    (r = 0 \<and> delivered dst (sectors disc fad n) m m1 \<or> r = - 2 \<and> \<not> prompt E job)"
proof -
  obtain req b m1 where sd: "gd_vector E CMD_PIOREAD (Some (fad, n, dst, 0)) GD_SEND m = (req, b, m1)"
    by (metis prod_cases3)
  have t: "gd_tgt CMD_PIOREAD dst = dst" by (simp add: gd_tgt_def src_consts)
  have "0 < sint req \<and> gds m1 = gds m \<and> agree m m1 \<and>
      (\<exists>k \<le> 1000000. job (bios m1) = Some (req, CMD_PIOREAD, fad, n, dst, k))"
    using assms sd unfolding drive_ok_def drive_send_def by blast
  then obtain k where k: "0 < sint req" "agree m m1" "k \<le> 1000000"
    "job (bios m1) = Some (req, CMD_PIOREAD, fad, n, dst, k)" by blast
  obtain r m2 where p: "sysrd_poll E req 0 (uninit E) m1 = (r, m2)" "progress dst (unat n * 2048) m1 m2"
    "r = 0 \<and> delivered dst (sectors disc fad n) m1 m2 \<or> r = - 2 \<and> \<not> prompt E job"
    using sysrd_poll_ok [OF assms k(4), of 0 "uninit E"] k(3) by (auto simp: t)
  have "sysrd_test E dst fad n m = (r, m2)"
    using sd k(1) p(1) by (simp add: sysrd_test_def CMD_PIOREAD_def GD_SEND_def)
  moreover have "progress dst (unat n * 2048) m m2"
    by (rule progress_agree [OF k(2) p(2) agree_refl])
  moreover have "delivered dst (sectors disc fad n) m m2" if "delivered dst (sectors disc fad n) m1 m2"
    by (rule delivered_agree [OF k(2) that agree_refl])
  ultimately show ?thesis using p(3) by blast
qed

section \<open>The stages one after the other\<close>

text \<open>The loader's sector buffer is a block the drive may write, clear of the staging area.\<close>

definition sysbuf_ok :: "kos \<Rightarrow> bool" where
  "sysbuf_ok K \<longleftrightarrow> gd_req_ok CMD_PIOREAD (sysbuf K) 1 \<and> blocks_disjoint STAGING_ADDR 0x100000 (sysbuf K) 2048"

definition staged :: "u8 list \<Rightarrow> loader \<Rightarrow> bool" where
  "staged b l \<longleftrightarrow> load_bytes STAGING_ADDR 0x100000 (mach l) = b \<and> tmk_n l \<le> 16"

lemma staging_span: "span STAGING_ADDR 0x100000" "unat (bus STAGING_ADDR) = 0x0cd00000"
  by (simp_all add: span_def unat_bus src_consts)

lemma agree_load_bytes:
  assumes "agree m m'" "span a n" "0x0c010000 \<le> unat (bus a)" "unat (bus a) + n \<le> 0x0cfd4000"
  shows "load_bytes a n m' = load_bytes a n m"
proof -
  have "\<not> scratch (bus (a + word_of_nat i))" if "i < n" for i
    using span_bus [OF assms(2) that] assms(3,4) that by (simp add: scratch_def)
  then show ?thesis using agree_ld8 [OF assms(1)] by (simp add: load_bytes_def)
qed

lemma progress_staged:
  assumes "sysbuf_ok K" "progress (sysbuf K) 2048 m m'"
  shows "load_bytes STAGING_ADDR 0x100000 m' = load_bytes STAGING_ADDR 0x100000 m"
  using assms(2) unfolding progress_def
proof (elim disjE exE conjE)
  assume "agree m m'"
  then show ?thesis by (rule agree_load_bytes) (simp_all add: staging_span)
next
  fix bs
  assume bs: "length bs = 2048" "agree (store_bytes (sysbuf K) bs m) m'"
  have "load_bytes STAGING_ADDR 0x100000 m' = load_bytes STAGING_ADDR 0x100000 (store_bytes (sysbuf K) bs m)"
    by (rule agree_load_bytes [OF bs(2)]) (simp_all add: staging_span)
  also have "\<dots> = load_bytes STAGING_ADDR 0x100000 m"
    using assms(1) bs(1) by (intro store_bytes_load_other)
      (simp_all add: staging_span sysbuf_ok_def gd_req_ok_def gd_tgt_def CMD_PIOREAD_def CMD_DMAREAD_def)
  finally show ?thesis .
qed

lemma load_prefix: "k \<le> n \<Longrightarrow> load_bytes a k m = take k (load_bytes a n m)"
  using load_slice [of 0 k n a m] by (simp add: slice_def)

lemma say_quiet [simp]: "LOADER_QUIET K \<Longrightarrow> say K s l = l"
  by (simp add: say_def)

definition game_image :: "env \<Rightarrow> (nat \<Rightarrow> u8) \<Rightarrow> u8 list" where
  "game_image E disc = sectors disc (CART_FAD E) GAME_SECTORS"

lemma length_game_image [simp]: "length (game_image E disc) = 0x100000"
  by (simp add: game_image_def src_consts)

text \<open>The sector read the loader asks KallistiOS for, after bringing the drive up again, works.\<close>

definition kos_reads :: "env \<Rightarrow> kos \<Rightarrow> loader \<Rightarrow> bool" where
  "kos_reads E K l \<longleftrightarrow> fst (cdrom_read_sectors K STAGING_ADDR (CART_FAD E) GAME_SECTORS (cdrom_reinit K (mach l)))"

lemma loader_read_stage:
  assumes "kos_ok E K disc" "tmk_n l \<le> 16"
  shows "case loader_read E K l of
      Go u l1 \<Rightarrow> staged (game_image E disc) l1 \<and> take 5 (game_image E disc) = naomi
    | Halted s m1 \<Rightarrow> (if kos_reads E K l then s = ''BAD IMAGE (KOS READ)'' \<and> take 5 (game_image E disc) \<noteq> naomi
        else s = ''KOS GD READ FAIL'')
    | Jumped e m1 \<Rightarrow> False"
  "loader_read E K l = Go u l1 \<Longrightarrow> kos_reads E K l"
proof -
  have q: "LOADER_QUIET K" using assms(1) by (simp add: kos_ok_def)
  obtain ok m1 where r: "cdrom_read_sectors K STAGING_ADDR (CART_FAD E) GAME_SECTORS
      (cdrom_reinit K (mach l)) = (ok, m1)" by (metis prod.exhaust)
  have "load_bytes STAGING_ADDR 0x100000 m1 = game_image E disc" if ok
  proof -
    have "load_bytes STAGING_ADDR (unat GAME_LEN) m1 = sectors disc (CART_FAD E) GAME_SECTORS"
      using assms(1) r that unfolding kos_ok_def by simp
    then show ?thesis by (simp add: game_image_def GAME_LEN_def)
  qed
  then show "case loader_read E K l of
      Go u l1 \<Rightarrow> staged (game_image E disc) l1 \<and> take 5 (game_image E disc) = naomi
    | Halted s m1 \<Rightarrow> (if kos_reads E K l then s = ''BAD IMAGE (KOS READ)'' \<and> take 5 (game_image E disc) \<noteq> naomi
        else s = ''KOS GD READ FAIL'')
    | Jumped e m1 \<Rightarrow> False"
    using r assms(2) load_prefix [of 5 "0x100000" STAGING_ADDR m1]
    by (cases ok) (auto simp: loader_read_def q halt_def staged_def Let_def kos_reads_def)
  show "loader_read E K l = Go u l1 \<Longrightarrow> kos_reads E K l"
    using r by (cases ok) (auto simp: loader_read_def q halt_def Let_def kos_reads_def)
qed

lemma loader_rehearse_stage:
  assumes "drive_ok E job disc" "sysbuf_ok K" "LOADER_QUIET K" "staged b l"
  shows "case loader_rehearse E K l of
      Go u l1 \<Rightarrow> staged b l1
    | Halted s m1 \<Rightarrow> s = ''SYSCALL GD READ FAIL'' \<and> \<not> prompt E job
        \<or> s = ''BAD IMAGE (SYSCALL READ)'' \<and> take 5 (sectors disc (CART_FAD E) 1) \<noteq> naomi
    | Jumped e m1 \<Rightarrow> False"
proof -
  have rq: "gd_req_ok CMD_PIOREAD (sysbuf K) 1" using assms(2) by (simp add: sysbuf_ok_def)
  obtain r m1 where t: "sysrd_test E (sysbuf K) (CART_FAD E) 1 (mach l) = (r, m1)"
    "progress (sysbuf K) 2048 (mach l) m1"
    "r = 0 \<and> delivered (sysbuf K) (sectors disc (CART_FAD E) 1) (mach l) m1 \<or> r = - 2 \<and> \<not> prompt E job"
    using sysrd_test_ok [OF assms(1) rq, of "CART_FAD E" "mach l"] by auto
  have st: "load_bytes STAGING_ADDR 0x100000 m1 = b"
    using progress_staged [OF assms(2) t(2)] assms(4) by (simp add: staged_def)
  have sect: "load_bytes (sysbuf K) 5 m1 = take 5 (sectors disc (CART_FAD E) 1)"
    if "delivered (sysbuf K) (sectors disc (CART_FAD E) 1) (mach l) m1"
  proof -
    have a: "span (sysbuf K) 2048" "0x0c010000 \<le> unat (bus (sysbuf K))" "unat (bus (sysbuf K)) + 2048 \<le> 0x0cfd4000"
      using rq by (simp_all add: gd_req_ok_def gd_tgt_def src_consts)
    have "load_bytes (sysbuf K) 2048 m1 = load_bytes (sysbuf K) 2048 (store_bytes (sysbuf K) (sectors disc (CART_FAD E) 1) (mach l))"
      using that a unfolding delivered_def by (intro agree_load_bytes)
    also have "\<dots> = sectors disc (CART_FAD E) 1"
      using store_bytes_load_same [of "sysbuf K" "sectors disc (CART_FAD E) 1" "mach l"] a(1) by simp
    finally show ?thesis using load_prefix [of 5 2048 "sysbuf K" m1] by simp
  qed
  show ?thesis
    using t(1,3) st sect assms(4) by (auto simp: loader_rehearse_def halt_def assms(3) staged_def Let_def)
qed

lemma loader_patch_stage:
  assumes "\<forall>p \<in> set (cleo_patches K). patch_fits 0x100000 p" "LOADER_QUIET K" "staged b l"
  shows "case loader_patch K l of
      Go u l1 \<Rightarrow> (\<exists>b'. patch_img (cleo_patches K) b = Some b' \<and> staged b' l1)
    | Halted s m1 \<Rightarrow> s = ''PATCH ABORT'' \<and> patch_img (cleo_patches K) b = None
    | Jumped e m1 \<Rightarrow> False"
proof -
  have b: "load_bytes STAGING_ADDR 0x100000 (mach l) = b" using assms(3) by (simp add: staged_def)
  show ?thesis
  proof (cases "patch_img (cleo_patches K) b")
    case None
    then obtain m1 where "apply_patches (cleo_patches K) STAGING_ADDR (mach l) = (- 1, m1)"
      using apply_patches_image [OF staging_span(1) assms(1) b] by auto
    then show ?thesis by (simp add: loader_patch_def halt_def None)
  next
    case (Some b')
    then obtain m1 where "apply_patches (cleo_patches K) STAGING_ADDR (mach l) = (0, m1)"
      "load_bytes STAGING_ADDR 0x100000 m1 = b'"
      using apply_patches_image [OF staging_span(1) assms(1) b] by auto
    then show ?thesis using assms(3) by (simp add: loader_patch_def assms(2) Some staged_def)
  qed
qed

text \<open>What the game finds.\<close>

definition handed_over :: "kos \<Rightarrow> u8 list \<Rightarrow> machine \<Rightarrow> bool" where
  "handed_over K img m \<longleftrightarrow> (\<forall>q. dcache m q = None) \<and>
     load_bytes GAME_LOAD_ADDR 0x100000 m = img \<and>
     load_bytes SHIM_BASE 0x8000 m = shim_image K \<and>
     load_bytes BIOS_DATA_60000 0x7000 m = take 0x7000 (bios_data K) \<and>
     load_bytes BIOS_DATA_1FFD00 0x70 m = drop 0x7000 (bios_data K) \<and>
     load_bytes (P2ADDR G1_MIRROR) 0x800 m = replicate 0x800 0 \<and>
     load_bytes (P2ADDR MAPLE_MIRROR) 0x100 m = replicate 0x100 0"

lemma loader_jump_stage:
  assumes "kos_ok E K disc" "blobs_ok K" "staged b l"
  shows "\<exists>m1. loader_jump K l = Jumped GAME_ENTRY m1 \<and> handed_over K b m1"
proof -
  obtain m1 where m1: "loader_jump K l = Jumped GAME_ENTRY m1" "\<forall>q. dcache m1 q = None"
    "load_bytes GAME_LOAD_ADDR 0x100000 m1 = load_bytes STAGING_ADDR 0x100000 (mach l)"
    "\<forall>(a, bs) \<in> set (boot_layout K). load_bytes a (length bs) m1 = bs"
    using loader_jump_blocks [OF assms(1,2)] assms(3) unfolding staged_def by blast
  have "load_bytes a (length bs) m1 = bs" if "(a, bs) \<in> set (boot_layout K)" for a bs
    using m1(4) that by blast
  note blk = this [of SHIM_BASE "shim_image K"] this [of BIOS_DATA_60000 "take 0x7000 (bios_data K)"]
    this [of BIOS_DATA_1FFD00 "drop 0x7000 (bios_data K)"] this [of "P2ADDR G1_MIRROR" "replicate 0x800 0"]
    this [of "P2ADDR MAPLE_MIRROR" "replicate 0x100 0"]
  have "handed_over K b m1"
    unfolding handed_over_def using m1(2,3) assms(3) blk [unfolded layout_lengths [OF assms(2)] length_replicate]
    by (simp add: boot_layout_def staged_def)
  with m1(1) show ?thesis by blast
qed

section \<open>The whole of \<^verbatim>\<open>main\<close>\<close>

lemma take_sectors:
  assumes "5 \<le> unat n * 2048" "5 \<le> unat k * 2048"
  shows "take 5 (sectors disc fad n) = take 5 (sectors disc fad k)"
  using assms by (intro nth_equalityI) (simp_all add: sectors_def)

text \<open>How \<open>main\<close> ends, by the stage it reaches.\<close>

lemma loader_start_simps [simp]: "tmk_n (loader_start K m) \<le> 16"
  by (simp add: loader_start_def loader_init_def)

lemma loader_main_cases:
  assumes "kos_ok E K disc" "blobs_ok K" "drive_ok E job disc" "sysbuf_ok K"
    "\<forall>p \<in> set (cleo_patches K). patch_fits 0x100000 p"
  shows "case loader_main E K m of
      Go u l \<Rightarrow> False
    | Halted s m1 \<Rightarrow> loader_read E K (loader_start K m) = Halted s m1 \<and>
          (s = ''KOS GD READ FAIL'' \<and> \<not> kos_reads E K (loader_start K m) \<or>
           s = ''BAD IMAGE (KOS READ)'' \<and> kos_reads E K (loader_start K m) \<and> take 5 (game_image E disc) \<noteq> naomi) \<or>
        (kos_reads E K (loader_start K m) \<and> take 5 (game_image E disc) = naomi) \<and>
          (s = ''SYSCALL GD READ FAIL'' \<and> \<not> prompt E job \<or>
           s = ''PATCH ABORT'' \<and> patch_img (cleo_patches K) (game_image E disc) = None)
    | Jumped e m1 \<Rightarrow> e = GAME_ENTRY \<and> take 5 (game_image E disc) = naomi \<and>
        (\<exists>img. patch_img (cleo_patches K) (game_image E disc) = Some img \<and> handed_over K img m1)"
proof -
  have q: "LOADER_QUIET K" using assms(1) by (simp add: kos_ok_def)
  let ?l0 = "loader_start K m"
  show ?thesis
  proof (cases "loader_read E K ?l0")
    case (Go u l1)
    have s1: "staged (game_image E disc) l1" "take 5 (game_image E disc) = naomi"
      using loader_read_stage(1) [OF assms(1), of ?l0] Go by simp_all
    have kr: "kos_reads E K ?l0" by (rule loader_read_stage(2) [OF assms(1) _ Go]) simp
    have n: "take 5 (sectors disc (CART_FAD E) 1) = naomi"
      using s1(2) take_sectors [of 1 GAME_SECTORS disc "CART_FAD E"] by (simp add: game_image_def src_consts)
    show ?thesis
    proof (cases "loader_rehearse E K l1")
      case Go2: (Go u2 l2)
      have s2: "staged (game_image E disc) l2"
        using loader_rehearse_stage [OF assms(3,4) q s1(1)] Go2 by simp
      show ?thesis
      proof (cases "loader_patch K l2")
        case Go3: (Go u3 l3)
        obtain img where img: "patch_img (cleo_patches K) (game_image E disc) = Some img" "staged img l3"
          using loader_patch_stage [OF assms(5) q s2] Go3 by auto
        obtain m1 where "loader_jump K l3 = Jumped GAME_ENTRY m1" "handed_over K img m1"
          using loader_jump_stage [OF assms(1,2) img(2)] by blast
        then show ?thesis using img(1) s1(2) by (simp add: loader_main_def Go Go2 Go3)
      qed (use loader_patch_stage [OF assms(5) q s2] kr s1(2) in \<open>simp_all add: loader_main_def Go Go2\<close>)
    qed (use loader_rehearse_stage [OF assms(3,4) q s1(1)] n kr s1(2) in \<open>auto simp: loader_main_def Go\<close>)
  qed (use loader_read_stage(1) [OF assms(1), of ?l0] in \<open>auto simp: loader_main_def split: if_splits\<close>)
qed

lemma loader_main_Go:
  assumes "kos_ok E K disc" "blobs_ok K" "drive_ok E job disc" "sysbuf_ok K"
    "\<forall>p \<in> set (cleo_patches K). patch_fits 0x100000 p"
  shows "loader_main E K m \<noteq> Go u l"
  using loader_main_cases [OF assms, of m] by auto

lemma loader_main_jump:
  assumes "kos_ok E K disc" "blobs_ok K" "drive_ok E job disc" "sysbuf_ok K"
    "\<forall>p \<in> set (cleo_patches K). patch_fits 0x100000 p" "loader_main E K m = Jumped e m1"
  shows "e = GAME_ENTRY \<and> take 5 (game_image E disc) = naomi \<and>
    (\<exists>img. patch_img (cleo_patches K) (game_image E disc) = Some img \<and> handed_over K img m1)"
  using loader_main_cases [OF assms(1-5), of m] assms(6) by simp

lemma loader_main_halt:
  assumes "kos_ok E K disc" "blobs_ok K" "drive_ok E job disc" "sysbuf_ok K"
    "\<forall>p \<in> set (cleo_patches K). patch_fits 0x100000 p" "loader_main E K m = Halted s m1"
  shows "loader_read E K (loader_start K m) = Halted s m1 \<and>
      (s = ''KOS GD READ FAIL'' \<and> \<not> kos_reads E K (loader_start K m) \<or>
       s = ''BAD IMAGE (KOS READ)'' \<and> kos_reads E K (loader_start K m) \<and> take 5 (game_image E disc) \<noteq> naomi) \<or>
    (kos_reads E K (loader_start K m) \<and> take 5 (game_image E disc) = naomi) \<and>
      (s = ''SYSCALL GD READ FAIL'' \<and> \<not> prompt E job \<or>
       s = ''PATCH ABORT'' \<and> patch_img (cleo_patches K) (game_image E disc) = None)"
  using loader_main_cases [OF assms(1-5), of m] assms(6) by simp

lemma kos_reads_start: "kos_reads E K (loader_start K m) \<longleftrightarrow>
  fst (cdrom_read_sectors K STAGING_ADDR (CART_FAD E) GAME_SECTORS (cdrom_reinit K (loader_splash K m)))"
  by (simp add: kos_reads_def loader_start_def loader_init_def)

text \<open>A screen the loader stops on is red, with the message drawn over it.\<close>

definition red_screen :: "kos \<Rightarrow> string \<Rightarrow> machine \<Rightarrow> bool" where
  "red_screen K s m1 \<longleftrightarrow> (\<exists>m0. m1 = bfont_draw_str K (vram_s K + 128040) 640 1 s m0 \<and>
     (fb_ok (vram_s K) \<longrightarrow> (\<forall>i < 640 * 480. get_px (vram_s K) i m0 = 0xf800)))"

lemma halt_red: "red_screen K s m1" if "halt K s' l = Halted s m1"
proof -
  let ?m0 = "fold (\<lambda>i. put_px (vram_s K) i 0xf800) [0 ..< 640 * 480] (mach l)"
  have "get_px (vram_s K) i ?m0 = 0xf800" if "fb_ok (vram_s K)" "i < 640 * 480" for i
  proof -
    have "get_px (vram_s K) i ?m0 = (if \<exists>j \<in> set [0 ..< 640 * 480]. j = i then 0xf800 else get_px (vram_s K) i (mach l))"
      using that by (intro fb.get_fold_row) (auto simp: px_ok_def)
    then show ?thesis using that(2) by (simp add: Bex_def)
  qed
  moreover have "s' = s" "m1 = bfont_draw_str K (vram_s K + 128040) 640 1 s ?m0"
    using that by (auto simp: halt_def Let_def)
  ultimately show ?thesis unfolding red_screen_def by blast
qed

lemma loader_main_red: "loader_main E K m = Halted s m1 \<Longrightarrow> red_screen K s m1"
proof -
  have r: "loader_read E K l = Halted s m1 \<Longrightarrow> red_screen K s m1" for l
    by (auto simp: loader_read_def Let_def split_beta split: if_splits dest: halt_red)
  have h: "loader_rehearse E K l = Halted s m1 \<Longrightarrow> red_screen K s m1" for l
    by (auto simp: loader_rehearse_def Let_def split_beta split: if_splits dest: halt_red)
  have p: "loader_patch K l = Halted s m1 \<Longrightarrow> red_screen K s m1" for l
    by (auto simp: loader_patch_def Let_def split_beta split: if_splits dest: halt_red)
  have j: "loader_jump K l \<noteq> Halted s m1" for l
    by (simp add: loader_jump_def Let_def split_beta)
  have b: "red_screen K s m1" if "bindb x f = Halted s m1" "x = Halted s m1 \<Longrightarrow> red_screen K s m1"
    "\<And>a l. f a l = Halted s m1 \<Longrightarrow> red_screen K s m1" for x :: "unit boot" and f :: "unit \<Rightarrow> loader \<Rightarrow> unit boot"
    using that by (cases x) auto
  assume "loader_main E K m = Halted s m1"
  then show ?thesis
    unfolding loader_main_def
  proof (rule b)
    fix a l
    assume "bindb (loader_rehearse E K l) (\<lambda>u l. bindb (loader_patch K l) (\<lambda>u. loader_jump K)) = Halted s m1"
    then show "red_screen K s m1"
    proof (rule b)
      fix a l
      assume "bindb (loader_patch K l) (\<lambda>u. loader_jump K) = Halted s m1"
      then show "red_screen K s m1" by (rule b) (use p j in blast)+
    qed (use h in blast)
  qed (use r in blast)
qed

lemma loader_read_works:
  assumes "kos_ok E K disc" "\<forall>m. fst (cdrom_read_sectors K STAGING_ADDR (CART_FAD E) GAME_SECTORS m)"
    "take 5 (game_image E disc) = naomi"
  shows "loader_read E K l \<noteq> Halted s m1"
proof -
  obtain m2 where r: "cdrom_read_sectors K STAGING_ADDR (CART_FAD E) GAME_SECTORS
      (cdrom_reinit K (mach l)) = (True, m2)"
    using assms(2) by (metis prod.collapse)
  then have "load_bytes STAGING_ADDR (unat GAME_LEN) m2 = game_image E disc"
    using assms(1) unfolding kos_ok_def game_image_def by simp
  then have "load_bytes STAGING_ADDR 5 m2 = naomi"
    using load_prefix [of 5 "0x100000" STAGING_ADDR m2] assms(3) by (simp add: GAME_LEN_def)
  moreover have "LOADER_QUIET K" using assms(1) by (simp add: kos_ok_def)
  ultimately show ?thesis using r by (simp add: loader_read_def Let_def)
qed

end
