(* ===== verification/Loader_Props.thy ===== *)
theory Loader_Props
  imports Loader_Boot Demo
begin

text \<open>
  The properties of the loader and the hand-over stub, each with a witness where it has hypotheses.
  The world of the witnesses: a drive and a KallistiOS that serve the same disc, whose cartridge area
  begins with the header the loader looks for, and a patch table of two rows.
\<close>

definition boot_disc :: "nat \<Rightarrow> u8" where
  "boot_disc i = (if 451878 * 2048 \<le> i \<and> i < 451878 * 2048 + 5 then naomi ! (i - 451878 * 2048) else word_of_nat i)"

definition boot_env :: "env \<Rightarrow> env" where
  "boot_env E = E\<lparr>CART_FAD := 451878, gd_vector := disc_vector boot_disc\<rparr>"

definition boot_patches :: "patch_t list" where
  "boot_patches =
    [\<lparr>p_addr = 0x8c020010, p_len = 2, p_old = [16, 17], p_neu = [0xaa, 0xbb], p_what = ''first''\<rparr>,
     \<lparr>p_addr = 0x8c020020, p_len = 1, p_old = [32], p_neu = [0xcc], p_what = ''second''\<rparr>]"

definition boot_kos :: kos where
  "boot_kos = \<lparr>LOADER_QUIET = True, LOADER_TIMING = False, vram_s = 0xa5000000, sysbuf = 0x8c060000, vid_set_mode = id,
     bfont_draw_str = (\<lambda>a w opaque s m. m), cdrom_reinit = id,
     cdrom_read_sectors = (\<lambda>dst fad n m. (True, store_bytes dst (sectors boot_disc fad n) m)),
     dcache_purge_range = (\<lambda>a n m. m\<lparr>ram := (\<lambda>q. if in_lines a (unat n) q then cview m q else ram m q),
       dcache := (\<lambda>q. if in_lines a (unat n) q then None else dcache m q)\<rparr>),
     irq_disable = id, arch_timer_gettime = (\<lambda>m. (0, 0)), splash_bin = replicate 0x96000 0x55, shim_bin = [1, 2, 3, 4],
     bios_data = replicate 0x7070 7, handoff_stub = [0x63, 0x60], cleo_patches = boot_patches\<rparr>"

lemma boot_env_simps [simp]: "CART_FAD (boot_env E) = 451878" "gd_vector (boot_env E) = disc_vector boot_disc"
  by (simp_all add: boot_env_def)

lemma boot_drive_ok: "drive_ok (boot_env E) demo_job boot_disc"
  by (rule disc_drive_ok) simp

lemma boot_prompt: "prompt (boot_env E) demo_job"
  by (auto simp: prompt_def demo_job_def src_consts split: list.splits)

lemma boot_kos_ok: "kos_ok (boot_env E) boot_kos boot_disc"
proof -
  have "load_bytes STAGING_ADDR (unat GAME_LEN) (store_bytes STAGING_ADDR (sectors boot_disc fad GAME_SECTORS) m)
    = sectors boot_disc fad GAME_SECTORS" for fad m
    using store_bytes_load_same [of STAGING_ADDR "sectors boot_disc fad GAME_SECTORS" m]
    by (simp add: span_def src_consts)
  moreover have "\<exists>c. m = m\<lparr>cpu := c\<rparr>" for m :: machine
    by (rule exI [of _ "cpu m"]) simp
  ultimately show ?thesis
    by (auto simp: kos_ok_def boot_kos_def flushed_def cview_def)
qed

lemma boot_blobs_ok: "blobs_ok boot_kos" "sysbuf_ok boot_kos"
  by (simp_all add: blobs_ok_def sysbuf_ok_def boot_kos_def gd_req_ok_def gd_tgt_def span_def unat_bus
      blocks_disjoint_def CMD_PIOREAD_def CMD_DMAREAD_def STAGING_ADDR_def)

lemma boot_patches_fit: "\<forall>p \<in> set (cleo_patches boot_kos). patch_fits 0x100000 p"
  by (simp add: boot_kos_def boot_patches_def patch_fits_def patch_off_def GAME_LOAD_ADDR_def)

lemma boot_image_nth: "i < 0x100000 \<Longrightarrow> game_image (boot_env E) boot_disc ! i = boot_disc (451878 * 2048 + i)"
  by (simp add: game_image_def sectors_def src_consts)

lemma boot_image_naomi: "take 5 (game_image (boot_env E) boot_disc) = naomi"
proof (rule nth_equalityI)
  fix i
  assume "i < length (take 5 (game_image (boot_env E) boot_disc))"
  then show "take 5 (game_image (boot_env E) boot_disc) ! i = naomi ! i"
    by (simp add: boot_image_nth boot_disc_def)
qed (simp add: naomi_def)

lemma boot_patched: "\<exists>img. patch_img (cleo_patches boot_kos) (game_image (boot_env E) boot_disc) = Some img"
proof -
  have "patch_img boot_patches (game_image (boot_env E) boot_disc) \<noteq> None"
  proof (subst patch_img_checks)
    have s: "slice k n (game_image (boot_env E) boot_disc) = map (\<lambda>i. boot_disc (451878 * 2048 + (k + i))) [0 ..< n]"
      if "k + n < 0x100000" for k n
      using that by (intro nth_equalityI) (auto simp: slice_def boot_image_nth)
    show "\<not> (\<exists>p \<in> set boot_patches. slice (patch_off p) (unat (p_len p)) (game_image (boot_env E) boot_disc) \<noteq> p_old p)"
      by (simp add: boot_patches_def patch_off_def GAME_LOAD_ADDR_def s upt_rec boot_disc_def)
  qed (simp_all add: boot_patches_def patch_fits_def patch_off_def GAME_LOAD_ADDR_def patch_apart_def)
  then show ?thesis by (simp add: boot_kos_def)
qed

lemma boot_reads: "\<forall>m. fst (cdrom_read_sectors boot_kos STAGING_ADDR (CART_FAD (boot_env E)) GAME_SECTORS m)"
  by (simp add: boot_kos_def)

lemma boot_jumps: "\<exists>m1. loader_main (boot_env E) boot_kos m = Jumped GAME_ENTRY m1"
proof (cases "loader_main (boot_env E) boot_kos m")
  case (Halted s m1)
  then show ?thesis
    using loader_main_halt [OF boot_kos_ok boot_blobs_ok(1) boot_drive_ok boot_blobs_ok(2) boot_patches_fit Halted]
      loader_read_works [OF boot_kos_ok boot_reads boot_image_naomi,
        where l = "loader_start boot_kos m"] boot_prompt boot_patched [of E] by auto
next
  case (Jumped e m1)
  then show ?thesis
    using loader_main_jump [OF boot_kos_ok boot_blobs_ok(1) boot_drive_ok boot_blobs_ok(2) boot_patches_fit Jumped]
    by simp
qed (use loader_main_Go [OF boot_kos_ok boot_blobs_ok(1) boot_drive_ok boot_blobs_ok(2) boot_patches_fit] in auto)

section \<open>From power-on to the game\<close>

text \<open>
  C2. The loader never starts an unverified game: whatever the drive reports, if it jumps, it jumps
  to the game's entry, every row of the patch table found its old bytes in the image read from
  the disc, and the game finds the patched image, the shim with zeroed statics, both BIOS slices
  and both zeroed register mirrors, in memory and through an empty cache.
\<close>

theorem loader_jump_verified:
  assumes "kos_ok E K disc" "blobs_ok K" "drive_ok E job disc" "sysbuf_ok K"
    "\<forall>p \<in> set (cleo_patches K). patch_fits 0x100000 p" "loader_main E K m = Jumped e m1"
  shows "e = GAME_ENTRY \<and> take 5 (game_image E disc) = naomi \<and>
    (\<exists>img. patch_img (cleo_patches K) (game_image E disc) = Some img \<and> handed_over K img m1)"
  by (rule loader_main_jump [OF assms])

lemma loader_jump_verified_witness:
  "\<exists>m1 img. loader_main (boot_env demo_env) boot_kos demo_zero = Jumped GAME_ENTRY m1 \<and> handed_over boot_kos img m1"
proof -
  obtain m1 where j: "loader_main (boot_env demo_env) boot_kos demo_zero = Jumped GAME_ENTRY m1"
    using boot_jumps by blast
  then show ?thesis
    using loader_jump_verified [OF boot_kos_ok boot_blobs_ok(1) boot_drive_ok boot_blobs_ok(2) boot_patches_fit j]
    by auto
qed

text \<open>
  C8. It does start it: with a drive that works and is never caught between commands, a readable
  disc with the right header and a patch table that matches it, the loader reaches the game.
\<close>

theorem loader_reaches_game:
  assumes "kos_ok E K disc" "blobs_ok K" "drive_ok E job disc" "sysbuf_ok K" "prompt E job"
    "\<forall>p \<in> set (cleo_patches K). patch_fits 0x100000 p"
    "\<forall>m. fst (cdrom_read_sectors K STAGING_ADDR (CART_FAD E) GAME_SECTORS m)"
    "take 5 (game_image E disc) = naomi" "patch_img (cleo_patches K) (game_image E disc) = Some img"
  shows "\<exists>m1. loader_main E K m = Jumped GAME_ENTRY m1 \<and> handed_over K img m1"
proof (cases "loader_main E K m")
  case (Halted s m1)
  then show ?thesis
    using loader_main_halt [OF assms(1-4,6) Halted] assms(5,9)
      loader_read_works [OF assms(1,7,8), of "loader_start K m"]
    by auto
next
  case (Jumped e m1)
  then show ?thesis using loader_main_jump [OF assms(1-4,6) Jumped] assms(9) by auto
qed (use loader_main_Go [OF assms(1-4,6)] in blast)

lemma loader_reaches_game_witness:
  "\<exists>m1. loader_main (boot_env demo_env) boot_kos demo_zero = Jumped GAME_ENTRY m1 \<and>
     load_bytes SHIM_BASE 0x8000 m1 = [1, 2, 3, 4] @ replicate 0x7ffc 0"
proof -
  obtain img where "patch_img (cleo_patches boot_kos) (game_image (boot_env demo_env) boot_disc) = Some img"
    using boot_patched by blast
  from loader_reaches_game [OF boot_kos_ok boot_blobs_ok(1) boot_drive_ok boot_blobs_ok(2) boot_prompt
      boot_patches_fit boot_reads boot_image_naomi this, of demo_zero]
  show ?thesis
    unfolding handed_over_def shim_image_def by (auto simp: boot_kos_def)
qed




section \<open>The rehearsal\<close>

text \<open>
  The rehearsal ends for any drive, with one of four codes, and reports a refused command (-1)
  exactly when the drive's handle is not positive.
\<close>

theorem sysrd_codes:
  "fst (sysrd_test E dst fad n m) \<in> {0, - 1, - 2, - 3} \<and>
   (fst (sysrd_test E dst fad n m) = - 1 \<longleftrightarrow> sint (fst (gd_vector E 16 (Some (fad, n, dst, 0)) 0 m)) \<le> 0)"
proof -
  have "fst (sysrd_poll E req 0 (uninit E) m1) \<noteq> - 1" for req m1
    using sysrd_poll_codes [of E req 0 "uninit E" m1] by auto
  then show ?thesis
    using sysrd_test_codes [of E dst fad n m] by (simp add: sysrd_test_def split_beta)
qed

text \<open>
  C27. On a working drive the rehearsal either delivers the sector, or gives up with -2 at the first
  \<^verbatim>\<open>NOT_FOUND\<close>; the shim's own read of the same sector always delivers. The loader is the stricter one.
\<close>

theorem sysrd_rehearses:
  assumes "drive_ok E job disc" "gd_req_ok CMD_PIOREAD dst n" "call_ok E m"
  shows "(\<exists>m1. sysrd_test E dst fad n m = (0, m1) \<and> delivered dst (sectors disc fad n) m m1 \<or>
      sysrd_test E dst fad n m = (- 2, m1) \<and> \<not> prompt E job) \<and>
    (\<exists>m1. gd_read_sectors E dst fad n m = Ret 0 m1 \<and> delivered dst (sectors disc fad n) m m1)"
  using sysrd_test_ok [OF assms(1,2), of fad m] gd_read_sectors_ok [OF assms(1,2,3), of fad] by blast

lemma sysrd_rehearses_witness:
  "\<exists>m1. sysrd_test (boot_env demo_env) 0x8c060000 451878 1 demo_zero = (0, m1) \<and>
     delivered 0x8c060000 (sectors boot_disc 451878 1) demo_zero m1"
  using sysrd_rehearses [OF boot_drive_ok [of demo_env], where dst = "0x8c060000" and n = 1 and m = demo_zero
    and fad = 451878] boot_prompt
  by (auto simp: gd_req_ok_def gd_tgt_def span_def unat_bus CMD_PIOREAD_def CMD_DMAREAD_def
      call_ok_def demo_call_ok(1) [unfolded call_ok_def])

section \<open>The patch stage\<close>

text \<open>
  C9. The patch stage, on a table whose rows fit the image and do not overlap: it returns 0 exactly
  if every row's old bytes are in the image; then every row's new bytes are, every other byte of the
  image is as before, and nothing outside the image has been written.
\<close>

theorem patches_exact:
  assumes "span img len" "\<forall>p \<in> set ps. patch_fits len p" "sorted_wrt patch_apart ps"
  shows "(fst (apply_patches ps img m) = 0 \<longleftrightarrow>
      (\<forall>p \<in> set ps. slice (patch_off p) (unat (p_len p)) (load_bytes img len m) = p_old p)) \<and>
    touches (in_block img len) m (snd (apply_patches ps img m)) \<and>
    (fst (apply_patches ps img m) = 0 \<longrightarrow>
      (\<forall>i < len. load_bytes img len (snd (apply_patches ps img m)) ! i =
        (case find (in_patch i) ps of Some p \<Rightarrow> p_neu p ! (i - patch_off p) | None \<Rightarrow> load_bytes img len m ! i)))"
proof -
  have f: "\<forall>p \<in> set ps. patch_fits (length (load_bytes img len m)) p" using assms(2) by simp
  show ?thesis
  proof (cases "patch_img ps (load_bytes img len m)")
    case None
    then obtain m1 where "apply_patches ps img m = (- 1, m1)" "touches (in_block img len) m m1"
      using apply_patches_image [OF assms(1,2) refl, of m] by auto
    then show ?thesis using None patch_img_checks [OF f assms(3)] by auto
  next
    case (Some b')
    then obtain m1 where "apply_patches ps img m = (0, m1)" "touches (in_block img len) m m1"
      "load_bytes img len m1 = b'"
      using apply_patches_image [OF assms(1,2) refl, of m] by auto
    moreover have "b' ! i = (case find (in_patch i) ps of Some p \<Rightarrow> p_neu p ! (i - patch_off p)
        | None \<Rightarrow> load_bytes img len m ! i)" if "i < len" for i
      using patch_img_nth [OF f assms(3) Some] that
      by (auto simp: find_None_iff find_Some_iff split: option.split)
    ultimately show ?thesis using Some patch_img_checks [OF f assms(3)] by auto
  qed
qed

lemma patches_exact_witness:
  "fst (apply_patches boot_patches 0x8cd00000 (store_bytes 0x8cd00000 (map word_of_nat [0 ..< 64]) demo_zero)) = 0"
proof -
  have s: "span 0x8cd00000 64" by (simp add: span_def)
  have "load_bytes 0x8cd00000 64 (store_bytes 0x8cd00000 (map word_of_nat [0 ..< 64]) demo_zero) = map word_of_nat [0 ..< 64]"
    using store_bytes_load_same [of "0x8cd00000" "map word_of_nat [0 ..< 64]" demo_zero] s by simp
  then show ?thesis
    using patches_exact [OF s, of boot_patches "store_bytes 0x8cd00000 (map word_of_nat [0 ..< 64]) demo_zero"]
    by (simp add: boot_patches_def patch_fits_def patch_off_def GAME_LOAD_ADDR_def patch_apart_def slice_def
        drop_map take_map drop_upt take_upt upt_rec)
qed

section \<open>The hand-over and the splash\<close>

lemma rgb_channels:
  "drop_bit 10 (RGB565_TO_0555 p) = drop_bit 11 p" (is ?r)
  "drop_bit 5 (RGB565_TO_0555 p) AND 31 = drop_bit 6 p AND 31" (is ?g)
  "RGB565_TO_0555 p AND 31 = p AND 31" (is ?b)
proof -
  have m: "(31 :: u16) = mask 5" "(0x1f :: u16) = mask 5" "(0xffc0 :: u16) = push_bit 6 (mask 10)"
    by (simp_all add: mask_numeral)
  have l: "n < 16" if "bit (p :: u16) n" for n
    using bit_imp_le_length [OF that] by simp
  show ?r ?g ?b
    unfolding RGB565_TO_0555_def m
    by (rule bit_eqI; auto simp: bit_simps dest: l)+
qed

lemma splash_shows:
  assumes "LOADER_QUIET K" "fb_ok (vram_s K)" "i < 640 * 480"
  shows "get_px (vram_s K) i (loader_splash K m) = RGB565_TO_0555 (splash_px K i)"
proof -
  have "get_px (vram_s K) i (fold (\<lambda>j. put_px (vram_s K) j (RGB565_TO_0555 (splash_px K j))) [0 ..< 640 * 480] m1)
    = (if \<exists>j \<in> set [0 ..< 640 * 480]. j = i then RGB565_TO_0555 (splash_px K i) else get_px (vram_s K) i m1)" for m1
    using assms by (intro fb.get_fold_row) (auto simp: px_ok_def)
  then show ?thesis using assms by (simp add: loader_splash_def Bex_def)
qed

text \<open>
  The copy loop of the stub moves a block of \<open>n\<close> longwords exactly as one block store would,
  for every count the counter register can hold without wrapping, if the blocks are apart.
\<close>

theorem handoff_copies:
  assumes "blocks_apart dst src (4 * n)" "0 < n" "n < 0x40000000"
  shows "handoff_copy src dst (word_of_nat n) m = store_bytes dst (load_bytes src (4 * n) m) m"
  by (rule handoff_copy_block [OF assms])

lemma handoff_copies_witness:
  "load_bytes 0xac020000 8 (handoff_copy 0xacd00000 0xac020000 2 (store_bytes 0xacd00000 [1, 2, 3, 4, 5, 6, 7, 8] demo_zero))
    = [1, 2, 3, 4, 5, 6, 7, 8]"
proof -
  let ?b = "[1, 2, 3, 4, 5, 6, 7, 8] :: u8 list"
  have l: "length ?b = 8" by simp
  have "load_bytes 0xacd00000 8 (store_bytes 0xacd00000 ?b demo_zero) = ?b"
    using store_bytes_load_same [of "0xacd00000" ?b demo_zero, unfolded l] by (simp add: span_def)
  moreover have "load_bytes 0xac020000 8 (store_bytes 0xac020000 ?b m) = ?b" for m
    using store_bytes_load_same [of "0xac020000" ?b m, unfolded l] by (simp add: span_def)
  moreover have "handoff_copy 0xacd00000 0xac020000 (word_of_nat 2) m
      = store_bytes 0xac020000 (load_bytes 0xacd00000 (4 * 2) m) m" for m
    by (rule handoff_copies) (simp_all add: blocks_apart_def span_def unat_bus)
  ultimately show ?thesis by simp
qed

text \<open>
  The splash: every pixel of the 640 x 480 screen shows the converted pixel of the embedded picture,
  and the conversion keeps red and blue, drops the low bit of green, and leaves the top bit 0.
\<close>

theorem splash_pixels:
  assumes "LOADER_QUIET K" "fb_ok (vram_s K)" "i < 640 * 480"
  shows "get_px (vram_s K) i (loader_splash K m) = RGB565_TO_0555 (splash_px K i) \<and>
    drop_bit 10 (RGB565_TO_0555 p) = drop_bit 11 p \<and>
    drop_bit 5 (RGB565_TO_0555 p) AND 31 = drop_bit 6 p AND 31 \<and>
    RGB565_TO_0555 p AND 31 = p AND 31"
  using splash_shows [OF assms] rgb_channels by blast

lemma splash_pixels_witness:
  "get_px 0xa5000000 1000 (loader_splash boot_kos demo_zero) = RGB565_TO_0555 0x5555"
  using splash_pixels [of boot_kos 1000 demo_zero 0]
  by (simp add: boot_kos_def fb_ok_def splash_px_def nth_replicate)

end
