(* ===== verification/Maple.thy ===== *)
theory Maple
  imports Framebuffer
begin

text \<open>
  \<^verbatim>\<open>shims/src/maple.c\<close>: one synchronous transaction on the Maple bus at a time: the descriptor and
  frame are written to uncached memory, the DMA is started and its status register polled. The
  engine (\<open>maple_hw\<close>) moves before each poll; a DMA that never ends is \<open>Hang\<close>.
\<close>

definition SB_MDSTAR :: u32 where [src_consts]: "SB_MDSTAR = 0xa05f6c04"
definition SB_MDTSEL :: u32 where [src_consts]: "SB_MDTSEL = 0xa05f6c10"
definition SB_MDEN :: u32 where [src_consts]: "SB_MDEN = 0xa05f6c14"
definition SB_MDST :: u32 where [src_consts]: "SB_MDST = 0xa05f6c18"
definition SB_MSPEED :: u32 where [src_consts]: "SB_MSPEED = 0xa05f6c80"
definition SB_MDAPRO :: u32 where [src_consts]: "SB_MDAPRO = 0xa05f6c8c"

definition maple_wait :: "env \<Rightarrow> machine \<Rightarrow> unit outcome" where
  "maple_wait E m =
     (case while_option (\<lambda>m. ld32 SB_MDST m AND 1 \<noteq> 0) (maple_hw E) (maple_hw E m) of
        Some m1 \<Rightarrow> Ret () m1
      | None \<Rightarrow> Hang)"

text \<open>\<^verbatim>\<open>SB_MDTSEL = 0; SB_MDSTAR = MAPLE_TX; SB_MDEN = 1; SB_MDST = 1; while (SB_MDST & 1) ;\<close>\<close>

definition maple_fire :: "env \<Rightarrow> machine \<Rightarrow> unit outcome" where
  "maple_fire E m =
     maple_wait E (reg_w SB_MDST 1 (reg_w SB_MDEN 1 (reg_w SB_MDSTAR (MAPLE_TX AND 0x1fffffff)
       (reg_w SB_MDTSEL 0 m))))"

definition rx_word :: "u32 \<Rightarrow> machine \<Rightarrow> u32" where
  "rx_word i m = ld32 (P2ADDR MAPLE_RX + 4 * i) m"

definition probe_frame :: "u32 \<Rightarrow> machine \<Rightarrow> machine" where
  "probe_frame port m =
     (let tx = P2ADDR MAPLE_TX; rx = P2ADDR MAPLE_RX;
          dst = push_bit 6 port OR 0x20;
          m1 = st32 rx 0 m;
          m2 = st32 tx (0x80000000 OR push_bit 16 port) m1;
          m3 = st32 (tx + 4) (MAPLE_RX AND 0x1fffffff) m2
      in st32 (tx + 8) (push_bit 16 (push_bit 6 port) OR push_bit 8 dst OR 1) m3)"

definition probe_devinfo :: "env \<Rightarrow> u32 \<Rightarrow> machine \<Rightarrow> unit outcome" where
  "probe_devinfo E port m =
     bindo (maple_fire E (probe_frame port m)) (\<lambda>u m1.
       Ret () (m1\<lparr>mapled := (mapled m1)\<lparr>devinfo_hdr := (devinfo_hdr (mapled m1))(port := rx_word 0 m1)\<rparr>\<rparr>))"

text \<open>The one-time re-assertion of the bus registers, with a device probe of both ports.\<close>

definition maple_bus_init :: "env \<Rightarrow> machine \<Rightarrow> unit outcome" where
  "maple_bus_init E m =
     (if bus_init_done (mapled m) AND 0x10000 \<noteq> 0 then
        (let m0 = m\<lparr>mapled := (mapled m)\<lparr>bus_init_done := 1\<rparr>\<rparr>;
             m1 = reg_w SB_MDEN 1 (reg_w SB_MDTSEL 0 (reg_w SB_MSPEED 0xC3500000 (reg_w SB_MDAPRO 0x6155404f m0)))
         in bindo (probe_devinfo E 0 m1) (\<lambda>u. probe_devinfo E 1))
      else Ret () m)"

definition getcond_frame :: "u32 \<Rightarrow> machine \<Rightarrow> machine" where
  "getcond_frame port m =
     (let tx = P2ADDR MAPLE_TX; rx = P2ADDR MAPLE_RX;
          dst = push_bit 6 port OR 0x20;
          m1 = st32 rx 0 m;
          m2 = st32 tx (0x80000000 OR push_bit 16 port OR 1) m1;
          m3 = st32 (tx + 4) (MAPLE_RX AND 0x1fffffff) m2;
          m4 = st32 (tx + 8) (push_bit 24 1 OR push_bit 16 (push_bit 6 port) OR push_bit 8 dst OR 9) m3
      in st32 (tx + 12) 0x01000000 m4)"

text \<open>The attempts still to make; a reply that is not a data transfer leads to the next.\<close>

fun getcond_loop :: "env \<Rightarrow> nat \<Rightarrow> u32 \<Rightarrow> machine \<Rightarrow> u16 outcome" where
  "getcond_loop E 0 port m = Ret 0xffff m"
| "getcond_loop E (Suc k) port m =
     bindo (maple_fire E (getcond_frame port m)) (\<lambda>u m1.
       let m2 = m1\<lparr>mapled := (mapled m1)\<lparr>maple_hdr := (maple_hdr (mapled m1))(port := rx_word 0 m1)\<rparr>\<rparr>
       in if rx_word 0 m2 AND 0xff = 8 then Ret (ucast (rx_word 2 m2 AND 0xffff)) m2
          else getcond_loop E k port m2)"

definition maple_getcond :: "env \<Rightarrow> u32 \<Rightarrow> machine \<Rightarrow> u16 outcome" where
  "maple_getcond E port m = bindo (maple_bus_init E m) (\<lambda>u. getcond_loop E 2 port)"

end
