(* ===== verification/Jvs.thy ===== *)
theory Jvs
  imports Iface
begin

text \<open>
  \<^verbatim>\<open>shims/src/jvs.c\<close>: the pure translation of a Dreamcast pad word to a JVS button word, the reset
  combination, the frame checksum and the idle reply template.
\<close>

definition dc_to_jvs :: "u16 \<Rightarrow> u16" where
  "dc_to_jvs dc =
     (let b = NOT dc; j = 0;
          j = (if b AND push_bit 3 1 \<noteq> 0 then j OR 0x8000 else j);
          j = (if b AND push_bit 4 1 \<noteq> 0 then j OR 0x2000 else j);
          j = (if b AND push_bit 5 1 \<noteq> 0 then j OR 0x1000 else j);
          j = (if b AND push_bit 6 1 \<noteq> 0 then j OR 0x0800 else j);
          j = (if b AND push_bit 7 1 \<noteq> 0 then j OR 0x0400 else j);
          j = (if b AND push_bit 2 1 \<noteq> 0 then j OR 0x0200 else j);
          j = (if b AND push_bit 1 1 \<noteq> 0 then j OR 0x0100 else j)
      in j)"

definition dc_reset_combo :: "u16 \<Rightarrow> bool" where
  "dc_reset_combo dc =
     (let m = push_bit 2 1 OR push_bit 1 1 OR push_bit 10 1 OR push_bit 9 1 OR push_bit 3 1
      in (NOT dc AND m) = m)"

definition jvs_checksum :: "u8 list \<Rightarrow> u8" where
  "jvs_checksum f = ucast (fold (\<lambda>i s. s + ucast (f ! i)) [0x1b ..< 0x3a] (0 :: u32))"

definition jvs_hasdata :: "u8 list" where
  "jvs_hasdata =
    [0x87,0x00,0x20,0x0f, 0x16,0xff,0xff,0xff, 0x00,0xff,0xff,0xff, 0x00,0x00,0x00,0x00,
     0x00,0x00,0x00,0x00, 0x00,0x00,0x8e,0x01, 0x00,0x21,0xe0,0x00, 0x1e,0x01,0x01,0x00,
     0x00,0x00,0x00,0x00, 0x01,0x00,0x00,0x00, 0x00,0x01,0x80,0x00, 0x80,0x00,0x80,0x00,
     0x80,0x00,0x80,0x00, 0x80,0x00,0x80,0x00, 0x80,0x00,0x22,0x00, 0x00,0x00,0x00,0x00]"

end
