(* ===== verification/Mie.thy ===== *)
theory Mie
  imports Maple Jvs
begin

text \<open>
  The reply side of \<^verbatim>\<open>shims/src/main.c\<close>: the live digital-input frame, the synthesizer of MIE
  subcommand replies and the replies of the device bring-up ladder.
\<close>

section \<open>Views of game memory\<close>

definition GW :: "u32 \<Rightarrow> machine \<Rightarrow> u32" where "GW a m = ld32 (a OR 0x80000000) m"
definition GB :: "u32 \<Rightarrow> machine \<Rightarrow> u8" where "GB a m = ld8 (a OR 0x80000000) m"
definition GW_set :: "u32 \<Rightarrow> u32 \<Rightarrow> machine \<Rightarrow> machine" where "GW_set a v m = st32 (a OR 0x80000000) v m"
definition UW :: "u32 \<Rightarrow> machine \<Rightarrow> u32" where "UW a m = ld32 (a OR 0xa0000000) m"
definition UB :: "u32 \<Rightarrow> machine \<Rightarrow> u8" where "UB a m = ld8 (a OR 0xa0000000) m"

text \<open>A paint-once mark.\<close>

definition HUD_ONCE :: "env \<Rightarrow> u8 \<Rightarrow> u32 \<Rightarrow> u16 \<Rightarrow> machine \<Rightarrow> machine" where
  "HUD_ONCE E b slot color m =
     (if hud_marks (maind m) AND b = 0
      then shim_mark E slot color (m\<lparr>maind := (maind m)\<lparr>hud_marks := hud_marks (maind m) OR b\<rparr>\<rparr>)
      else m)"

section \<open>Live digital input\<close>

definition TCNT0 :: u32 where [src_consts]: "TCNT0 = 0xffd8000c"
definition TCR0 :: u32 where [src_consts]: "TCR0 = 0xffd80010"

definition tpsc_shifts :: "nat list" where
  "tpsc_shifts = [2, 4, 6, 8, 10, 10, 10, 10]"

definition pad_thresh_init :: "machine \<Rightarrow> machine" where
  "pad_thresh_init m =
     (if pad_thresh (maind m) = 1
      then m\<lparr>maind := (maind m)\<lparr>pad_thresh :=
        drop_bit (tpsc_shifts ! unat (ld16 TCR0 m AND 7)) 50000000 div 125\<rparr>\<rparr>
      else m)"

text \<open>IRQs masked, then the jump through the reset vector.\<close>

definition pad_reboot :: "machine \<Rightarrow> 'a outcome" where
  "pad_reboot m = Reboot (m\<lparr>cpu := (cpu m)\<lparr>sr := (sr (cpu m) AND 0xefffff0f) OR 0xf0\<rparr>\<rparr>)"

text \<open>The timed pad cache: both pads are read again once the window has passed.\<close>

definition pad_refresh :: "env \<Rightarrow> machine \<Rightarrow> unit outcome" where
  "pad_refresh E m =
     (let now = ld32 TCNT0 m
      in if in_tcnt (maind m) - now > pad_thresh (maind m) then
           (let m1 = m\<lparr>maind := (maind m)\<lparr>in_tcnt := now, getcond_total := getcond_total (maind m) + 2\<rparr>\<rparr>
            in bindo (maple_getcond E 0 m1) (\<lambda>a m2.
               bindo (maple_getcond E 1 (m2\<lparr>maind := (maind m2)\<lparr>raw_cache_a := ucast a\<rparr>\<rparr>)) (\<lambda>b m3.
                 let m4 = m3\<lparr>maind := (maind m3)\<lparr>raw_cache_b := ucast b\<rparr>\<rparr>
                 in if dc_reset_combo (ucast (raw_cache_a (maind m4)))
                       \<or> dc_reset_combo (ucast (raw_cache_b (maind m4)))
                    then pad_reboot m4 else Ret () m4)))
         else Ret () m)"

text \<open>The reply frame for two pad words: template, both button words big-endian, checksum.\<close>

definition jvs_frame :: "u16 \<Rightarrow> u16 \<Rightarrow> u8 list" where
  "jvs_frame raw raw2 =
     (let j = dc_to_jvs raw; j2 = dc_to_jvs raw2;
          f = jvs_hasdata[0x20 := ucast (drop_bit 8 j), 0x21 := ucast (j AND 0xff),
                          0x22 := ucast (drop_bit 8 j2), 0x23 := ucast (j2 AND 0xff)]
      in f[0x3a := jvs_checksum f])"

definition in_log :: "env \<Rightarrow> u32 \<Rightarrow> u16 \<Rightarrow> u16 \<Rightarrow> u32 \<Rightarrow> machine \<Rightarrow> machine" where
  "in_log E key raw raw2 sub m =
     (let m0 = m\<lparr>maind := (maind m)\<lparr>in_last := key\<rparr>\<rparr>;
          m1 = scif_puthex E (ucast raw) (scif_puts E ''IN raw='' m0);
          m2 = scif_puthex E (ucast (dc_to_jvs raw)) (scif_puts E '' jvs='' m1);
          m3 = scif_puthex E (ucast raw2) (scif_puts E '' p2raw='' m2);
          m4 = scif_puthex E (ucast (dc_to_jvs raw2)) (scif_puts E '' p2jvs='' m3);
          m5 = scif_puthex E sub (scif_puts E '' sub='' m4)
      in scif_puts E [CHR 0x0A] m5)"

definition in_trace :: "env \<Rightarrow> u32 \<Rightarrow> u16 \<Rightarrow> u16 \<Rightarrow> u32 \<Rightarrow> machine \<Rightarrow> machine" where
  "in_trace E key raw raw2 sub m =
     (if \<not> SHIM_TRACE E then m
      else if key \<noteq> in_last (maind m) then in_log E key raw raw2 sub m
      else let m1 = m\<lparr>maind := (maind m)\<lparr>in_hb := in_hb (maind m) + 1\<rparr>\<rparr>
           in if in_hb (maind m1) AND 0xff = 0 then in_log E key raw raw2 sub m1 else m1)"

definition jvs_digital :: "env \<Rightarrow> u32 \<Rightarrow> u32 \<Rightarrow> machine \<Rightarrow> unit outcome" where
  "jvs_digital E sub rx m =
     bindo (pad_refresh E (pad_thresh_init (HUD_ONCE E 0x08 3 0xffe0 m))) (\<lambda>u m1.
       let raw = ucast (raw_cache_a (maind m1)); raw2 = ucast (raw_cache_b (maind m1));
           key = push_bit 16 (ucast raw) OR ucast raw2;
           m2 = shim_hex E 120 96 (maple_hdr (mapled m1) 0) (shim_hex E 20 96 key m1);
           m3 = shim_hex E 120 110 (cc_rate (maind m2)) (shim_hex E 20 110 (gc_rate (maind m2)) m2);
           m4 = in_trace E key raw raw2 sub m3
       in Ret () (store_bytes rx (jvs_frame raw raw2) m4))"

section \<open>Replies to MIE subcommands\<close>

definition ee_deliver_log :: "env \<Rightarrow> u32 \<Rightarrow> machine \<Rightarrow> machine" where
  "ee_deliver_log E recvaddr m =
     (if ee_logged (maind m) \<noteq> 0 then
        (let m0 = m\<lparr>maind := (maind m)\<lparr>ee_logged := 0\<rparr>\<rparr>;
             m1 = scif_puthex E recvaddr (scif_puts E ''EE deliver rcv='' m0);
             m2 = scif_puthex E (ucast (blob_bytes E EEPROM_IMG ! 9)) (scif_puts E '' coin09='' m1);
             m3 = scif_puthex E (ucast (blob_bytes E EEPROM_IMG ! 27)) (scif_puts E '' coin27='' m2)
         in scif_puts E [CHR 0x0A] m3)
      else m)"

definition ee_write_log :: "env \<Rightarrow> u32 \<Rightarrow> u32 \<Rightarrow> u32 \<Rightarrow> machine \<Rightarrow> machine" where
  "ee_write_log E ee_addr ee_size frame m =
     (if SHIM_TRACE E \<and> wr_left (maind m) \<noteq> 0 then
        (let m0 = m\<lparr>maind := (maind m)\<lparr>wr_left := wr_left (maind m) - 1\<rparr>\<rparr>;
             m1 = scif_puthex E ee_addr (scif_puts E ''EE WR a='' m0);
             m2 = scif_puthex E ee_size (scif_puts E '' n='' m1);
             m3 = scif_puts E '' d='' m2;
             m4 = fold (\<lambda>k m. let b = UB (frame + 0x10 + word_of_nat k) m
                              in scif_putc E (hexdigit (ucast (b AND 15)))
                                   (scif_putc E (hexdigit (ucast (drop_bit 4 b))) m))
                    [0 ..< min (unat ee_size) 32] m3
         in scif_puts E [CHR 0x0A] m4)
      else m)"

definition ee_write_mark :: "env \<Rightarrow> machine \<Rightarrow> machine" where
  "ee_write_mark E m =
     (let m1 = m\<lparr>maind := (maind m)\<lparr>ee_wr_count := ee_wr_count (maind m) + 1\<rparr>\<rparr>;
          n = ee_wr_count (maind m1) AND 0xffff
      in if n = 1 then shim_mark E 6 0x001f m1
         else if n = 8 then shim_mark E 6 0xffe0 m1
         else if n = 16 then shim_mark E 6 0xffff m1
         else m1)"

definition ee_header :: "u8 list" where
  "ee_header = [0x87, 0x00, 0x20, 0x20]"

definition ee_ack :: "u8 list" where
  "ee_ack = [0x87, 0x00, 0x20, 0x01, 0x0c, 0x00, 0x8e, 0x00]"

text \<open>The enumeration reply selected by the last transmitted JVS command, if it was one.\<close>

definition enum_blob :: "u8 \<Rightarrow> blob option" where
  "enum_blob p =
     (if p = 0xf1 then Some MIE_JVSF1
      else if p = 0x10 then Some MIE_JVS10
      else if p = 0x11 then Some MIE_JVS11
      else if p = 0x12 then Some MIE_JVS12
      else if p = 0x13 then Some MIE_JVS13
      else if p = 0x14 then Some MIE_JVS14
      else None)"

definition maple_reply_body :: "env \<Rightarrow> u32 \<Rightarrow> u32 \<Rightarrow> u32 \<Rightarrow> machine \<Rightarrow> unit outcome" where
  "maple_reply_body E sub recvaddr frame m =
     (let rx = P2ADDR recvaddr in
      if sub = 0x33 then jvs_digital E 0x33 rx m
      else if sub = 0x15 then
        (case enum_blob (pending_jvs (maind m)) of
           Some b \<Rightarrow> Ret () (store_bytes rx (blob_bytes E b) m)
         | None \<Rightarrow> jvs_digital E 0x15 rx m)
      else if sub = 0x03 then
        Ret () (ee_deliver_log E recvaddr
          (store_bytes (rx + 4) (take 128 (blob_bytes E EEPROM_IMG)) (store_bytes rx ee_header m)))
      else if sub = 0x01 then Ret () (store_bytes rx (blob_bytes E MIE_SUB01) m)
      else if sub = 0x13 then Ret () (store_bytes rx (blob_bytes E MIE_SUB13) m)
      else if sub = 0x17 \<or> sub = 0x19 \<or> sub = 0x21 then Ret () (store_bytes rx (blob_bytes E MIE_SUB17) m)
      else if sub = 0x27 then Ret () (store_bytes rx (blob_bytes E MIE_SUB27) m)
      else if sub = 0x31 then
        (let m1 = store_bytes rx (blob_bytes E MIE_SUB31) m;
             (vga, m2) = shim_cable_is_vga m1
         in Ret () (if \<not> vga then st8 (rx + 10) (ld8 (rx + 10) m2 AND 0xfe) m2 else m2))
      else if sub = 0xff then Ret () (store_bytes rx (blob_bytes E MIE_SUBFF) m)
      else if sub = 0x0b then
        (let m1 = ee_write_mark E m;
             ee_addr = ucast (UB (frame + 0x0d) m1);
             ee_size = ucast (UB (frame + 0x0e) m1)
         in Ret () (ee_write_log E ee_addr ee_size frame (store_bytes rx ee_ack m1)))
      else shim_die E 3 sub recvaddr m)"

definition maple_reply :: "env \<Rightarrow> u32 \<Rightarrow> u32 \<Rightarrow> u32 \<Rightarrow> machine \<Rightarrow> unit outcome" where
  "maple_reply E sub recvaddr frame m =
     (let m0 = (if SHIM_LOADSTAT E then m\<lparr>diagd := (diagd m)\<lparr>mie_count := mie_count (diagd m) + 1\<rparr>\<rparr> else m);
          m1 = HUD_ONCE E 0x02 1 0x07e0 m0;
          m2 = m1\<lparr>maind := (maind m1)\<lparr>reply_ticks := reply_ticks (maind m1) + 1\<rparr>\<rparr>;
          m3 = (if reply_ticks (maind m2) AND 15 = 0
                then shim_mark E 9 (if reply_ticks (maind m2) AND 16 \<noteq> 0 then 0xffff else 0x39e7) m2
                else m2)
      in maple_reply_body E sub recvaddr frame m3)"

section \<open>The device bring-up ladder\<close>

definition mie_id48 :: string where
  "mie_id48 = ''315-6149    COPYRIGHT SEGA ENTERPRISES CO,LTD.  ''"

text \<open>Sender and receiver of the request swapped into reply position.\<close>

definition probe_hdr :: "u32 \<Rightarrow> u32" where
  "probe_hdr fh = push_bit 8 (drop_bit 16 fh AND 0xff) OR push_bit 16 (drop_bit 8 fh AND 0xff)"

definition fw_sum :: "u32 \<Rightarrow> machine \<Rightarrow> u32" where
  "fw_sum frame m = fold (\<lambda>k s. s + ucast (UB (frame + 0x0c + word_of_nat k) m)) [0 ..< 0x1c] 0"

definition mie_probe_reply :: "env \<Rightarrow> u32 \<Rightarrow> u32 \<Rightarrow> u32 \<Rightarrow> u32 \<Rightarrow> machine \<Rightarrow> machine" where
  "mie_probe_reply E cmd fh rcv frame m =
     (let rx = P2ADDR rcv; hdr = probe_hdr fh;
          chars = (\<lambda>cs. map (\<lambda>c. of_char c) cs)
      in if cmd = 0x01 then st32 rx (hdr OR 0x05) m
         else if cmd = 0x02 then st32 rx (hdr OR 0x06) m
         else if cmd = 0x03 \<or> cmd = 0x04 then st32 rx (hdr OR 0x07) m
         else if cmd = 0x82 then
           (let m1 = st32 rx (hdr OR 0x83 OR push_bit 24 7) m;
                m2 = store_bytes (rx + 4) (chars (take 28 mie_id48)) m1;
                m3 = st32 (rx + 32) (hdr OR 0x83 OR push_bit 24 5) m2
            in store_bytes (rx + 36) (chars (take 20 (drop 28 mie_id48))) m3)
         else if cmd = 0x80 then
           (if UB (frame + 0x0d) m = 0xff then st32 rx (hdr OR 0x07) m
            else let sum = fw_sum frame m
                 in st32 (rx + 8) (hdr OR 0x07)
                      (st32 (rx + 4) (sum AND 0xff) (st32 rx (hdr OR 0x80 OR push_bit 24 1) m)))
         else st32 rx (hdr OR 0x07) m)"

end
