(* ===== verification/Maple_Lemmas.thy ===== *)
theory Maple_Lemmas
  imports Maple Footprint
begin

text \<open>
  What \<^verbatim>\<open>maple.c\<close> guarantees: the frames it puts in front of the engine, the loop that waits for it,
  the retry, and that it touches only the transaction buffers and the bus registers.
\<close>

section \<open>Waiting for the engine\<close>

lemma while_option_None_iff: "while_option b c s = None \<longleftrightarrow> (\<forall>k. b ((c ^^ k) s))"
  by (simp add: while_option_def)

definition busy :: "machine \<Rightarrow> bool" where
  "busy m \<longleftrightarrow> ld32 SB_MDST m AND 1 \<noteq> 0"

lemma maple_wait_Hang: "maple_wait E m = Hang \<longleftrightarrow> (\<forall>k. busy ((maple_hw E ^^ Suc k) m))"
proof -
  have "maple_wait E m = Hang \<longleftrightarrow> while_option busy (maple_hw E) (maple_hw E m) = None"
    by (simp add: maple_wait_def busy_def [abs_def] split: option.split)
  also have "\<dots> \<longleftrightarrow> (\<forall>k. busy ((maple_hw E ^^ k) (maple_hw E m)))"
    by (rule while_option_None_iff)
  finally show ?thesis by (simp only: funpow_Suc_right comp_def)
qed

lemma maple_wait_cases: "maple_wait E m = Hang \<or> (\<exists>m1. maple_wait E m = Ret () m1)"
  by (simp add: maple_wait_def split: option.split)

lemma maple_wait_Ret:
  "maple_wait E m = Ret u m1 \<Longrightarrow> \<not> busy m1 \<and> (\<exists>k. m1 = (maple_hw E ^^ Suc k) m)"
  using while_option_stop2 [of busy "maple_hw E" "maple_hw E m" m1]
  by (auto simp: maple_wait_def busy_def [abs_def] funpow_Suc_right simp del: funpow.simps
      split: option.splits)

lemma maple_wait_first:
  "maple_wait E m = Ret () m1 \<longleftrightarrow>
    (\<exists>k. m1 = (maple_hw E ^^ Suc k) m \<and> \<not> busy m1 \<and> (\<forall>j < k. busy ((maple_hw E ^^ Suc j) m)))"
proof -
  let ?c = "maple_hw E" and ?s = "maple_hw E m"
  have f: "(?c ^^ Suc k) m = (?c ^^ k) ?s" for k
    by (simp only: funpow_Suc_right comp_def)
  have "maple_wait E m = Ret () m1 \<longleftrightarrow> while_option busy ?c ?s = Some m1"
    by (auto simp: maple_wait_def busy_def [abs_def] split: option.split)
  also have "\<dots> \<longleftrightarrow> (\<exists>k. m1 = (?c ^^ k) ?s \<and> \<not> busy m1 \<and> (\<forall>j < k. busy ((?c ^^ j) ?s)))"
  proof (cases "\<exists>k. \<not> busy ((?c ^^ k) ?s)")
    case True
    then have l: "\<not> busy ((?c ^^ (LEAST k. \<not> busy ((?c ^^ k) ?s))) ?s)" by (rule LeastI_ex)
    have u: "k = (LEAST k. \<not> busy ((?c ^^ k) ?s))"
      if "\<not> busy ((?c ^^ k) ?s)" "\<forall>j < k. busy ((?c ^^ j) ?s)" for k
      using that by (intro Least_equality [symmetric]) (auto simp: not_le [symmetric])
    show ?thesis
      using True l u not_less_Least by (auto simp: while_option_def)
  next
    case False
    then show ?thesis by (auto simp: while_option_def)
  qed
  finally show ?thesis by (simp only: f)
qed

section \<open>The bus as documented\<close>

text \<open>What the engine may write: its receive buffer and its status register.\<close>

definition rx_area :: "u32 \<Rightarrow> bool" where
  "rx_area q \<longleftrightarrow> (0x0cfc9040 \<le> unat q \<and> unat q < 0x0cfca000) \<or> (0x005f6c18 \<le> unat q \<and> unat q < 0x005f6c1c)"

definition maple_area :: "u32 \<Rightarrow> bool" where
  "maple_area q \<longleftrightarrow> (0x0cfc9000 \<le> unat q \<and> unat q < 0x0cfca000) \<or> (0x005f6c00 \<le> unat q \<and> unat q < 0x005f6c90)"

lemma rx_maple_area: "rx_area q \<Longrightarrow> maple_area q"
  by (auto simp: rx_area_def maple_area_def)

definition same_statics :: "machine \<Rightarrow> machine \<Rightarrow> bool" where
  "same_statics m m' \<longleftrightarrow> cpu m' = cpu m \<and> gds m' = gds m \<and> cartd m' = cartd m \<and> gdd m' = gdd m \<and>
     utild m' = utild m \<and> maind m' = maind m"

lemma same_statics_refl [simp, intro]: "same_statics m m"
  by (simp add: same_statics_def)

lemma same_statics_trans [trans]: "same_statics a b \<Longrightarrow> same_statics b c \<Longrightarrow> same_statics a c"
  by (simp add: same_statics_def)

text \<open>
  The documented behaviour of the Maple DMA engine: it writes only its receive buffer and its
  status register, and a transaction ends after finitely many polls.
\<close>

definition maple_ok :: "env \<Rightarrow> bool" where
  "maple_ok E \<longleftrightarrow>
     (\<forall>m. touches rx_area m (maple_hw E m) \<and> same_statics m (maple_hw E m) \<and>
        mapled (maple_hw E m) = mapled m) \<and>
     (\<forall>m. \<exists>k. \<not> busy ((maple_hw E ^^ Suc k) m))"

definition maple_step :: "machine \<Rightarrow> machine \<Rightarrow> bool" where
  "maple_step m m' \<longleftrightarrow> touches maple_area m m' \<and> same_statics m m'"

lemma maple_step_refl [simp, intro]: "maple_step m m"
  by (simp add: maple_step_def)

lemma maple_step_trans [trans]: "maple_step a b \<Longrightarrow> maple_step b c \<Longrightarrow> maple_step a c"
  unfolding maple_step_def using touches_trans same_statics_trans by blast

lemma maple_step_mapled [simp]: "maple_step m (m'\<lparr>mapled := d\<rparr>) = maple_step m m'"
  by (simp add: maple_step_def same_statics_def)

lemma maple_step_st32:
  assumes "maple_step m m'" "span a 4"
    "\<And>q. unat (bus a) \<le> unat q \<Longrightarrow> unat q < unat (bus a) + 4 \<Longrightarrow> maple_area q"
  shows "maple_step m (st32 a v m')"
  using assms fp32.put_then [of maple_area m m' a v] by (simp add: maple_step_def same_statics_def)

lemma maple_step_reg_w:
  assumes "maple_step m m'" "span a 4"
    "\<And>q. unat (bus a) \<le> unat q \<Longrightarrow> unat q < unat (bus a) + 4 \<Longrightarrow> maple_area q"
  shows "maple_step m (reg_w a v m')"
  using assms fpr.put_then [of maple_area m m' a v] by (simp add: maple_step_def same_statics_def)

lemma maple_hw_step: "maple_ok E \<Longrightarrow> maple_step m ((maple_hw E ^^ k) m)"
proof (induction k)
  case (Suc k)
  then have "maple_step m ((maple_hw E ^^ k) m)" by simp
  also have "maple_step ((maple_hw E ^^ k) m) (maple_hw E ((maple_hw E ^^ k) m))"
  proof -
    have "touches rx_area x (maple_hw E x) \<and> same_statics x (maple_hw E x)" for x
      using Suc.prems unfolding maple_ok_def by blast
    then show ?thesis
      using touches_mono [of rx_area _ _ maple_area] rx_maple_area unfolding maple_step_def by blast
  qed
  finally show ?case by simp
qed simp

lemma maple_wait_ok:
  assumes "maple_ok E"
  shows "\<exists>m1. maple_wait E m = Ret () m1 \<and> maple_step m m1"
proof -
  have "maple_wait E m \<noteq> Hang"
    using assms unfolding maple_wait_Hang maple_ok_def by blast
  then obtain m1 where m1: "maple_wait E m = Ret () m1"
    using maple_wait_cases by blast
  then show ?thesis
    using maple_wait_Ret [OF m1] maple_hw_step [OF assms] by metis
qed

text \<open>Evaluates the address side conditions of a store to a fixed address.\<close>

lemmas fixed_addr = src_consts span_def unat_bus P2ADDR_def maple_area_def

lemma maple_fire_ok:
  assumes "maple_ok E"
  shows "\<exists>m1. maple_fire E m = Ret () m1 \<and> maple_step m m1"
proof -
  let ?m = "reg_w SB_MDST 1 (reg_w SB_MDEN 1 (reg_w SB_MDSTAR (MAPLE_TX AND 0x1fffffff) (reg_w SB_MDTSEL 0 m)))"
  have "maple_step m ?m"
    by (intro maple_step_reg_w maple_step_refl) (auto simp: fixed_addr)
  then show ?thesis
    using maple_wait_ok [OF assms, of ?m] maple_step_trans unfolding maple_fire_def by blast
qed

section \<open>The frames\<close>

lemma getcond_frame_step: "maple_step m (getcond_frame port m)"
  unfolding getcond_frame_def Let_def
  by (intro maple_step_st32 maple_step_refl) (auto simp: fixed_addr)

lemma probe_frame_step: "maple_step m (probe_frame port m)"
  unfolding probe_frame_def Let_def
  by (intro maple_step_st32 maple_step_refl) (auto simp: fixed_addr)

lemma getcond_frame_words:
  "ld32 0xacfc9000 (getcond_frame port m) = 0x80000000 OR push_bit 16 port OR 1"
  "ld32 0xacfc9004 (getcond_frame port m) = 0x0cfc9040"
  "ld32 0xacfc9008 (getcond_frame port m)
     = push_bit 24 1 OR push_bit 16 (push_bit 6 port) OR push_bit 8 (push_bit 6 port OR 0x20) OR 9"
  "ld32 0xacfc900c (getcond_frame port m) = 0x01000000"
  "rx_word 0 (getcond_frame port m) = 0"
proof -
  have s: "cells_apart b 4 a 4" if "0xacfc9000 \<le> unat b" "unat b \<le> 0xacfc9100" "0xacfc9000 \<le> unat a"
    "unat a \<le> 0xacfc9100" "unat b + 4 \<le> unat a \<or> unat a + 4 \<le> unat b" for a b
    using that p2_word [of a] p2_word [of b] by (auto simp: cells_apart_def)
  show "ld32 0xacfc9000 (getcond_frame port m) = 0x80000000 OR push_bit 16 port OR 1"
    "ld32 0xacfc9004 (getcond_frame port m) = 0x0cfc9040"
    "ld32 0xacfc9008 (getcond_frame port m)
       = push_bit 24 1 OR push_bit 16 (push_bit 6 port) OR push_bit 8 (push_bit 6 port OR 0x20) OR 9"
    "ld32 0xacfc900c (getcond_frame port m) = 0x01000000"
    "rx_word 0 (getcond_frame port m) = 0"
    by (simp_all add: getcond_frame_def Let_def rx_word_def src_consts P2ADDR_def ld32_st32_same
        ld32_st32_other s span_def)
qed

section \<open>GetCondition\<close>

lemma maple_bus_init_ok:
  assumes "maple_ok E"
  shows "\<exists>m1. maple_bus_init E m = Ret () m1 \<and> maple_step m m1"
proof -
  have probe: "\<exists>m1. probe_devinfo E port m' = Ret () m1 \<and> maple_step m' m1" for port m'
  proof -
    obtain m1 where "maple_fire E (probe_frame port m') = Ret () m1" "maple_step (probe_frame port m') m1"
      using maple_fire_ok [OF assms] by blast
    then show ?thesis
      using maple_step_trans [OF probe_frame_step] by (auto simp: probe_devinfo_def)
  qed
  let ?m = "reg_w SB_MDEN 1 (reg_w SB_MDTSEL 0 (reg_w SB_MSPEED 0xC3500000
    (reg_w SB_MDAPRO 0x6155404f (m\<lparr>mapled := (mapled m)\<lparr>bus_init_done := 1\<rparr>\<rparr>))))"
  have r: "maple_step m ?m"
    by (intro maple_step_reg_w) (auto simp: fixed_addr)
  obtain m1 where m1: "probe_devinfo E 0 ?m = Ret () m1" "maple_step ?m m1" using probe by blast
  obtain m2 where m2: "probe_devinfo E 1 m1 = Ret () m2" "maple_step m1 m2" using probe by blast
  have "maple_step m m2" using r m1(2) m2(2) maple_step_trans by blast
  with m1(1) m2(1) show ?thesis by (auto simp: maple_bus_init_def)
qed

lemma getcond_loop_ok:
  assumes "maple_ok E"
  shows "\<exists>v m1. getcond_loop E k port m = Ret v m1 \<and> maple_step m m1"
proof (induction k arbitrary: m)
  case (Suc k)
  obtain m1 where m1: "maple_fire E (getcond_frame port m) = Ret () m1" "maple_step (getcond_frame port m) m1"
    using maple_fire_ok [OF assms] by blast
  let ?m2 = "m1\<lparr>mapled := (mapled m1)\<lparr>maple_hdr := (maple_hdr (mapled m1))(port := rx_word 0 m1)\<rparr>\<rparr>"
  have st: "maple_step m ?m2" using maple_step_trans [OF getcond_frame_step m1(2)] by simp
  obtain v m3 where "getcond_loop E k port ?m2 = Ret v m3" "maple_step ?m2 m3"
    using Suc.IH [of ?m2] by blast
  with st maple_step_trans [OF st] show ?case
    by (auto simp: m1(1) Let_def)
qed auto

lemma maple_getcond_ok:
  assumes "maple_ok E"
  shows "\<exists>v m1. maple_getcond E port m = Ret v m1 \<and> maple_step m m1"
proof -
  obtain m1 where m1: "maple_bus_init E m = Ret () m1" "maple_step m m1"
    using maple_bus_init_ok [OF assms] by blast
  obtain v m2 where "getcond_loop E 2 port m1 = Ret v m2" "maple_step m1 m2"
    using getcond_loop_ok [OF assms] by blast
  with m1 maple_step_trans show ?thesis unfolding maple_getcond_def by force
qed

end
