(* ===== verification/Input_Lemmas.thy ===== *)
theory Input_Lemmas
  imports Mie
begin

text \<open>
  Facts on the pure input routines of \<^verbatim>\<open>jvs.c\<close> and on the digital-input frame: which button bit
  goes where, the layout of the frame and its checksum.
\<close>

section \<open>Buttons\<close>

text \<open>Pad bit and JVS bit of each button: Start, Up, Down, Left, Right, A, B.\<close>

definition pad_map :: "(nat \<times> nat) list" where
  "pad_map = [(3, 15), (4, 13), (5, 12), (6, 11), (7, 10), (2, 9), (1, 8)]"

text \<open>One line of the translation.\<close>

definition jvs_bit :: "u16 \<Rightarrow> nat \<Rightarrow> nat \<Rightarrow> u16 \<Rightarrow> u16" where
  "jvs_bit dc k n j = (if NOT dc AND push_bit k 1 \<noteq> 0 then j OR push_bit n 1 else j)"

lemma bit_jvs_bit: "k < 16 \<Longrightarrow> n < 16 \<Longrightarrow> bit (jvs_bit dc k n j) i \<longleftrightarrow> bit j i \<or> i = n \<and> \<not> bit dc k"
proof -
  assume kn: "k < 16" "n < 16"
  have "NOT dc AND push_bit k 1 \<noteq> 0 \<longleftrightarrow> bit (NOT dc) k"
    by (metis bit_iff_and_push_bit_not_eq_0)
  with kn show ?thesis
    by (auto simp: jvs_bit_def bit_simps)
qed

lemma push_bit_numeral_one_u16:
  "push_bit 15 1 = (0x8000 :: u16)" "push_bit 13 1 = (0x2000 :: u16)" "push_bit 12 1 = (0x1000 :: u16)"
  "push_bit 11 1 = (0x0800 :: u16)" "push_bit 10 1 = (0x0400 :: u16)" "push_bit 9 1 = (0x0200 :: u16)"
  "push_bit 8 1 = (0x0100 :: u16)"
  by simp_all

lemma dc_to_jvs_bits:
  "dc_to_jvs dc = jvs_bit dc 1 8 (jvs_bit dc 2 9 (jvs_bit dc 7 10 (jvs_bit dc 6 11 (jvs_bit dc 5 12
     (jvs_bit dc 4 13 (jvs_bit dc 3 15 0))))))"
  unfolding dc_to_jvs_def jvs_bit_def Let_def
  by (simp only: push_bit_numeral_one_u16)

lemma bit_dc_to_jvs: "bit (dc_to_jvs dc) n \<longleftrightarrow> (\<exists>k. (k, n) \<in> set pad_map \<and> \<not> bit dc k)"
proof -
  have "bit (dc_to_jvs dc) n \<longleftrightarrow> n = 15 \<and> \<not> bit dc 3 \<or> n = 13 \<and> \<not> bit dc 4 \<or> n = 12 \<and> \<not> bit dc 5
      \<or> n = 11 \<and> \<not> bit dc 6 \<or> n = 10 \<and> \<not> bit dc 7 \<or> n = 9 \<and> \<not> bit dc 2 \<or> n = 8 \<and> \<not> bit dc 1"
    unfolding dc_to_jvs_bits by (simp add: bit_jvs_bit del: One_nat_def)
  then show ?thesis
    by (simp add: pad_map_def conj_disj_distribR ex_disj_distrib del: One_nat_def)
qed

lemma dc_reset_combo_bits:
  "dc_reset_combo dc \<longleftrightarrow> \<not> bit dc 1 \<and> \<not> bit dc 2 \<and> \<not> bit dc 3 \<and> \<not> bit dc 9 \<and> \<not> bit dc 10"
proof -
  let ?m = "push_bit 2 1 OR push_bit 1 1 OR push_bit 10 1 OR push_bit 9 1 OR push_bit 3 (1 :: u16)"
  have m: "bit ?m n \<longleftrightarrow> n = 2 \<or> n = 1 \<or> n = 10 \<or> n = 9 \<or> n = 3" for n
    unfolding bit_or_iff bit_push_bit_iff bit_1_iff by auto
  have "NOT dc AND ?m = ?m \<longleftrightarrow> (\<forall>n. bit ?m n \<longrightarrow> \<not> bit dc n)"
  proof
    assume e: "NOT dc AND ?m = ?m"
    show "\<forall>n. bit ?m n \<longrightarrow> \<not> bit dc n"
    proof (intro allI impI)
      fix n
      assume "bit ?m n"
      then have "bit (NOT dc AND ?m) n" by (simp only: e)
      then show "\<not> bit dc n" by (simp only: bit_and_iff bit_not_iff simp_thms)
    qed
  next
    assume "\<forall>n. bit ?m n \<longrightarrow> \<not> bit dc n"
    then show "NOT dc AND ?m = ?m"
      by (intro bit_eqI) (simp only: bit_and_iff bit_not_iff, blast)
  qed
  also have "\<dots> \<longleftrightarrow> \<not> bit dc 1 \<and> \<not> bit dc 2 \<and> \<not> bit dc 3 \<and> \<not> bit dc 9 \<and> \<not> bit dc 10"
    unfolding m by auto
  finally show ?thesis unfolding dc_reset_combo_def Let_def .
qed

section \<open>The frame\<close>

lemma length_hasdata [simp]: "length jvs_hasdata = 64"
  by (simp add: jvs_hasdata_def)

lemma length_jvs_frame [simp]: "length (jvs_frame raw raw2) = 64"
  by (simp add: jvs_frame_def Let_def)

text \<open>Big-endian button word of a player: 1 at \<^verbatim>\<open>0x20\<close>, 2 at \<^verbatim>\<open>0x22\<close>.\<close>

definition frame_word :: "nat \<Rightarrow> u8 list \<Rightarrow> u16" where
  "frame_word i f = push_bit 8 (ucast (f ! i)) OR ucast (f ! (i + 1))"

lemma be_word:
  fixes j :: u16
  shows "push_bit 8 (ucast (ucast (drop_bit 8 j) :: u8)) OR ucast (ucast (j AND 0xff) :: u8) = j"
proof (rule bit_eqI)
  fix n
  assume "possible_bit TYPE(u16) n"
  then have n: "n < 16" by simp
  have m: "(0xff :: u16) = mask 8" by (simp add: mask_numeral)
  show "bit (push_bit 8 (ucast (ucast (drop_bit 8 j) :: u8)) OR ucast (ucast (j AND 0xff) :: u8) :: u16) n = bit j n"
    unfolding m using n by (cases "n < 8") (auto simp: bit_simps)
qed

lemma frame_words:
  "frame_word 0x20 (jvs_frame raw raw2) = dc_to_jvs raw"
  "frame_word 0x22 (jvs_frame raw raw2) = dc_to_jvs raw2"
  by (simp_all add: frame_word_def jvs_frame_def Let_def be_word)

lemma frame_template:
  "i < 64 \<Longrightarrow> i \<notin> {0x20, 0x21, 0x22, 0x23, 0x3a} \<Longrightarrow> jvs_frame raw raw2 ! i = jvs_hasdata ! i"
  by (simp add: jvs_frame_def Let_def)

text \<open>The checksum as a sum of bytes.\<close>

lemma checksum_bytes: "jvs_checksum f = (\<Sum>i \<in> {0x1b ..< 0x3a}. f ! i)"
proof -
  have fold: "ucast (fold (\<lambda>i s. s + ucast (f ! i)) is s0) = (ucast (s0 :: u32) :: u8) + sum_list (map (\<lambda>i. f ! i) is)"
    for "is" s0
  proof (induction "is" arbitrary: s0)
    case (Cons i "is")
    have "(ucast (s0 + ucast (f ! i) :: u32) :: u8) = ucast s0 + f ! i"
      by (simp add: word_unat_eq_iff unat_word_ariths unsigned_ucast_eq take_bit_eq_mod mod_simps
          mod_mod_cancel)
    with Cons show ?case by (simp add: add.assoc)
  qed simp
  show ?thesis
    unfolding jvs_checksum_def fold by (simp only: sum_list_distinct_conv_sum_set distinct_upt set_upt) simp
qed

text \<open>The stored checksum covers the bytes as they are in the finished frame.\<close>

lemma frame_checksum: "jvs_frame raw raw2 ! 0x3a = (\<Sum>i \<in> {0x1b ..< 0x3a}. jvs_frame raw raw2 ! i)"
proof -
  obtain f where f: "jvs_frame raw raw2 = f[0x3a := jvs_checksum f]" "length f = 64"
    unfolding jvs_frame_def Let_def by (metis length_hasdata length_list_update)
  have "(\<Sum>i \<in> {0x1b ..< 0x3a}. f ! i) = (\<Sum>i \<in> {0x1b ..< 0x3a}. f[0x3a := jvs_checksum f] ! i)"
    by (rule sum.cong) auto
  then show ?thesis using f by (simp add: checksum_bytes)
qed

end
