(* ===== verification/Mie_Lemmas.thy ===== *)
theory Mie_Lemmas
  imports Mie Maple_Lemmas Input_Lemmas Gd_Retry
begin

text \<open>
  The reply side of \<^verbatim>\<open>main.c\<close> in a release build: how a reply routine may end, what it may touch, and
  what the replies hold.
\<close>

text \<open>A release build: no on-screen diagnostics, no serial output.\<close>

definition release :: "env \<Rightarrow> bool" where
  "release E \<longleftrightarrow> \<not> SHIM_HUD E \<and> \<not> SHIM_TRACE E \<and> \<not> SHIM_SERIAL E \<and> \<not> SHIM_LOADSTAT E \<and> \<not> SHIM_PROBES E"

lemma release_simps [simp]:
  "release E \<Longrightarrow> shim_mark E slot c m = m" "release E \<Longrightarrow> shim_hex E x y v m = m"
  "release E \<Longrightarrow> scif_puts E s m = m" "release E \<Longrightarrow> scif_puthex E v m = m"
  "release E \<Longrightarrow> in_trace E key raw raw2 sub m = m"
  "release E \<Longrightarrow> ee_write_log E a n f m = m" "release E \<Longrightarrow> ls_stampA E i m = m"
  by (simp_all add: ls_stampA_def release_def shim_mark_def shim_hex_def in_trace_def ee_write_log_def)

lemma release_builds: "release E \<Longrightarrow> \<not> SHIM_LOADSTAT E \<and> \<not> SHIM_PROBES E"
  by (simp add: release_def)

section \<open>What a reply may touch\<close>

text \<open>
  Receive buffers lie in the 32 MB RAM window, up to the length of the longest reply past its end; the
  bus registers and the transaction buffers belong to the pad transaction; \<^verbatim>\<open>PCTRA\<close> to the cable sense.
\<close>

definition reply_area :: "u32 \<Rightarrow> bool" where
  "reply_area q \<longleftrightarrow> (0x0c000000 \<le> unat q \<and> unat q < 0x0e001000) \<or> maple_area q
     \<or> (0xff80002c \<le> unat q \<and> unat q < 0xff800030)"

text \<open>Of it, what the reply to one receive address may touch.\<close>

definition reply_at :: "u32 \<Rightarrow> u32 \<Rightarrow> bool" where
  "reply_at rcv q \<longleftrightarrow> (unat rcv \<le> unat q \<and> unat q < unat rcv + 0x1000) \<or> maple_area q
     \<or> (0xff80002c \<le> unat q \<and> unat q < 0xff800030)"

definition covers :: "(u32 \<Rightarrow> bool) \<Rightarrow> u32 \<Rightarrow> bool" where
  "covers R rcv \<longleftrightarrow> (\<forall>q. reply_at rcv q \<longrightarrow> R q)"

text \<open>The reply routine's step: it stays in the area and leaves the processor, the drive side and the
  cartridge side alone.\<close>

definition serves_at :: "(u32 \<Rightarrow> bool) \<Rightarrow> machine \<Rightarrow> machine \<Rightarrow> bool" where
  "serves_at R m m' \<longleftrightarrow> touches R m m' \<and> cpu m' = cpu m \<and> gds m' = gds m \<and> cartd m' = cartd m \<and> gdd m' = gdd m"

abbreviation serves :: "machine \<Rightarrow> machine \<Rightarrow> bool" where
  "serves \<equiv> serves_at reply_area"

lemma serves_refl [simp, intro]: "serves_at R m m"
  by (simp add: serves_at_def)

lemma serves_trans [trans]: "serves_at R a b \<Longrightarrow> serves_at R b c \<Longrightarrow> serves_at R a c"
  unfolding serves_at_def using touches_trans by metis

lemma serves_statics [simp]:
  "serves_at R m (m'\<lparr>maind := d\<rparr>) = serves_at R m m'" "serves_at R m (m'\<lparr>utild := u\<rparr>) = serves_at R m m'"
  "serves_at R m (m'\<lparr>mapled := p\<rparr>) = serves_at R m m'"
  by (simp_all add: serves_at_def)

lemma maple_step_serves: "covers R rcv \<Longrightarrow> maple_step m m' \<Longrightarrow> serves_at R m m'"
  using touches_mono [of maple_area m m' R]
  by (auto simp: maple_step_def serves_at_def same_statics_def covers_def reply_at_def)

text \<open>A receive address the walk accepts.\<close>

definition rcv_ok :: "u32 \<Rightarrow> bool" where
  "rcv_ok a \<longleftrightarrow> 0x0c000000 \<le> unat a \<and> unat a < 0x0e000000"

lemma covers_at [simp]: "covers (reply_at rcv) rcv"
  by (simp add: covers_def)

lemma covers_area: "rcv_ok rcv \<Longrightarrow> covers reply_area rcv"
  by (auto simp: covers_def reply_at_def reply_area_def rcv_ok_def)

lemma rcv_P2:
  assumes "rcv_ok rcv" "off + n \<le> 0x1000" "0 < n"
  shows "span (P2ADDR rcv + word_of_nat off) n" "unat (bus (P2ADDR rcv + word_of_nat off)) = unat rcv + off"
proof -
  have "unat (P2ADDR rcv) = unat rcv + 0xa0000000"
    using assms(1) by (intro unat_P2ADDR_phys) (simp add: rcv_ok_def)
  then have u: "unat (P2ADDR rcv + word_of_nat off) = unat rcv + 0xa0000000 + off"
    using assms unat_add_of_nat [of "P2ADDR rcv" off] by (simp add: rcv_ok_def)
  then have "unat (P2ADDR rcv + word_of_nat off) div 536870912 = 5"
    "unat (P2ADDR rcv + word_of_nat off) mod 536870912 = unat rcv + off"
    using assms by (auto simp: rcv_ok_def intro!: div_nat_eqI mod_nat_eqI)
  then show "span (P2ADDR rcv + word_of_nat off) n" "unat (bus (P2ADDR rcv + word_of_nat off)) = unat rcv + off"
    using assms by (auto simp: span_def unat_bus_div rcv_ok_def)
qed

lemma serves_store_bytes:
  assumes "rcv_ok rcv" "off + length bs \<le> 0x1000" "serves_at R m m'" "covers R rcv"
  shows "serves_at R m (store_bytes (P2ADDR rcv + word_of_nat off) bs m')"
proof (cases "bs = []")
  case False
  then have "0 < length bs" by simp
  note p = rcv_P2 [OF assms(1,2) this]
  have "touches R m (store_bytes (P2ADDR rcv + word_of_nat off) bs m')"
    using assms p by (intro fpb.put_then) (auto simp: serves_at_def covers_def reply_at_def)
  with assms(3) show ?thesis by (simp add: serves_at_def)
qed (use assms in simp)

lemma serves_st32:
  assumes "rcv_ok rcv" "off + 4 \<le> 0x1000" "serves_at R m m'" "covers R rcv"
  shows "serves_at R m (st32 (P2ADDR rcv + word_of_nat off) v m')"
  using serves_store_bytes [OF assms(1) _ assms(3,4), of off
      "[ucast v, ucast (drop_bit 8 v), ucast (drop_bit 16 v), ucast (drop_bit 24 v)]"] assms(2)
  by (simp add: st32_bytes del: store_bytes.simps)

lemma serves_reply [intro]:
  "rcv_ok rcv \<Longrightarrow> length bs \<le> 0x1000 \<Longrightarrow> serves_at R m m' \<Longrightarrow> covers R rcv \<Longrightarrow>
    serves_at R m (store_bytes (P2ADDR rcv) bs m')"
  using serves_store_bytes [of rcv 0 bs R m m'] by simp

section \<open>Live input\<close>

text \<open>How the input routine may end: it returns or reboots.\<close>

definition ends_serving :: "(u32 \<Rightarrow> bool) \<Rightarrow> machine \<Rightarrow> unit outcome \<Rightarrow> bool" where
  "ends_serving R m r \<longleftrightarrow> (\<exists>m1. r = Ret () m1 \<and> serves_at R m m1) \<or> (\<exists>m1. r = Reboot m1)"

lemma ends_serving_Ret [simp]: "ends_serving R m (Ret u m1) = serves_at R m m1"
  by (auto simp: ends_serving_def)

lemma ends_serving_trans: "serves_at R m m1 \<Longrightarrow> ends_serving R m1 r \<Longrightarrow> ends_serving R m r"
  unfolding ends_serving_def using serves_trans by blast

lemma HUD_ONCE_serves: "release E \<Longrightarrow> serves_at R m (HUD_ONCE E b slot c m)"
  by (simp add: HUD_ONCE_def)

lemma pad_thresh_serves: "serves_at R m (pad_thresh_init m)"
  by (simp add: pad_thresh_init_def)

lemma pad_refresh_ends:
  assumes "maple_ok E" "covers R rcv"
  shows "ends_serving R m (pad_refresh E m)"
proof (cases "in_tcnt (maind m) - ld32 TCNT0 m > pad_thresh (maind m)")
  case True
  let ?m1 = "m\<lparr>maind := (maind m)\<lparr>in_tcnt := ld32 TCNT0 m, getcond_total := getcond_total (maind m) + 2\<rparr>\<rparr>"
  obtain a m2 where a: "maple_getcond E 0 ?m1 = Ret a m2" "maple_step ?m1 m2"
    using maple_getcond_ok [OF assms(1)] by blast
  let ?m3 = "m2\<lparr>maind := (maind m2)\<lparr>raw_cache_a := ucast a\<rparr>\<rparr>"
  obtain b m4 where b: "maple_getcond E 1 ?m3 = Ret b m4" "maple_step ?m3 m4"
    using maple_getcond_ok [OF assms(1)] by blast
  have "serves_at R m ?m3"
    using serves_trans [OF _ maple_step_serves [OF assms(2) a(2)], of m] by simp
  then have s: "serves_at R m m4"
    using maple_step_serves [OF assms(2) b(2)] serves_trans by blast
  show ?thesis
    using True s by (simp add: pad_refresh_def Let_def a(1) b(1) ends_serving_def pad_reboot_def)
qed (simp add: pad_refresh_def Let_def)

lemma jvs_digital_ends:
  assumes "maple_ok E" "release E" "rcv_ok rcv" "covers R rcv"
  shows "ends_serving R m (jvs_digital E sub (P2ADDR rcv) m)"
proof -
  let ?m0 = "pad_thresh_init (HUD_ONCE E 0x08 3 0xffe0 m)"
  have s0: "serves_at R m ?m0"
    using serves_trans [OF HUD_ONCE_serves pad_thresh_serves] assms(2) by blast
  show ?thesis
  proof (cases "\<exists>m1. pad_refresh E ?m0 = Ret () m1")
    case True
    then obtain m1 where m1: "pad_refresh E ?m0 = Ret () m1" by blast
    then have "serves_at R m m1"
      using pad_refresh_ends [OF assms(1,4), of ?m0] s0 serves_trans by (auto simp: ends_serving_def)
    then show ?thesis
      using assms by (simp add: jvs_digital_def m1 Let_def serves_reply)
  next
    case False
    then obtain m1 where "pad_refresh E ?m0 = Reboot m1"
      using pad_refresh_ends [OF assms(1,4), of ?m0] by (auto simp: ends_serving_def)
    then show ?thesis by (simp add: jvs_digital_def ends_serving_def)
  qed
qed

end
