(* ===== verification/Steady.thy ===== *)
theory Steady
  imports Mie Gdstack
begin

text \<open>
  The transport side of \<^verbatim>\<open>shims/src/main.c\<close>: the boot and per-frame builders, and the steady
  service that runs the game's engine, walks the Maple descriptor list it left in the register
  mirror and answers every MIE frame in it.
\<close>

definition upd_main :: "(main_data \<Rightarrow> main_data) \<Rightarrow> machine \<Rightarrow> machine" where
  "upd_main f m = m\<lparr>maind := f (maind m)\<rparr>"

text \<open>A transmit subcommand latches the JVS command byte it carries.\<close>

definition latch_jvs :: "u32 \<Rightarrow> u8 \<Rightarrow> machine \<Rightarrow> machine" where
  "latch_jvs sub byte m =
     (if sub = 0x17 \<or> sub = 0x19 \<or> sub = 0x21 then upd_main (\<lambda>d. d\<lparr>pending_jvs := byte\<rparr>) m
      else if sub = 0x27 then upd_main (\<lambda>d. d\<lparr>pending_jvs := 0xff\<rparr>) m
      else m)"

section \<open>The boot and per-frame builders\<close>

definition shim_maple_boot :: "env \<Rightarrow> u32 \<Rightarrow> machine \<Rightarrow> unit outcome" where
  "shim_maple_boot E arg0 m =
     (let cmdblk = GW 0x8c0e6400 m;
          sub = ucast (GB (cmdblk + 0x0c) m);
          recv = GW (cmdblk + 0x04) m;
          m1 = latch_jvs sub (GB (arg0 + 4) m) m
      in bindo (maple_reply E sub recv cmdblk m1) (\<lambda>u m2. Ret () (reg_w SB_MDST 0 m2)))"

definition shim_maple_entry :: "env \<Rightarrow> machine \<Rightarrow> u32 outcome" where
  "shim_maple_entry E m =
     (let base = GW 0x8c0e8410 m
      in if GW (base + 0x0fc0) m \<noteq> 1 then Ret (- 3) m
         else let raw = GW (base + 0x10b8) m;
                  recv = GW (base + 0x10a8 + (raw AND 1) * 4) m AND 0x0fffffff;
                  desc = GW (base + 0x10f4) m;
                  m1 = GW_set (base + 0x10b8) (raw XOR 1) (GW_set (desc + 0x04) recv m)
              in bindo (maple_reply E 0x33 recv 0 m1) (\<lambda>u m2.
                   Ret 0 (GW_set (desc + 0x18) (GW (desc + 0x18) m2 AND NOT 1) m2)))"

section \<open>The start-up timeline\<close>

text \<open>\<^verbatim>\<open>la2ms\<close>: timer ticks to milliseconds; only called once \<^verbatim>\<open>la_sh\<close> holds a prescaler shift.\<close>

definition la2ms :: "diag_data \<Rightarrow> u32 \<Rightarrow> u32" where
  "la2ms d t = push_bit (unat (la_sh d)) t div 50000"

text \<open>The clock: the first tick latches the prescaler; a later one adds what the down-counter has lost,
  unless that is a second or more.\<close>

definition la_clock :: "u32 \<Rightarrow> u32 \<Rightarrow> diag_data \<Rightarrow> diag_data" where
  "la_clock tcr now d =
     (if la_sh d = 0xff
      then d\<lparr>la_sh := word_of_nat (tpsc_shifts ! unat (tcr AND 7)), la_last := now, la_seen := la_seen d OR 1\<rparr>
      else let dt = la_last d - now; d1 = d\<lparr>la_last := now\<rparr>
           in if dt < drop_bit (unat (la_sh d1)) 50000000 then d1\<lparr>la_ticks := la_ticks d1 + dt\<rparr> else d1)"

definition la_paint :: "diag_data \<Rightarrow> machine \<Rightarrow> machine" where
  "la_paint d m =
     fold (\<lambda>(x, y, v). hex_paint_c x y v 0x0000 0xffff)
       [(340, 152, la2ms d (la_ticks d)), (340, 166, la_beat d),
        (340, 180, la2ms d (la_stamp d ! 1)), (340, 194, la2ms d (la_stamp d ! 2)),
        (340, 208, la2ms d (la_stamp d ! 3)), (340, 222, la2ms d (la_stamp d ! 4)),
        (470, 152, mie_count d), (470, 166, la_mie d ! 2), (470, 180, la_mie d ! 1)] m"

definition la_tick :: "env \<Rightarrow> machine \<Rightarrow> machine" where
  "la_tick E m =
     (if SHIM_LOADSTAT E then
        (let d1 = la_clock (ucast (ld16 TCR0 m)) (ld32 TCNT0 m) (diagd m);
             d2 = d1\<lparr>la_beat := la_beat d1 + 1\<rparr>
         in la_paint d2 (m\<lparr>diagd := d2\<rparr>))
      else m)"

section \<open>The per-tick probes\<close>

definition EXPEVT :: u32 where [src_consts]: "EXPEVT = 0xff000024"
definition TEA :: u32 where [src_consts]: "TEA = 0xff00000c"

text \<open>The sound driver's heartbeat word, reached through the game's sound context where it is valid.\<close>

definition probe_sound :: "machine \<Rightarrow> machine" where
  "probe_sound m =
     (let sfl = ld32 0xac0e6894 m; sct = ld32 0xac0e6898 m;
          m1 = hex_paint 20 96 sct m;
          hb = (if sfl = 1 \<and> sct AND 0x1f000000 = 0x0c000000 then
                  (let sb = ld32 (0xa0000000 OR ((sct AND 0x1fffffff) + 0x98)) m1
                   in if sb < 0x00200000 \<and> sb AND 3 = 0 then ld32 (0xa0800000 + sb + 0x18) m1
                      else 0xbad10000 OR drop_bit 16 sb)
                else 0xbad00000 OR (sfl AND 0xffff))
      in hex_paint 120 96 hb m1)"

text \<open>The slot in flight of the game's transfer rings, or how full the rings are.\<close>

definition ring_slot :: "machine \<Rightarrow> u32" where
  "ring_slot m =
     (let h = 0x8c0fb8e0; a = ld32 (h + 0x20) m; b = ld32 (h + 0x24) m
      in if a \<noteq> 0 then a else if b \<noteq> 0 then b else ld32 (h + 0x28) m)"

definition ring_state :: "u32 \<Rightarrow> machine \<Rightarrow> u32" where
  "ring_state s m =
     (let h = 0x8c0fb8e0
      in if s \<noteq> 0 \<and> s AND 0x1f000000 = 0x0c000000
         then push_bit 16 (ucast (ld16 (s + 0x1c) m)) OR ucast (ld16 (s + 0x1e) m)
         else 0xc0000000 OR push_bit 16 (ucast (ld16 (h + 0x30) m) AND 0x3f)
           OR push_bit 8 (ucast (ld16 (h + 0x36) m) AND 0x3f) OR (ucast (ld16 (h + 0x3c) m) AND 0x3f))"

definition probe_queue :: "machine \<Rightarrow> machine" where
  "probe_queue m =
     (let istnrm = ld32 0xa05f6900 m; dmaor = ld32 0xffa00040 m; c2dst = ld32 0xa05f6808 m;
          pdst = ld32 0xa05f7c18 m; adst = ld32 0xa05f7818 m;
          m1 = hex_paint 20 162 istnrm m;
          m2 = hex_paint 120 162 (push_bit 16 dmaor OR push_bit 8 (c2dst AND 0xf)
                 OR push_bit 4 (pdst AND 0xf) OR (adst AND 0xf)) m1;
          m3 = hex_paint 20 176 (ld32 0xffa00028 m2) m2;
          m4 = hex_paint 120 176 (ld32 0xffa0002c m3) m3;
          s = ring_slot m4;
          m5 = hex_paint 20 190 s m4;
          m6 = hex_paint 120 190 (ring_state s m5) m5;
          m7 = hex_paint 20 204 (ld32 0xffa00020 m6) m6;
          m8 = hex_paint 120 204 (ld32 0xa05f6800 m7) m7;
          m9 = hex_paint 20 218 (ld32 0xa05f8138 m8) m8
      in hex_paint 120 218 (ld32 0xa05f6804 m9) m9)"

text \<open>The frame director's render context, and every interrupt event latched since the start.\<close>

definition probe_render :: "machine \<Rightarrow> machine" where
  "probe_render m =
     (let m1 = m\<lparr>diagd := (diagd m)\<lparr>ist_seen := ist_seen (diagd m) OR ld32 0xa05f6900 m\<rparr>\<rparr>;
          rctx = ld32 0x8c0eb72c m1;
          m2 = hex_paint 20 232 rctx m1;
          m3 = hex_paint 120 232 (ld32 0x8c0eb728 m2) m2;
          rstate = (if rctx AND 0x1f000000 = 0x0c000000 then ld32 (rctx + 0x14) m3 else 0xffffffff);
          m4 = hex_paint 20 246 rstate m3
      in hex_paint 120 246 (ist_seen (diagd m4)) m4)"

text \<open>All probes of a tick; the registers read on the way are printed by the heartbeat.\<close>

type_synonym probe_regs = "u32 \<times> u32 \<times> u32 \<times> u32"

definition steady_probes :: "env \<Rightarrow> machine \<Rightarrow> probe_regs \<times> machine" where
  "steady_probes E m =
     (if SHIM_PROBES E then
        (let spc = stc_spc E m;
             m1 = hex_paint 20 68 spc m;
             mmucr = ld32 MMUCR m1;
             m2 = hex_paint 120 68 (ld32 EXPEVT m1) m1;
             vbr = stc_vbr E m2; sgr = stc_sgr E m2;
             m3 = hex_paint 20 82 (ld32 TEA m2) m2;
             m4 = hex_paint 120 82 vbr m3
         in ((spc, mmucr, vbr, sgr), probe_render (probe_queue (probe_sound m4))))
      else ((0, 0, 0, 0), m))"

definition probe_trace :: "env \<Rightarrow> probe_regs \<Rightarrow> machine \<Rightarrow> machine" where
  "probe_trace E regs m =
     (if SHIM_PROBES E then
        (let (spc, mmucr, vbr, sgr) = regs;
             m1 = scif_puthex E spc (scif_puts E ''SPC='' m);
             m2 = scif_puts E '' expevt='' m1; m3 = scif_puthex E (ld32 EXPEVT m2) m2;
             m4 = scif_puts E '' tea='' m3; m5 = scif_puthex E (ld32 TEA m4) m4;
             m6 = scif_puthex E mmucr (scif_puts E '' mmucr='' m5);
             m7 = scif_puthex E vbr (scif_puts E '' vbr='' m6);
             m8 = scif_puthex E sgr (scif_puts E '' sgr='' m7)
         in scif_puts E [CHR 0x0A] m8)
      else m)"

section \<open>The steady service\<close>

definition MMIR :: "u32 \<Rightarrow> machine \<Rightarrow> u32" where
  "MMIR r m = ld32 (P2ADDR (MAPLE_MIRROR + r)) m"

definition MMIR_set :: "u32 \<Rightarrow> u32 \<Rightarrow> machine \<Rightarrow> machine" where
  "MMIR_set r v m = st32 (P2ADDR (MAPLE_MIRROR + r)) v m"

text \<open>The guard of the list base and of every receive address: inside the 32 MB RAM window.\<close>

definition ram_window :: "u32 \<Rightarrow> bool" where
  "ram_window a \<longleftrightarrow> a - 0x0c000000 < 0x02000000"

text \<open>What the walk records for the on-screen forensics.\<close>

record walk_diag =
  dg_frames :: u32
  dg_mpstart :: u32
  dg_cmd86 :: u32
  dg_h1first :: u32
  dg_fh1 :: u32
  dg_rcv1 :: u32
  dg_pay1 :: u32
  dg_fh2 :: u32

definition diag0 :: walk_diag where
  "diag0 = \<lparr>dg_frames = 0, dg_mpstart = 0, dg_cmd86 = 0, dg_h1first = 0,
            dg_fh1 = 0, dg_rcv1 = 0, dg_pay1 = 0, dg_fh2 = 0\<rparr>"

text \<open>One command frame with operation \<^verbatim>\<open>MP_Start\<close> at \<open>addr\<close>.\<close>

definition frame_diag :: "u32 \<Rightarrow> u32 \<Rightarrow> u32 \<Rightarrow> walk_diag \<Rightarrow> walk_diag" where
  "frame_diag fh rcv pay d =
     (let d1 = d\<lparr>dg_mpstart := dg_mpstart d + 1\<rparr>;
          d2 = (if dg_mpstart d1 = 1 then d1\<lparr>dg_fh1 := fh, dg_rcv1 := rcv, dg_pay1 := pay\<rparr>
                else if dg_mpstart d1 = 2 then d1\<lparr>dg_fh2 := fh\<rparr> else d1)
      in if fh AND 0xff = 0x86 then d2\<lparr>dg_cmd86 := dg_cmd86 d2 + 1\<rparr> else d2)"

definition serve_frame :: "env \<Rightarrow> u32 \<Rightarrow> u32 \<Rightarrow> u32 \<Rightarrow> machine \<Rightarrow> unit outcome" where
  "serve_frame E fh rcv addr m =
     (if fh AND 0xff = 0x86 \<and> drop_bit 8 fh AND 0xff = 0x20 then
        (let sub = ucast (UB (addr + 0x0c) m);
             m1 = latch_jvs sub (UB (addr + 0x14) m) m
         in if ram_window rcv then maple_reply E sub rcv addr m1 else Ret () m1)
      else if ram_window rcv then Ret () (mie_probe_reply E (fh AND 0xff) fh rcv addr m)
      else Ret () m)"

text \<open>The walk over the descriptor list; \<open>k\<close> counts the iterations still allowed.\<close>

fun walk :: "env \<Rightarrow> nat \<Rightarrow> bool \<Rightarrow> u32 \<Rightarrow> walk_diag \<Rightarrow> machine \<Rightarrow> walk_diag outcome" where
  "walk E 0 first addr d m = Ret d m"
| "walk E (Suc k) first addr d m =
     (let h1 = UW addr m;
          rcv = UW (addr + 0x04) m AND 0x1fffffe0;
          plen = (h1 AND 0xff) + 1;
          d1 = (if first then d\<lparr>dg_h1first := h1\<rparr> else d);
          d2 = d1\<lparr>dg_frames := dg_frames d1 + 1\<rparr>;
          start = (drop_bit 8 h1 AND 7 = 0);
          fh = UW (addr + 0x08) m;
          d3 = (if start then frame_diag fh rcv (UW (addr + 0x0c) m) d2 else d2)
      in bindo (if start then serve_frame E fh rcv addr m else Ret () m) (\<lambda>u m1.
           if bit h1 31 then Ret d3 m1
           else walk E k False (addr + (2 + plen) * 4) d3 m1))"

text \<open>The 1 Hz block: rate windows and the two engine marks.\<close>

definition heartbeat :: "env \<Rightarrow> probe_regs \<Rightarrow> machine \<Rightarrow> machine" where
  "heartbeat E regs m =
     (let ph = steady_beat (maind m) AND 64;
          m1 = upd_main (\<lambda>d. d\<lparr>gc_rate := getcond_total d - last_gc d,
                 cc_rate := cart_count (cartd m) - last_cc d\<rparr>) m;
          m2 = upd_main (\<lambda>d. d\<lparr>last_gc := getcond_total d, last_cc := cart_count (cartd m1)\<rparr>) m1;
          m2 = probe_trace E regs m2;
          m3 = shim_mark E 8 (if trig_seen (maind m2) AND 0xffff \<noteq> 0
                 then (if ph \<noteq> 0 then 0x001f else 0xffe0) else (if ph \<noteq> 0 then 0xf800 else 0x07e0)) m2;
          m4 = shim_mark E 10 (if rc_ok_seen (maind m3) AND 0xffff \<noteq> 0
                 then (if ph \<noteq> 0 then 0xffff else 0x8410) else 0xf800) m3
      in upd_main (\<lambda>d. d\<lparr>trig_seen := 0x10000, rc_ok_seen := 0x10000\<rparr>) m4)"

definition list_paint :: "env \<Rightarrow> walk_diag \<Rightarrow> machine \<Rightarrow> machine" where
  "list_paint E d m =
     (let m1 = shim_mark E 17 (if dg_h1first d = 0 then 0xf800 else 0x07e0) m;
          m2 = shim_mark E 18 (if dg_mpstart d \<noteq> 0 then 0x07e0 else 0xf800) m1;
          m3 = shim_mark E 19 (if dg_cmd86 d \<noteq> 0 then 0x07e0 else 0xf800) m2;
          m4 = shim_mark E 20 (if dg_frames d = 0 then 0xf800 else if dg_frames d < 4 then 0xffe0 else 0x07e0) m3;
          m5 = shim_hex E 120 26 (dg_h1first d) (shim_hex E 20 26 (MMIR 0x04 m4) m4);
          m6 = shim_hex E 120 40 (dg_rcv1 d) (shim_hex E 20 40 (dg_fh1 d) m5)
      in shim_hex E 120 54 (dg_fh2 d) (shim_hex E 20 54 (dg_pay1 d) m6))"

definition list_trace :: "env \<Rightarrow> walk_diag \<Rightarrow> machine \<Rightarrow> machine" where
  "list_trace E d m =
     (if SHIM_TRACE E \<and> wr_left (maind m) = 32 then
        (let m1 = scif_puthex E (MMIR 0x04 m) (scif_puts E ''LISTDIAG star='' m);
             m2 = scif_puthex E (dg_h1first d) (scif_puts E '' h1='' m1);
             m3 = scif_puthex E (dg_frames d) (scif_puts E '' frames='' m2);
             m4 = scif_puthex E (dg_mpstart d) (scif_puts E '' mp='' m3);
             m5 = scif_puthex E (dg_cmd86 d) (scif_puts E '' c86='' m4)
         in scif_puts E [CHR 0x0A] m5)
      else m)"

text \<open>Servicing a triggered list: guard, walk, forensics, completion.\<close>

definition serve_list :: "env \<Rightarrow> machine \<Rightarrow> unit outcome" where
  "serve_list E m =
     (let m1 = upd_main (\<lambda>d. d\<lparr>trig_seen := trig_seen d + 1\<rparr>) m;
          addr = MMIR 0x04 m1 AND 0x1fffffe0;
          m2 = shim_mark E 16 (if addr = 0 then 0xf800
                 else if addr \<ge> 0x0c000000 \<and> addr < 0x0d000000 then 0x07e0 else 0xffe0) m1
      in bindo (if ram_window addr then walk E 32 True addr diag0 m2 else Ret diag0 m2) (\<lambda>d m3.
           Ret () (MMIR_set 0x18 0 (list_trace E d (list_paint E d m3)))))"

definition shim_maple_steady :: "env \<Rightarrow> machine \<Rightarrow> u32 outcome" where
  "shim_maple_steady E m =
     (let (rc, m1) = engine E (st32 0x8c1c9790 1 (la_tick E m));
          m2 = (if rc = 0 then upd_main (\<lambda>d. d\<lparr>rc_ok_seen := rc_ok_seen d + 1\<rparr>) m1 else m1);
          (regs, m2) = steady_probes E m2;
          m3 = upd_main (\<lambda>d. d\<lparr>steady_beat := steady_beat d + 1\<rparr>) m2;
          m4 = (if steady_beat (maind m3) AND 63 = 0 then heartbeat E regs m3 else m3)
      in if MMIR 0x18 m4 AND 1 \<noteq> 0
         then bindo (serve_list E m4) (\<lambda>u m5. Ret rc m5)
         else Ret rc m4)"

end
