(* ===== verification/Config.thy ===== *)
theory Config
  imports Steady
begin

text \<open>
  The configuration-time hooks of \<^verbatim>\<open>shims/src/main.c\<close>: the synchronous JVS enumeration, the EEPROM
  read and the stubs of the cartridge-board EEPROM library, and the monitor choice.
\<close>

section \<open>JVS enumeration\<close>

definition shim_cfg_tx :: "env \<Rightarrow> u32 \<Rightarrow> u32 \<Rightarrow> u32 \<Rightarrow> u32 \<Rightarrow> machine \<Rightarrow> u32 \<times> machine" where
  "shim_cfg_tx E node arg1 len payload m =
     (let m1 = ls_stampA E 1 (HUD_ONCE E 0x10 7 0xfc00 m)
      in (0, upd_main (\<lambda>d. d\<lparr>pending_cfg := GB payload m1\<rparr>) m1))"

definition cfg_select :: "u8 \<Rightarrow> blob \<times> u8" where
  "cfg_select p =
     (if p = 0x10 then (MIE_JVS10, 0x01)
      else if p = 0x11 then (MIE_JVS11, 0x02)
      else if p = 0x12 then (MIE_JVS12, 0x04)
      else if p = 0x13 then (MIE_JVS13, 0x08)
      else if p = 0x14 then (MIE_JVS14, 0x10)
      else if p = 0xf1 then (MIE_JVSF1, 0x20)
      else (MIE_JVSF1, 0x40))"

text \<open>The routine returns a pointer into the blob; the model returns what it points at.\<close>

definition shim_cfg_rx :: "env \<Rightarrow> machine \<Rightarrow> u8 list \<times> machine" where
  "shim_cfg_rx E m =
     (let m1 = HUD_ONCE E 0x04 2 0x07ff m;
          p = pending_cfg (maind m1);
          (b, bit) = cfg_select p;
          m2 = (if cfg_seen (maind m1) AND bit = 0
                then scif_puts E [CHR 0x0A] (scif_puthex E (ucast p) (scif_puts E ''CFG enum cmd=''
                       (upd_main (\<lambda>d. d\<lparr>cfg_seen := cfg_seen d OR bit\<rparr>) m1)))
                else m1)
      in (drop 0x15 (blob_bytes E b), m2))"

section \<open>EEPROM library stubs\<close>

definition shim_ee_write_skip :: "env \<Rightarrow> machine \<Rightarrow> u32 \<times> machine" where
  "shim_ee_write_skip E m = (0, shim_mark E 11 0xffff m)"

definition shim_ee_lib_decode :: "env \<Rightarrow> machine \<Rightarrow> u32 \<times> machine" where
  "shim_ee_lib_decode E m = (0, shim_mark E 12 0x07e0 m)"

definition shim_ee_lib_post :: "env \<Rightarrow> machine \<Rightarrow> u32 \<times> machine" where
  "shim_ee_lib_post E m = (0, shim_mark E 13 0xffe0 m)"

definition shim_ee_idx_read :: "env \<Rightarrow> u32 \<Rightarrow> machine \<Rightarrow> u32 \<times> machine" where
  "shim_ee_idx_read E out m = (0, shim_mark E 14 0x07ff (st32 out 0 m))"

definition shim_settings_skip :: "env \<Rightarrow> machine \<Rightarrow> u32 \<times> machine" where
  "shim_settings_skip E m = (0, shim_mark E 14 0x07ff m)"

section \<open>Monitor choice\<close>

definition shim_monitor_set :: "machine \<Rightarrow> u32 \<times> machine" where
  "shim_monitor_set m =
     (let (is_vga, m1) = shim_cable_is_vga m;
          vga = (if is_vga then 1 else 0 :: u32);
          m2 = st32 0x8c0c451c (if vga \<noteq> 0 then 0 else 2) m1;
          m3 = st32 0x8c0c4524 (if vga \<noteq> 0 then 0 else 1) m2
      in (0, st32 0x8c0c4518 1 (st32 0x8c0c4520 0 m3)))"

section \<open>EEPROM read\<close>

definition shim_ee_read :: "env \<Rightarrow> machine \<Rightarrow> machine" where
  "shim_ee_read E m =
     (let m1 = ls_stampA E 2 (HUD_ONCE E 0x01 0 0xffff m);
          img = blob_bytes E EEPROM_IMG;
          m2 = store_bytes 0x8c1c954c (take 128 img) m1;
          m3 = store_bytes 0x8c1c9528 (take 18 img) m2;
          m4 = store_bytes 0x8c1c953a (take 18 (drop 18 img)) m3
      in if eeread_logged (maind m4) \<noteq> 0
         then (let m5 = upd_main (\<lambda>d. d\<lparr>eeread_logged := 0\<rparr>) m4;
                   m6 = scif_puts E ''EE READ sync: coin09='' m5
               in scif_puts E [CHR 0x0A] (scif_puthex E (ucast (ld8 (0x8c1c9528 + 9) m6)) m6))
         else m4)"

end
