(* ===== verification/Transport_Lemmas.thy ===== *)
theory Transport_Lemmas
  imports Mie_Lemmas Config Blocks
begin

text \<open>
  The transport of \<^verbatim>\<open>main.c\<close> in a release build: every reply, every frame, the walk over the descriptor
  list and the steady service end, in one of three ways, and stay in the reply area.
\<close>

section \<open>One reply\<close>

text \<open>How a service may end: it returns, the pads ask for a reboot, or an unknown subcommand is fatal.\<close>

definition ends_at :: "(u32 \<Rightarrow> bool) \<Rightarrow> machine \<Rightarrow> 'a outcome \<Rightarrow> bool" where
  "ends_at R m r \<longleftrightarrow> (\<exists>v m1. r = Ret v m1 \<and> serves_at R m m1) \<or> (\<exists>m1. r = Reboot m1) \<or> (\<exists>a b m1. r = Die 3 a b m1)"

abbreviation ends_ok :: "machine \<Rightarrow> 'a outcome \<Rightarrow> bool" where
  "ends_ok \<equiv> ends_at reply_area"

lemma ends_ok_simps [simp]:
  "ends_at R m (Ret v m1) = serves_at R m m1" "ends_at R m (Reboot m1)" "ends_at R m (Die c a b m1) = (c = 3)"
  "\<not> ends_at R m Hang"
  by (auto simp: ends_at_def)

lemma ends_ok_bindo:
  "ends_at R m r \<Longrightarrow> (\<And>v m1. r = Ret v m1 \<Longrightarrow> serves_at R m m1 \<Longrightarrow> ends_at R m (f v m1)) \<Longrightarrow> ends_at R m (bindo r f)"
  by (cases r) auto

lemma ends_serving_ok: "ends_serving R m r \<Longrightarrow> ends_at R m r"
  by (auto simp: ends_serving_def)

lemma ends_ok_trans: "serves_at R m m1 \<Longrightarrow> ends_at R m1 r \<Longrightarrow> ends_at R m r"
  using serves_trans by (cases r) auto

text \<open>The blobs the build embeds are at most one page long.\<close>

definition blobs_fit :: "env \<Rightarrow> bool" where
  "blobs_fit E \<longleftrightarrow> (\<forall>b. length (blob_bytes E b) \<le> 0x1000)"

text \<open>What a transport needs: a release build, a bus that works, blobs that fit.\<close>

definition transport_ok :: "env \<Rightarrow> bool" where
  "transport_ok E \<longleftrightarrow> maple_ok E \<and> release E \<and> blobs_fit E"

lemma transport_okD:
  "transport_ok E \<Longrightarrow> maple_ok E" "transport_ok E \<Longrightarrow> release E"
  "transport_ok E \<Longrightarrow> length (blob_bytes E b) \<le> 0x1000"
  by (simp_all add: transport_ok_def blobs_fit_def)

lemma cable_serves: "covers R rcv \<Longrightarrow> serves_at R m (snd (shim_cable_is_vga m))"
proof -
  assume R: "covers R rcv"
  let ?m0 = "reg_w PCTRA ((ld32 PCTRA m AND 0xfff0ffff) OR 0x000a0000) m"
  have "touches R m ?m0"
    using R by (intro fpr.put_block) (auto simp: PCTRA_def span_def unat_bus covers_def reply_at_def)
  then have "serves_at R m ?m0" by (simp add: serves_at_def)
  then show ?thesis by (simp add: shim_cable_is_vga_def Let_def)
qed

lemma shim_die_3: "\<exists>a b m1. shim_die E 3 sub rcv m = Die 3 a b m1"
  using shim_die_Die by blast

lemma maple_reply_body_ends:
  assumes "transport_ok E" "rcv_ok rcv" "covers R rcv"
  shows "ends_at R m (maple_reply_body E sub rcv frame m)"
proof -
  note ok = transport_okD [OF assms(1)]
  let ?rx = "P2ADDR rcv"
  have blob: "serves_at R m (store_bytes ?rx (blob_bytes E b) m)" for b
    using serves_reply [OF assms(2) ok(3) serves_refl assms(3)] .
  have live: "ends_at R m (jvs_digital E s ?rx m)" for s
    by (rule ends_serving_ok [OF jvs_digital_ends [OF ok(1,2) assms(2,3)]])
  have ee: "serves_at R m (ee_deliver_log E rcv (store_bytes (?rx + 4) (take 128 (blob_bytes E EEPROM_IMG)) (store_bytes ?rx ee_header m)))"
    using serves_store_bytes [OF assms(2) _ _ assms(3), of 4 "take 128 (blob_bytes E EEPROM_IMG)" m "store_bytes ?rx ee_header m"]
      serves_reply [OF assms(2) _ _ assms(3), of ee_header m m] ok(2)
    by (simp add: ee_deliver_log_def Let_def ee_header_def del: store_bytes.simps)
  have ack: "serves_at R m (ee_write_log E a n frame (store_bytes ?rx ee_ack (ee_write_mark E m)))" for a n
    using serves_reply [OF assms(2) _ _ assms(3), of ee_ack m "ee_write_mark E m"] ok(2)
    by (simp add: ee_write_mark_def Let_def ee_ack_def del: store_bytes.simps)
  have cable: "serves_at R m (let (vga, m2) = shim_cable_is_vga (store_bytes ?rx (blob_bytes E MIE_SUB31) m)
      in if \<not> vga then st8 (?rx + 10) (ld8 (?rx + 10) m2 AND 0xfe) m2 else m2)"
  proof -
    let ?m2 = "snd (shim_cable_is_vga (store_bytes ?rx (blob_bytes E MIE_SUB31) m))"
    have s: "serves_at R m ?m2" by (rule serves_trans [OF blob cable_serves [OF assms(3)]])
    then have "serves_at R m (store_bytes (?rx + word_of_nat 10) [ld8 (?rx + 10) ?m2 AND 0xfe] ?m2)"
      by (intro serves_store_bytes [OF assms(2) _ _ assms(3)]) simp_all
    with s show ?thesis by (simp add: split_beta)
  qed
  have "ends_at R m (case enum_blob p of Some b \<Rightarrow> Ret () (store_bytes ?rx (blob_bytes E b) m)
      | None \<Rightarrow> jvs_digital E 0x15 ?rx m)" for p
    using blob live by (auto split: option.split)
  moreover have "ends_at R m (shim_die E 3 sub rcv m :: unit outcome)"
    using shim_die_3 [where 'a = unit, of E sub rcv m] by auto
  ultimately show ?thesis
    using blob live ee ack cable unfolding maple_reply_body_def Let_def split_beta by simp
qed

lemma maple_reply_ends:
  assumes "transport_ok E" "rcv_ok rcv" "covers R rcv"
  shows "ends_at R m (maple_reply E sub rcv frame m)"
proof -
  note ok = transport_okD [OF assms(1)]
  let ?m = "HUD_ONCE E 0x02 1 0x07e0 m"
  have "serves_at R m (?m\<lparr>maind := d\<rparr>)" for d
    using HUD_ONCE_serves [OF ok(2)] by simp
  from ends_ok_trans [OF this maple_reply_body_ends [OF assms]]
  show ?thesis using ok(2) release_builds [OF ok(2)] by (simp add: maple_reply_def Let_def)
qed

section \<open>The walk\<close>

lemma ram_window_ok: "ram_window a \<Longrightarrow> rcv_ok a"
  by (auto simp: ram_window_def rcv_ok_def word_less_nat_alt word_le_nat_alt unat_sub_u32 split: if_splits)

lemma serves_id [simp]: "serves_at R m (latch_jvs sub b m')= serves_at R m m'" "serves_at R m (upd_main f m') = serves_at R m m'"
  by (simp_all add: latch_jvs_def upd_main_def)

lemma probe_reply_serves:
  assumes "rcv_ok rcv" "covers R rcv"
  shows "serves_at R m (mie_probe_reply E cmd fh rcv frame m)"
proof -
  let ?rx = "P2ADDR rcv"
  have w: "serves_at R m (st32 (?rx + word_of_nat k) v m')" if "serves_at R m m'" "k \<le> 0x0ffc" for k v m'
    using serves_st32 [OF assms(1) _ that(1) assms(2)] that(2) by simp
  have s: "serves_at R m (store_bytes (?rx + word_of_nat k) bs m')" if "serves_at R m m'" "k + length bs \<le> 0x1000" for k bs m'
    using serves_store_bytes [OF assms(1) that(2,1) assms(2)] .
  have w0: "serves_at R m (st32 ?rx v m)" for v using w [of m 0 v] by simp
  have l: "length mie_id48 = 48" by (simp add: mie_id48_def)
  have id: "serves_at R m (store_bytes (?rx + 36) bs (st32 (?rx + 32) v (store_bytes (?rx + 4) cs (st32 ?rx u m))))"
    if "length bs \<le> 48" "length cs \<le> 48" for bs cs u v
    using s [OF w [OF s [OF w0, of 4 cs u], of 32 v], of 36 bs] that by simp
  have fw: "serves_at R m (st32 (?rx + 8) u (st32 (?rx + 4) v (st32 ?rx x m)))" for u v x
    using w [OF w [OF w0, of 4 v x], of 8 u] by simp
  show ?thesis
    unfolding mie_probe_reply_def Let_def using w0 id fw l by simp
qed

lemma serve_frame_at:
  assumes "transport_ok E" "ram_window rcv \<Longrightarrow> covers R rcv"
  shows "ends_at R m (serve_frame E fh rcv addr m)"
proof -
  have r: "ends_at R m (maple_reply E sub rcv addr (latch_jvs sub b m))" if "ram_window rcv" for sub b
    by (rule ends_ok_trans [OF _ maple_reply_ends [OF assms(1) ram_window_ok [OF that] assms(2) [OF that]]]) simp
  show ?thesis
    using r probe_reply_serves [OF ram_window_ok assms(2)] by (simp add: serve_frame_def Let_def)
qed

lemma serve_frame_ends: "transport_ok E \<Longrightarrow> ends_ok m (serve_frame E fh rcv addr m)"
  by (rule serve_frame_at) (auto intro: covers_area ram_window_ok)

lemma frame_diag_frames [simp]: "dg_frames (frame_diag fh rcv pay d) = dg_frames d"
  by (simp add: frame_diag_def Let_def)

lemma walk_ends: "transport_ok E \<Longrightarrow> ends_ok m (walk E k first addr d m)"
proof (induction k arbitrary: first addr d m)
  case (Suc k)
  have "ends_ok m (if drop_bit 8 (UW addr m) AND 7 = 0 then serve_frame E (UW (addr + 8) m)
      (UW (addr + 4) m AND 0x1fffffe0) addr m else Ret () m)"
    using serve_frame_ends [OF Suc.prems] by simp
  then show ?case
    unfolding walk.simps Let_def
    by (rule ends_ok_bindo) (auto intro: ends_ok_trans Suc.IH [OF Suc.prems])
qed simp

text \<open>The number of frames it has looked at.\<close>

lemma walk_frames:
  "walk E k first addr d m = Ret d' m' \<Longrightarrow> unat (dg_frames d) + k < 4294967296 \<Longrightarrow>
    unat (dg_frames d) \<le> unat (dg_frames d') \<and> unat (dg_frames d') \<le> unat (dg_frames d) + k"
proof (induction k arbitrary: first addr d m)
  case (Suc k)
  let ?d = "(if first then d\<lparr>dg_h1first := UW addr m\<rparr> else d)"
  let ?d2 = "?d\<lparr>dg_frames := dg_frames ?d + 1\<rparr>"
  let ?fd = "frame_diag (UW (addr + 8) m) (UW (addr + 4) m AND 0x1fffffe0) (UW (addr + 12) m) ?d2"
  let ?d3 = "if drop_bit 8 (UW addr m) AND 7 = 0 then ?fd else ?d2"
  have n: "unat (dg_frames ?d3) = Suc (unat (dg_frames d))"
    using Suc.prems(2) unat_add_lt [of "dg_frames d" 1] by simp
  obtain m1 where "(if bit (UW addr m) 31 then Ret ?d3 m1
      else walk E k False (addr + (2 + ((UW addr m AND 0xff) + 1)) * 4) ?d3 m1) = Ret d' m'"
    using Suc.prems(1) unfolding walk.simps Let_def bindo_eq_Ret by auto
  then have "?d3 = d' \<or> walk E k False (addr + (2 + ((UW addr m AND 0xff) + 1)) * 4) ?d3 m1 = Ret d' m'"
    by (auto split: if_splits)
  then show ?case
  proof
    assume "?d3 = d'"
    then show ?thesis using n by simp
  next
    assume "walk E k False (addr + (2 + ((UW addr m AND 0xff) + 1)) * 4) ?d3 m1 = Ret d' m'"
    then have "unat (dg_frames ?d3) \<le> unat (dg_frames d') \<and> unat (dg_frames d') \<le> unat (dg_frames ?d3) + k"
      by (rule Suc.IH) (use n Suc.prems(2) in simp)
    then show ?thesis unfolding n by simp
  qed
qed simp

section \<open>The steady service\<close>

lemma MMIR_set_same: "MMIR 0x18 (MMIR_set 0x18 v m) = v"
  by (simp add: MMIR_def MMIR_set_def ld32_st32_same span_def src_consts P2ADDR_def)

lemma MMIR_set_serves: "serves m m' \<Longrightarrow> serves m (MMIR_set 0x18 v m')"
  using fp32.put_then [of reply_area m m' "P2ADDR (MAPLE_MIRROR + 0x18)" v]
  by (auto simp: serves_at_def MMIR_set_def span_def src_consts P2ADDR_def unat_bus reply_area_def)

lemma list_reports [simp]:
  "release E \<Longrightarrow> list_paint E d m = m" "release E \<Longrightarrow> list_trace E d m = m"
  by (simp_all add: list_paint_def list_trace_def Let_def release_def shim_mark_def shim_hex_def)

lemma serve_list_ends:
  assumes "transport_ok E"
  shows "ends_ok m (serve_list E m) \<and> (\<forall>u m1. serve_list E m = Ret u m1 \<longrightarrow> MMIR 0x18 m1 = 0)"
proof -
  note rel = transport_okD(2) [OF assms]
  let ?m = "upd_main (\<lambda>d. d\<lparr>trig_seen := trig_seen d + 1\<rparr>) m"
  let ?a = "MMIR 4 ?m AND 0x1fffffe0"
  have sl: "serve_list E m = bindo (if ram_window ?a then walk E 32 True ?a diag0 ?m else Ret diag0 ?m)
      (\<lambda>d m3. Ret () (MMIR_set 0x18 0 m3))"
    using rel by (simp add: serve_list_def Let_def)
  have "ends_ok m (walk E 32 True ?a diag0 ?m)"
    by (rule ends_ok_trans [OF _ walk_ends [OF assms]]) simp
  then have "ends_ok m (if ram_window ?a then walk E 32 True ?a diag0 ?m else Ret diag0 ?m)" by simp
  then have "ends_ok m (serve_list E m)"
    unfolding sl by (rule ends_ok_bindo) (simp add: MMIR_set_serves)
  moreover have "MMIR 0x18 m1 = 0" if "serve_list E m = Ret u m1" for u m1
    using that unfolding sl bindo_eq_Ret by (auto simp: MMIR_set_same)
  ultimately show ?thesis by blast
qed

lemma diag_off [simp]:
  "release E \<Longrightarrow> la_tick E m = m" "release E \<Longrightarrow> steady_probes E m = ((0, 0, 0, 0), m)"
  "release E \<Longrightarrow> probe_trace E regs m = m"
  by (auto simp: la_tick_def steady_probes_def probe_trace_def dest: release_builds)

lemma heartbeat_serves: "release E \<Longrightarrow> serves m (heartbeat E regs m)"
  by (simp add: heartbeat_def Let_def)

lemma steady_cases:
  assumes "transport_ok E"
  shows "(\<exists>m1. shim_maple_steady E m = Ret (fst (engine E (st32 0x8c1c9790 1 m))) m1 \<and>
      serves (snd (engine E (st32 0x8c1c9790 1 m))) m1 \<and> MMIR 0x18 m1 AND 1 = 0) \<or>
    (\<exists>m1. shim_maple_steady E m = Reboot m1) \<or> (\<exists>a b m1. shim_maple_steady E m = Die 3 a b m1)"
proof -
  note rel = transport_okD(2) [OF assms]
  obtain rc me where e: "engine E (st32 0x8c1c9790 1 m) = (rc, me)" by (metis prod.exhaust)
  define m2 where "m2 = (if rc = 0 then upd_main (\<lambda>d. d\<lparr>rc_ok_seen := rc_ok_seen d + 1\<rparr>) me else me)"
  define m3 where "m3 = upd_main (\<lambda>d. d\<lparr>steady_beat := steady_beat d + 1\<rparr>) m2"
  define m4 where "m4 = (if steady_beat (maind m3) AND 63 = 0 then heartbeat E (0, 0, 0, 0) m3 else m3)"
  have st: "shim_maple_steady E m = (if MMIR 0x18 m4 AND 1 \<noteq> 0
      then bindo (serve_list E m4) (\<lambda>u m5. Ret rc m5) else Ret rc m4)"
    using rel by (simp add: shim_maple_steady_def e Let_def m2_def m3_def m4_def)
  have "serves me m3" by (simp add: m3_def m2_def)
  then have s4: "serves me m4"
    using serves_trans [OF _ heartbeat_serves [OF rel]] by (simp add: m4_def)
  show ?thesis
  proof (cases "MMIR 0x18 m4 AND 1 = 0")
    case True
    then show ?thesis using s4 by (simp add: st e)
  next
    case False
    note sl = serve_list_ends [OF assms, of m4]
    show ?thesis
    proof (cases "serve_list E m4")
      case (Ret u m5)
      then show ?thesis using sl False serves_trans [OF s4] by (simp add: st e)
    qed (use sl False in \<open>auto simp: st e\<close>)
  qed
qed

end
