(* ===== verification/Reply_Lemmas.thy ===== *)
theory Reply_Lemmas
  imports Transport_Lemmas
begin

text \<open>
  What the replies hold: the live pad frame with its cache, the captured replies, the bring-up
  ladder, and the configuration-time hooks.
\<close>

section \<open>The pad cache\<close>

text \<open>The state in which a poll decides: the first poll has computed the window.\<close>

definition poll_start :: "env \<Rightarrow> machine \<Rightarrow> machine" where
  "poll_start E m = pad_thresh_init (HUD_ONCE E 0x08 3 0xffe0 m)"

definition poll_due :: "env \<Rightarrow> machine \<Rightarrow> bool" where
  "poll_due E m \<longleftrightarrow> in_tcnt (maind m) - ld32 TCNT0 (poll_start E m) > pad_thresh (maind (poll_start E m))"

lemma poll_start_fields [simp]:
  assumes "release E"
  shows "in_tcnt (maind (poll_start E m)) = in_tcnt (maind m)" "io (poll_start E m) = io m"
    "raw_cache_a (maind (poll_start E m)) = raw_cache_a (maind m)"
    "raw_cache_b (maind (poll_start E m)) = raw_cache_b (maind m)"
  using assms by (simp_all add: poll_start_def pad_thresh_init_def HUD_ONCE_def)

lemma jvs_digital_reply:
  assumes "release E" "pad_refresh E (poll_start E m) = Ret () m1"
  shows "jvs_digital E sub rx m = Ret () (store_bytes rx
    (jvs_frame (ucast (raw_cache_a (maind m1))) (ucast (raw_cache_b (maind m1)))) m1)"
  using assms by (simp add: jvs_digital_def poll_start_def Let_def)

lemma load_reply:
  assumes "rcv_ok rcv" "length bs \<le> 0x1000"
  shows "load_bytes (P2ADDR rcv) (length bs) (store_bytes (P2ADDR rcv) bs m) = bs"
proof (cases "bs = []")
  case False
  then have "span (P2ADDR rcv) (length bs)"
    using rcv_P2(1) [OF assms(1), of 0 "length bs"] assms(2) by simp
  then show ?thesis by (rule store_bytes_load_same)
qed simp

lemma poll_cached:
  assumes "release E" "rcv_ok rcv" "\<not> poll_due E m"
  shows "\<exists>m1. jvs_digital E sub (P2ADDR rcv) m = Ret () m1 \<and> io m1 = io m \<and>
    load_bytes (P2ADDR rcv) 64 m1 = jvs_frame (ucast (raw_cache_a (maind m))) (ucast (raw_cache_b (maind m)))"
proof -
  have r: "pad_refresh E (poll_start E m) = Ret () (poll_start E m)"
    using assms(1,3) by (simp add: pad_refresh_def poll_due_def Let_def)
  then show ?thesis
    using load_reply [OF assms(2), of "jvs_frame (ucast (raw_cache_a (maind m))) (ucast (raw_cache_b (maind m)))"]
    by (simp add: jvs_digital_reply [OF assms(1) r] assms(1))
qed

text \<open>A due poll reads port A, then port B, in the state the clock has been taken in.\<close>

definition poll_tick :: "env \<Rightarrow> machine \<Rightarrow> machine" where
  "poll_tick E m = (let m0 = poll_start E m
     in m0\<lparr>maind := (maind m0)\<lparr>in_tcnt := ld32 TCNT0 m0, getcond_total := getcond_total (maind m0) + 2\<rparr>\<rparr>)"

lemma poll_live:
  assumes "maple_ok E" "release E" "rcv_ok rcv" "poll_due E m"
  shows "\<exists>a b m2 m3. maple_getcond E 0 (poll_tick E m) = Ret a m2 \<and>
    maple_getcond E 1 (m2\<lparr>maind := (maind m2)\<lparr>raw_cache_a := ucast a\<rparr>\<rparr>) = Ret b m3 \<and>
    (if dc_reset_combo a \<or> dc_reset_combo b then \<exists>m4. jvs_digital E sub (P2ADDR rcv) m = Reboot m4
     else \<exists>m4. jvs_digital E sub (P2ADDR rcv) m = Ret () m4 \<and> load_bytes (P2ADDR rcv) 64 m4 = jvs_frame a b \<and>
       raw_cache_a (maind m4) = ucast a \<and> raw_cache_b (maind m4) = ucast b)"
proof -
  obtain a m2 where a: "maple_getcond E 0 (poll_tick E m) = Ret a m2" "maple_step (poll_tick E m) m2"
    using maple_getcond_ok [OF assms(1)] by blast
  let ?m2 = "m2\<lparr>maind := (maind m2)\<lparr>raw_cache_a := ucast a\<rparr>\<rparr>"
  obtain b m3 where b: "maple_getcond E 1 ?m2 = Ret b m3" "maple_step ?m2 m3"
    using maple_getcond_ok [OF assms(1)] by blast
  let ?m4 = "m3\<lparr>maind := (maind m3)\<lparr>raw_cache_b := ucast b\<rparr>\<rparr>"
  have ra: "raw_cache_a (maind m3) = ucast a"
    using b(2) by (simp add: maple_step_def same_statics_def)
  have uc: "ucast (ucast x :: u32) = x" for x :: u16
    by (rule bit_eqI) (simp add: bit_simps)
  have r: "pad_refresh E (poll_start E m) =
    (if dc_reset_combo a \<or> dc_reset_combo b then pad_reboot ?m4 else Ret () ?m4)"
    using assms(2,4) a(1) b(1) ra
    by (simp add: pad_refresh_def poll_due_def poll_tick_def Let_def uc)
  have "jvs_digital E sub (P2ADDR rcv) m = Reboot (?m4\<lparr>cpu := (cpu ?m4)\<lparr>sr := (sr (cpu ?m4) AND 0xefffff0f) OR 0xf0\<rparr>\<rparr>)"
    if "dc_reset_combo a \<or> dc_reset_combo b"
    using r that by (simp add: jvs_digital_def poll_start_def pad_reboot_def)
  moreover have "jvs_digital E sub (P2ADDR rcv) m = Ret () (store_bytes (P2ADDR rcv) (jvs_frame a b) ?m4)"
    if "\<not> (dc_reset_combo a \<or> dc_reset_combo b)"
    using jvs_digital_reply [OF assms(2), of m ?m4 sub "P2ADDR rcv"] r that ra by (simp add: uc)
  ultimately show ?thesis
    using a(1) b(1) ra load_reply [OF assms(3), of "jvs_frame a b"] by auto
qed

text \<open>The window in timer ticks: 8 ms of the prescaled 50 MHz clock.\<close>

lemma tpsc_cases: "unat (t AND 7 :: u16) < 8"
proof -
  have "t AND 7 \<le> 7" by (rule word_and_le1)
  then show ?thesis by (simp add: word_le_nat_alt)
qed

lemma thresh_values:
  assumes "k < 8"
  shows "drop_bit (tpsc_shifts ! k) (50000000 :: u32) div 125 \<in> {100000, 25000, 6250, 1562, 390}"
proof -
  from assms have "k \<in> {0, 1, 2, 3, 4, 5, 6, 7}" by auto
  then show ?thesis by (auto simp: tpsc_shifts_def)
qed

lemma pad_thresh_once:
  "pad_thresh (maind (pad_thresh_init m)) \<noteq> 1 \<and> pad_thresh_init (pad_thresh_init m) = pad_thresh_init m"
  using thresh_values [OF tpsc_cases, of "ld16 TCR0 m"] by (auto simp: pad_thresh_init_def)

lemma pad_thresh_value:
  assumes "pad_thresh (maind m) = 1"
  shows "unat (pad_thresh (maind (pad_thresh_init m)))
    = 50000000 div 2 ^ (tpsc_shifts ! unat (ld16 TCR0 m AND 7)) div 125"
proof -
  have d: "unat (drop_bit k (50000000 :: u32)) = 50000000 div 2 ^ k" for k
    by (simp only: unat_drop_bit_eq) (simp add: drop_bit_eq_div)
  show ?thesis using assms by (simp add: pad_thresh_init_def unat_div d)
qed

section \<open>Captured replies\<close>

text \<open>The subcommands that replay a blob.\<close>

definition replay :: "u32 \<Rightarrow> blob option" where
  "replay sub =
     (if sub = 0x01 then Some MIE_SUB01 else if sub = 0x13 then Some MIE_SUB13
      else if sub = 0x17 \<or> sub = 0x19 \<or> sub = 0x21 then Some MIE_SUB17
      else if sub = 0x27 then Some MIE_SUB27 else if sub = 0xff then Some MIE_SUBFF else None)"

definition known_subs :: "u32 set" where
  "known_subs = {0x01, 0x03, 0x0b, 0x13, 0x15, 0x17, 0x19, 0x21, 0x27, 0x31, 0x33, 0xff}"

lemma replay_known: "replay sub = Some b \<Longrightarrow> sub \<in> known_subs"
  by (auto simp: replay_def known_subs_def split: if_splits)

text \<open>The bookkeeping in front of the switch.\<close>

definition reply_start :: "env \<Rightarrow> machine \<Rightarrow> machine" where
  "reply_start E m = (let m1 = HUD_ONCE E 0x02 1 0x07e0 m
     in m1\<lparr>maind := (maind m1)\<lparr>reply_ticks := reply_ticks (maind m1) + 1\<rparr>\<rparr>)"

lemma maple_reply_start: "release E \<Longrightarrow> maple_reply E sub rcv frame m = maple_reply_body E sub rcv frame (reply_start E m)"
  using release_builds [of E] by (simp add: maple_reply_def reply_start_def Let_def)

lemma reply_start_facts:
  assumes "release E"
  shows "serves_at R m (reply_start E m)" "pending_jvs (maind (reply_start E m)) = pending_jvs (maind m)"
    "touches F m (reply_start E m)" "io (reply_start E m) = io m"
  using assms by (simp_all add: reply_start_def Let_def HUD_ONCE_def)

lemma maple_reply_replay:
  "release E \<Longrightarrow> replay sub = Some b \<Longrightarrow>
    maple_reply E sub rcv frame m = Ret () (store_bytes (P2ADDR rcv) (blob_bytes E b) (reply_start E m))"
  by (auto simp: maple_reply_start maple_reply_body_def replay_def split: if_splits)

lemma maple_reply_enum:
  "release E \<Longrightarrow> enum_blob (pending_jvs (maind m)) = Some b \<Longrightarrow>
    maple_reply E 0x15 rcv frame m = Ret () (store_bytes (P2ADDR rcv) (blob_bytes E b) (reply_start E m))"
  by (simp add: maple_reply_start maple_reply_body_def reply_start_facts)

text \<open>The enumeration of the JVS bus: which captured reply belongs to which command.\<close>

definition enum_table :: "(u8 \<times> blob) list" where
  "enum_table = [(0xf1, MIE_JVSF1), (0x10, MIE_JVS10), (0x11, MIE_JVS11), (0x12, MIE_JVS12),
     (0x13, MIE_JVS13), (0x14, MIE_JVS14)]"

lemma enum_blob_table:
  "(cmd, c) \<in> set enum_table \<Longrightarrow> enum_blob cmd = Some c"
  "cmd \<notin> fst ` set enum_table \<Longrightarrow> enum_blob cmd = None"
  by (auto simp: enum_table_def enum_blob_def)

lemma maple_reply_live:
  "release E \<Longrightarrow> enum_blob (pending_jvs (maind m)) = None \<Longrightarrow>
    maple_reply E 0x15 rcv frame m = jvs_digital E 0x15 (P2ADDR rcv) (reply_start E m)"
  "release E \<Longrightarrow> maple_reply E 0x33 rcv frame m = jvs_digital E 0x33 (P2ADDR rcv) (reply_start E m)"
  by (simp_all add: maple_reply_start maple_reply_body_def reply_start_facts)

text \<open>The live frame is the one of the cached pad words, which a poll may just have renewed.\<close>

lemma jvs_digital_frame:
  assumes "maple_ok E" "release E" "rcv_ok rcv"
  shows "(\<exists>m1. jvs_digital E sub (P2ADDR rcv) m = Ret () m1 \<and>
      load_bytes (P2ADDR rcv) 64 m1 = jvs_frame (ucast (raw_cache_a (maind m1))) (ucast (raw_cache_b (maind m1)))) \<or>
    (\<exists>m1. jvs_digital E sub (P2ADDR rcv) m = Reboot m1)"
proof (cases "pad_refresh E (poll_start E m)")
  case (Ret u m1)
  then show ?thesis
    using jvs_digital_reply [OF assms(2), of m m1 sub "P2ADDR rcv"]
      load_reply [OF assms(3), of "jvs_frame (ucast (raw_cache_a (maind m1))) (ucast (raw_cache_b (maind m1)))"]
    by auto
qed (use pad_refresh_ends [OF assms(1) covers_at, where m = "poll_start E m"] in
    \<open>auto simp: ends_serving_def jvs_digital_def poll_start_def\<close>)

lemma jvs_digital_codes: "die_codes {} (jvs_digital E sub rx m)"
proof -
  have w: "die_codes {} (maple_wait E m)" for m
    by (simp add: maple_wait_def split: option.split)
  have f: "die_codes {} (maple_fire E m)" for m
    by (simp add: maple_fire_def w)
  have p: "die_codes {} (probe_devinfo E port m)" for port m
    unfolding probe_devinfo_def by (rule die_codes_bindo [OF f]) simp
  have i: "die_codes {} (maple_bus_init E m)" for m
    unfolding maple_bus_init_def Let_def by (auto intro: die_codes_bindo p)
  have l: "die_codes {} (getcond_loop E k port m)" for k port m
    by (induction k arbitrary: m) (auto simp: Let_def intro!: die_codes_bindo f)
  have g: "die_codes {} (maple_getcond E port m)" for port m
    unfolding maple_getcond_def by (rule die_codes_bindo [OF i l])
  have "die_codes {} (pad_refresh E m)" for m
    unfolding pad_refresh_def Let_def by (auto intro!: die_codes_bindo g simp: pad_reboot_def)
  then show ?thesis
    unfolding jvs_digital_def Let_def by (rule die_codes_bindo) simp
qed

lemma maple_reply_dies:
  "(\<exists>c a b m1. maple_reply E sub rcv frame m = Die c a b m1) \<longleftrightarrow> sub \<notin> known_subs"
proof -
  have "\<exists>m'. maple_reply E sub rcv frame m = maple_reply_body E sub rcv frame m'"
    unfolding maple_reply_def Let_def by blast
  then obtain m' where m': "maple_reply E sub rcv frame m = maple_reply_body E sub rcv frame m'" ..
  have nd: "jvs_digital E s rx m' \<noteq> Die c a b m1" for s rx c a b m1
    using jvs_digital_codes [of E s rx m'] by (auto simp: die_codes_def)
  show ?thesis
  proof (cases "sub \<in> known_subs")
    case True
    have "maple_reply_body E sub rcv frame m' \<noteq> Die c a b m1" for c a b m1
      using True nd by (auto simp: maple_reply_body_def known_subs_def Let_def split_beta split: option.split)
    then show ?thesis using True m' by simp
  next
    case False
    then have "maple_reply_body E sub rcv frame m' = shim_die E 3 sub rcv m'"
      by (simp add: maple_reply_body_def known_subs_def Let_def)
    then show ?thesis using False m' shim_die_Die [where 'a = unit, of E 3 sub rcv m'] by auto
  qed
qed

end
