(* ===== verification/Pad_Bus.thy ===== *)
theory Pad_Bus
  imports Maple_Lemmas
begin

text \<open>
  One pad read as a conversation with the bus: the request the engine finds when it is started, and what
  the read reports of a pad that answers, of one that does not, and after how many transactions.
\<close>

section \<open>The request in front of the engine\<close>

text \<open>
  The engine is started on a GetCondition request: its registers, the descriptor and the frame, as the
  protocol prescribes them for the two ports.
\<close>

definition asked :: "u32 \<Rightarrow> machine \<Rightarrow> bool" where
  "asked port m \<longleftrightarrow> ld32 0xa05f6c18 m = 1 \<and> ld32 0xa05f6c14 m = 1 \<and> ld32 0xa05f6c10 m = 0 \<and>
     ld32 0xa05f6c04 m = 0x0cfc9000 \<and>
     ld32 0xacfc9000 m = (if port = 0 then 0x80000001 else 0x80010001) \<and> ld32 0xacfc9004 m = 0x0cfc9040 \<and>
     ld32 0xacfc9008 m = (if port = 0 then 0x01002009 else 0x01406009) \<and> ld32 0xacfc900c m = 0x01000000 \<and>
     ld32 0xacfc9040 m = 0"

text \<open>The state in which a transaction ends: the first one with the busy bit clear.\<close>

definition ends_in :: "env \<Rightarrow> machine \<Rightarrow> machine \<Rightarrow> bool" where
  "ends_in E m m1 \<longleftrightarrow> (\<exists>k. m1 = (maple_hw E ^^ Suc k) m \<and> ld32 0xa05f6c18 m1 AND 1 = 0 \<and>
     (\<forall>j < k. ld32 0xa05f6c18 ((maple_hw E ^^ Suc j) m) AND 1 \<noteq> 0))"

text \<open>
  A pad that answers puts a data transfer with its buttons into the receive buffer; an absent one leaves the
  buffer as it is, or the engine marks it with all ones.
\<close>

definition pad_answers :: "env \<Rightarrow> u32 \<Rightarrow> u16 \<Rightarrow> bool" where
  "pad_answers E port w \<longleftrightarrow> (\<forall>m m1. asked port m \<longrightarrow> ends_in E m m1 \<longrightarrow>
     ld32 0xacfc9040 m1 AND 0xff = 8 \<and> ld32 0xacfc9048 m1 AND 0xffff = ucast w)"

definition pad_absent :: "env \<Rightarrow> u32 \<Rightarrow> bool" where
  "pad_absent E port \<longleftrightarrow> (\<forall>m m1. asked port m \<longrightarrow> ends_in E m m1 \<longrightarrow>
     ld32 0xacfc9040 m1 \<in> {ld32 0xacfc9040 m, 0xffffffff})"

text \<open>How often the engine has been started, by the log of register stores.\<close>

definition starts :: "machine \<Rightarrow> nat" where
  "starts m = length (filter (\<lambda>w. w = (0xa05f6c18, 1)) (io m))"

definition fired :: "machine \<Rightarrow> machine" where
  "fired m = reg_w SB_MDST 1 (reg_w SB_MDEN 1 (reg_w SB_MDSTAR (MAPLE_TX AND 0x1fffffff) (reg_w SB_MDTSEL 0 m)))"

lemma maple_fire_fired: "maple_fire E m = maple_wait E (fired m)"
  by (simp add: maple_fire_def fired_def)

lemma ld32_reg_w_same: "span a 4 \<Longrightarrow> ld32 a (reg_w a v m) = v"
  by (simp add: reg_w_def ld32_st32_same)

lemma ld32_reg_w_other: "cells_apart b 4 a 4 \<Longrightarrow> ld32 b (reg_w a v m) = ld32 b m"
  by (simp add: reg_w_def ld32_st32_other)

lemma fired_regs:
  "ld32 0xa05f6c18 (fired m) = 1" "ld32 0xa05f6c14 (fired m) = 1" "ld32 0xa05f6c10 (fired m) = 0"
  "ld32 0xa05f6c04 (fired m) = 0x0cfc9000"
  by (simp_all add: fired_def src_consts ld32_reg_w_same ld32_reg_w_other cells_apart_def span_def unat_bus)

lemma fired_memory:
  assumes "0xac000000 \<le> unat a" "unat a + 4 \<le> 0xb0000000"
  shows "ld32 a (fired m) = ld32 a m"
proof -
  have "cells_apart a 4 r 4" if "r \<in> {0xa05f6c18, 0xa05f6c14, 0xa05f6c10, 0xa05f6c04}" for r
    using p2_word [OF assms] assms that by (auto simp: cells_apart_def span_def unat_bus [of "0xa05f6c18"]
      unat_bus [of "0xa05f6c14"] unat_bus [of "0xa05f6c10"] unat_bus [of "0xa05f6c04"])
  then show ?thesis by (simp add: fired_def src_consts ld32_reg_w_other)
qed

lemma getcond_asked:
  assumes "port = 0 \<or> port = 1"
  shows "asked port (fired (getcond_frame port m))"
  unfolding asked_def
  using getcond_frame_words [of port m] assms
  by (auto simp: fired_regs fired_memory rx_word_def P2ADDR_def MAPLE_RX_def SHIM_BASE_def)

lemma starts_reg_w [simp]: "starts (reg_w a v m) = starts m + (if a = 0xa05f6c18 \<and> v = 1 then 1 else 0)"
  by (simp add: starts_def)

lemma starts_fields [simp]:
  "starts (st32 a v m) = starts m" "starts (m\<lparr>mapled := d\<rparr>) = starts m"
  by (simp_all add: starts_def)

lemma starts_fired: "starts (fired m) = starts m + 1"
  by (simp add: fired_def src_consts)

lemma starts_frames [simp]: "starts (getcond_frame port m) = starts m" "starts (probe_frame port m) = starts m"
  by (simp_all add: getcond_frame_def probe_frame_def Let_def)

section \<open>A transaction\<close>

lemma fire_ends:
  assumes "maple_ok E"
  shows "\<exists>m1. maple_fire E m = Ret () m1 \<and> ends_in E (fired m) m1"
proof -
  obtain m1 where m1: "maple_wait E (fired m) = Ret () m1"
    using maple_wait_ok [OF assms] by blast
  then show ?thesis
    unfolding maple_wait_first by (auto simp: maple_fire_fired m1 ends_in_def busy_def SB_MDST_def)
qed

definition engine_silent :: "env \<Rightarrow> bool" where
  "engine_silent E \<longleftrightarrow> (\<forall>m. io (maple_hw E m) = io m)"

lemma ends_starts: "engine_silent E \<Longrightarrow> ends_in E m m1 \<Longrightarrow> starts m1 = starts m"
proof -
  assume s: "engine_silent E"
  have "io ((maple_hw E ^^ k) m) = io m" for k
    using s by (induction k) (simp_all add: engine_silent_def)
  then show "ends_in E m m1 \<Longrightarrow> starts m1 = starts m"
    unfolding ends_in_def starts_def by metis
qed

lemma fire_starts:
  assumes "engine_silent E" "maple_ok E" "maple_fire E m = Ret u m1"
  shows "starts m1 = starts m + 1"
  using fire_ends [OF assms(2), of m] ends_starts [OF assms(1)] assms(3) by (auto simp: starts_fired)

lemma bus_init_starts:
  assumes "maple_ok E"
  shows "\<exists>m1. maple_bus_init E m = Ret () m1 \<and>
    (engine_silent E \<longrightarrow> starts m1 = starts m + (if bus_init_done (mapled m) AND 0x10000 \<noteq> 0 then 2 else 0))"
proof -
  have p: "\<exists>m1. probe_devinfo E port m' = Ret () m1 \<and> (engine_silent E \<longrightarrow> starts m1 = starts m' + 1)" for port m'
    using maple_fire_ok [OF assms, of "probe_frame port m'"] fire_starts [OF _ assms, of "probe_frame port m'"]
    by (auto simp: probe_devinfo_def)
  let ?m = "reg_w SB_MDEN 1 (reg_w SB_MDTSEL 0 (reg_w SB_MSPEED 0xC3500000
    (reg_w SB_MDAPRO 0x6155404f (m\<lparr>mapled := (mapled m)\<lparr>bus_init_done := 1\<rparr>\<rparr>))))"
  have "starts ?m = starts m" by (simp add: src_consts)
  moreover obtain m1 where "probe_devinfo E 0 ?m = Ret () m1" "engine_silent E \<longrightarrow> starts m1 = starts ?m + 1"
    using p by blast
  moreover obtain m2 where "probe_devinfo E 1 m1 = Ret () m2" "engine_silent E \<longrightarrow> starts m2 = starts m1 + 1"
    using p by blast
  ultimately show ?thesis by (auto simp: maple_bus_init_def)
qed

section \<open>The read\<close>

lemma getcond_attempt:
  assumes "maple_ok E" "port = 0 \<or> port = 1"
  shows "\<exists>m1. (pad_answers E port w \<longrightarrow> getcond_loop E (Suc k) port m = Ret w m1) \<and>
    (pad_absent E port \<longrightarrow> getcond_loop E (Suc k) port m = getcond_loop E k port m1) \<and>
    (engine_silent E \<longrightarrow> starts m1 = starts m + 1)"
proof -
  let ?s = "fired (getcond_frame port m)"
  obtain m1 where m1: "maple_fire E (getcond_frame port m) = Ret () m1" "ends_in E ?s m1"
    using fire_ends [OF assms(1)] by blast
  let ?m2 = "m1\<lparr>mapled := (mapled m1)\<lparr>maple_hdr := (maple_hdr (mapled m1))(port := rx_word 0 m1)\<rparr>\<rparr>"
  have rx: "rx_word 0 m' = ld32 0xacfc9040 m'" "rx_word 2 m' = ld32 0xacfc9048 m'" for m'
    by (simp_all add: rx_word_def P2ADDR_def src_consts)
  have z: "ld32 0xacfc9040 ?s = 0" and a: "asked port ?s"
    using getcond_asked [OF assms(2), of m] by (simp_all add: asked_def)
  have u: "ucast (ucast w :: u32) = w" by (rule bit_eqI) (simp add: bit_simps)
  have "pad_answers E port w \<longrightarrow> getcond_loop E (Suc k) port m = Ret w ?m2"
    using a m1 by (auto simp: pad_answers_def rx Let_def u)
  moreover have "pad_absent E port \<longrightarrow> getcond_loop E (Suc k) port m = getcond_loop E k port ?m2"
  proof
    assume "pad_absent E port"
    then have "ld32 0xacfc9040 m1 \<in> {0, 0xffffffff}" using a m1(2) z by (metis pad_absent_def)
    then have "ld32 0xacfc9040 m1 AND 0xff \<noteq> 8" by auto
    then show "getcond_loop E (Suc k) port m = getcond_loop E k port ?m2"
      by (simp add: m1(1) rx Let_def)
  qed
  moreover have "engine_silent E \<longrightarrow> starts ?m2 = starts m + 1"
    using ends_starts [OF _ m1(2)] by (simp add: starts_fired)
  ultimately show ?thesis by blast
qed

lemma getcond_talks:
  fixes m
  assumes "maple_ok E" "port = 0 \<or> port = 1"
  defines "n \<equiv> starts m + (if bus_init_done (mapled m) AND 0x10000 \<noteq> 0 then 2 else 0)"
  shows "pad_answers E port w \<Longrightarrow> \<exists>m1. maple_getcond E port m = Ret w m1 \<and> (engine_silent E \<longrightarrow> starts m1 = n + 1)"
    "pad_absent E port \<Longrightarrow> \<exists>m1. maple_getcond E port m = Ret 0xffff m1 \<and> (engine_silent E \<longrightarrow> starts m1 = n + 2)"
proof -
  obtain m0 where m0: "maple_bus_init E m = Ret () m0" "engine_silent E \<longrightarrow> starts m0 = n"
    using bus_init_starts [OF assms(1), of m] unfolding n_def by blast
  have g: "maple_getcond E port m = getcond_loop E (Suc (Suc 0)) port m0"
    by (simp only: maple_getcond_def m0(1) bindo.simps numeral_2_eq_2)
  obtain m1 where m1: "pad_answers E port w \<longrightarrow> getcond_loop E (Suc (Suc 0)) port m0 = Ret w m1"
    "pad_absent E port \<longrightarrow> getcond_loop E (Suc (Suc 0)) port m0 = getcond_loop E (Suc 0) port m1"
    "engine_silent E \<longrightarrow> starts m1 = starts m0 + 1"
    using getcond_attempt [OF assms(1,2)] by blast
  obtain m2 where m2: "pad_absent E port \<longrightarrow> getcond_loop E (Suc 0) port m1 = getcond_loop E 0 port m2"
    "engine_silent E \<longrightarrow> starts m2 = starts m1 + 1"
    using getcond_attempt [OF assms(1,2)] by blast
  show "pad_answers E port w \<Longrightarrow> \<exists>m1. maple_getcond E port m = Ret w m1 \<and> (engine_silent E \<longrightarrow> starts m1 = n + 1)"
    using g m0(2) m1 by auto
  show "pad_absent E port \<Longrightarrow> \<exists>m1. maple_getcond E port m = Ret 0xffff m1 \<and> (engine_silent E \<longrightarrow> starts m1 = n + 2)"
    using g m0(2) m1(2,3) m2 by auto
qed

end
