(* ===== verification/Input_Props.thy ===== *)
theory Input_Props
  imports Reply_Lemmas Pad_Bus Demo
begin

text \<open>
  The properties of the pad side: \<^verbatim>\<open>jvs.c\<close>, \<^verbatim>\<open>maple.c\<close> and the live input of \<^verbatim>\<open>main.c\<close>. The world of the
  witnesses has a bus that answers every transaction at once, with Start held on both pads.
\<close>

definition demo_bus :: "machine \<Rightarrow> machine" where
  "demo_bus m = st32 SB_MDST 0 (st32 (P2ADDR MAPLE_RX + 8) 0xfff7 (st32 (P2ADDR MAPLE_RX) 8 m))"

definition pad_env :: env where
  "pad_env = demo_env\<lparr>maple_hw := demo_bus\<rparr>"

lemma pad_env_simps [simp]: "maple_hw pad_env = demo_bus" "blob_bytes pad_env = (\<lambda>b. replicate 256 0)"
  by (simp_all add: pad_env_def)

lemma demo_bus_idle: "\<not> busy (demo_bus m)"
  by (simp add: busy_def demo_bus_def ld32_st32_same span_def SB_MDST_def)

lemma demo_bus_touches: "touches rx_area m (demo_bus m)"
proof -
  have "touches rx_area m (st32 (P2ADDR MAPLE_RX) 8 m)"
    by (intro fp32.put_block) (auto simp: span_def unat_bus P2ADDR_def src_consts rx_area_def)
  then have "touches rx_area m (st32 (P2ADDR MAPLE_RX + 8) 0xfff7 (st32 (P2ADDR MAPLE_RX) 8 m))"
    by (rule fp32.put_then) (auto simp: span_def unat_bus P2ADDR_def src_consts rx_area_def)
  then show ?thesis
    unfolding demo_bus_def
    by (rule fp32.put_then) (auto simp: span_def unat_bus P2ADDR_def src_consts rx_area_def)
qed

lemma pad_maple_ok: "maple_ok pad_env"
proof -
  have "\<exists>k. \<not> busy ((demo_bus ^^ Suc k) m)" for m
    by (rule exI [of _ 0]) (simp add: demo_bus_idle)
  then show ?thesis
    by (simp add: maple_ok_def demo_bus_touches) (simp add: same_statics_def demo_bus_def)
qed

lemma pad_transport_ok: "transport_ok pad_env"
  using pad_maple_ok by (simp add: transport_ok_def release_def blobs_fit_def) (simp add: pad_env_def)

section \<open>Buttons and frames\<close>

text \<open>
  C24. The button translation is exactly the wiring table: a bit of the JVS word is set if and only if
  the pad bit wired to it is low, and the reset combination is exactly A, B, X, Y and Start low together.
\<close>

theorem buttons_wired:
  "(bit (dc_to_jvs dc) n \<longleftrightarrow> (\<exists>k. (k, n) \<in> set pad_map \<and> \<not> bit dc k)) \<and>
   (dc_reset_combo dc \<longleftrightarrow> \<not> bit dc 1 \<and> \<not> bit dc 2 \<and> \<not> bit dc 3 \<and> \<not> bit dc 9 \<and> \<not> bit dc 10)"
  using bit_dc_to_jvs dc_reset_combo_bits by blast

text \<open>
  C23. The digital-input frame round-trips: 64 bytes, from which a reader of the two big-endian words
  gets both players' button words back, whose checksum byte is the sum of the bytes it covers, and
  which agrees with the idle template everywhere else.
\<close>

theorem jvs_frame_roundtrip:
  "length (jvs_frame raw raw2) = 64 \<and>
   frame_word 0x20 (jvs_frame raw raw2) = dc_to_jvs raw \<and>
   frame_word 0x22 (jvs_frame raw raw2) = dc_to_jvs raw2 \<and>
   jvs_frame raw raw2 ! 0x3a = (\<Sum>i \<in> {0x1b ..< 0x3a}. jvs_frame raw raw2 ! i) \<and>
   (\<forall>i \<in> {0 ..< 64} - {0x20, 0x21, 0x22, 0x23, 0x3a}. jvs_frame raw raw2 ! i = jvs_hasdata ! i)"
  using frame_words frame_template frame_checksum by auto

lemma jvs_frame_roundtrip_witness:
  "frame_word 0x20 (jvs_frame 0xfff7 0xffff) = 0x8000 \<and> jvs_frame 0xfff7 0xffff ! 0 = 0x87"
proof -
  have "frame_word 0x20 (jvs_frame 0xfff7 0xffff) = dc_to_jvs 0xfff7" "jvs_frame 0xfff7 0xffff ! 0 = jvs_hasdata ! 0"
    using jvs_frame_roundtrip [of "0xfff7" "0xffff"] by auto
  moreover have "dc_to_jvs 0xfff7 = 0x8000" by code_simp
  ultimately show ?thesis by (simp add: jvs_hasdata_def)
qed

section \<open>Pad transactions\<close>

text \<open>
  C25. Reading a pad, on a bus that ends its transactions: the engine is always started on the documented request for
  that port, with the header of the receive buffer cleared. A pad that answers is read with the buttons it
  answered, after one transaction; one that does not is read as idle, never with what the buffer held
  before, after two. The first read of all is preceded by one probe of each port.
\<close>

theorem getcond_reads:
  assumes "maple_ok E" "port = 0 \<or> port = 1"
  shows "asked port (fired (getcond_frame port m)) \<and>
    (pad_answers E port w \<longrightarrow> (\<exists>m1. maple_getcond E port m = Ret w m1 \<and> (engine_silent E \<longrightarrow>
      starts m1 = starts m + (if bus_init_done (mapled m) AND 0x10000 \<noteq> 0 then 2 else 0) + 1))) \<and>
    (pad_absent E port \<longrightarrow> (\<exists>m1. maple_getcond E port m = Ret 0xffff m1 \<and> (engine_silent E \<longrightarrow>
      starts m1 = starts m + (if bus_init_done (mapled m) AND 0x10000 \<noteq> 0 then 2 else 0) + 2)))"
  using getcond_asked [OF assms(2)] getcond_talks [OF assms] by simp

lemma demo_bus_answers: "pad_answers pad_env port 0xfff7" "engine_silent pad_env"
proof -
  have "ld32 0xacfc9040 (demo_bus m) = 8" "ld32 0xacfc9048 (demo_bus m) = 0xfff7" for m
    by (simp_all add: demo_bus_def src_consts P2ADDR_def ld32_st32_same ld32_st32_other cells_apart_def span_def unat_bus)
  then show "pad_answers pad_env port 0xfff7"
    by (auto simp: pad_answers_def ends_in_def)
  show "engine_silent pad_env" by (simp add: engine_silent_def demo_bus_def)
qed

lemma getcond_reads_witness: "\<exists>m1. maple_getcond pad_env 1 demo_zero = Ret 0xfff7 m1 \<and> starts m1 = 3"
proof -
  have "starts demo_zero = 0" "bus_init_done (mapled demo_zero) = 0x10000"
    by (simp_all add: starts_def demo_zero_def maple_init_def)
  then show ?thesis
    using getcond_reads [OF pad_maple_ok, of 1 demo_zero "0xfff7"] demo_bus_answers by auto
qed

text \<open>
  On a bus that ends its transactions, reading a pad always ends, whatever the pad answers, and
  touches only the bus registers and the transaction buffers.
\<close>

theorem getcond_returns:
  assumes "maple_ok E"
  shows "\<exists>v m1. maple_getcond E port m = Ret v m1 \<and> touches maple_area m m1 \<and> same_statics m m1"
  using maple_getcond_ok [OF assms, of port m] by (auto simp: maple_step_def)

lemma getcond_returns_witness: "\<exists>v m1. maple_getcond pad_env 1 demo_zero = Ret v m1"
  using getcond_returns [OF pad_maple_ok, of 1 demo_zero] by blast

section \<open>The pad cache\<close>

text \<open>
  C18. A poll inside the 8 ms window answers from the cache without touching the bus; one after it reads
  port A, then port B, and answers with what they reported, unless either pad holds the reset
  combination: exactly then the console reboots.
\<close>

theorem pad_poll:
  assumes "transport_ok E" "rcv_ok rcv"
  shows "(\<not> poll_due E m \<longrightarrow> (\<exists>m1. jvs_digital E sub (P2ADDR rcv) m = Ret () m1 \<and> io m1 = io m \<and>
      load_bytes (P2ADDR rcv) 64 m1 = jvs_frame (ucast (raw_cache_a (maind m))) (ucast (raw_cache_b (maind m))))) \<and>
    (poll_due E m \<longrightarrow> (\<exists>a b m2 m3. maple_getcond E 0 (poll_tick E m) = Ret a m2 \<and>
      maple_getcond E 1 (m2\<lparr>maind := (maind m2)\<lparr>raw_cache_a := ucast a\<rparr>\<rparr>) = Ret b m3 \<and>
      (if dc_reset_combo a \<or> dc_reset_combo b then \<exists>m4. jvs_digital E sub (P2ADDR rcv) m = Reboot m4
       else \<exists>m4. jvs_digital E sub (P2ADDR rcv) m = Ret () m4 \<and> load_bytes (P2ADDR rcv) 64 m4 = jvs_frame a b \<and>
         raw_cache_a (maind m4) = ucast a \<and> raw_cache_b (maind m4) = ucast b)))"
  using poll_cached [OF transport_okD(2) assms(2)] poll_live [OF transport_okD(1,2) assms(2)] assms(1) by blast

lemma pad_poll_witness:
  "\<exists>m1. jvs_digital pad_env 0x33 (P2ADDR 0x0c0fd8e0) (demo_zero\<lparr>maind := main_init\<lparr>in_tcnt := 0\<rparr>\<rparr>) = Ret () m1 \<and>
     load_bytes (P2ADDR 0x0c0fd8e0) 64 m1 = jvs_frame 0xffff 0xffff"
proof -
  let ?m = "demo_zero\<lparr>maind := main_init\<lparr>in_tcnt := 0\<rparr>\<rparr>"
  have "ld32 TCNT0 ?m = 0" "ld16 TCR0 ?m = 0"
    by (simp_all add: ld32_def ld16_def ld8_def demo_zero_def TCNT0_def)
  then have "\<not> poll_due pad_env ?m"
    by (simp add: poll_due_def poll_start_def pad_thresh_init_def HUD_ONCE_def pad_env_def shim_mark_def
        main_init_def tpsc_shifts_def ld32_other_field)
  moreover have "rcv_ok 0x0c0fd8e0" by (simp add: rcv_ok_def)
  ultimately show ?thesis
    using pad_poll [OF pad_transport_ok, of "0x0c0fd8e0" ?m "0x33"] by (auto simp: main_init_def)
qed

text \<open>
  The window is computed once: it is 8 ms of the 50 MHz clock divided by what \<^verbatim>\<open>TCR0\<close> selects, rounded
  down, and never again the value that asks for it to be computed.
\<close>

theorem pad_window:
  "pad_thresh_init (pad_thresh_init m) = pad_thresh_init m \<and> pad_thresh (maind (pad_thresh_init m)) \<noteq> 1 \<and>
   (pad_thresh (maind m) = 1 \<longrightarrow> unat (pad_thresh (maind (pad_thresh_init m))) =
     50000000 div 2 ^ (tpsc_shifts ! unat (ld16 TCR0 m AND 7)) div 125)"
  using pad_thresh_once [of m] pad_thresh_value [of m] by blast

lemma pad_window_witness: "pad_thresh (maind (pad_thresh_init demo_zero)) = 100000"
proof -
  have "ld16 TCR0 demo_zero = 0" by (simp add: ld16_def ld8_def demo_zero_def)
  moreover have "pad_thresh (maind demo_zero) = 1" by (simp add: demo_zero_def main_init_def)
  ultimately have "unat (pad_thresh (maind (pad_thresh_init demo_zero))) = 100000"
    using pad_window [of demo_zero] by (simp add: tpsc_shifts_def)
  then show ?thesis by (simp add: word_unat_eq_iff)
qed

section \<open>Replies\<close>

text \<open>
  C20. The service dies exactly on the subcommands it does not know; for the ones it knows it returns,
  or reboots at the pads' request, and never hangs. What it writes stays within the 4 KB behind the receive
  address of the request, the buffers and registers of the pad transaction, and the port of the cable sense.
\<close>

theorem reply_known:
  assumes "transport_ok E" "rcv_ok rcv"
  shows "((\<exists>c a b m1. maple_reply E sub rcv frame m = Die c a b m1) \<longleftrightarrow> sub \<notin> known_subs) \<and>
    ends_at (reply_at rcv) m (maple_reply E sub rcv frame m)"
  using maple_reply_dies maple_reply_ends [OF assms covers_at] by blast

lemma reply_known_witness: "\<exists>c a b m1. maple_reply pad_env 0x34 0x0c0fd8e0 0 demo_zero = Die c a b m1"
  using reply_known [OF pad_transport_ok, of "0x0c0fd8e0" "0x34" 0 demo_zero]
  by (auto simp: rcv_ok_def known_subs_def)

text \<open>
  C19. Replayed replies: a subcommand with a captured reply puts exactly the blob at the receive address.
  After a transmit, also in a separate frame, the receive puts the reply that the enumeration has for the JVS
  command transmitted; after any other command, or a transmit-with-repeat, it puts the live pads.
\<close>

theorem reply_replays:
  assumes "transport_ok E" "rcv_ok rcv"
  shows "(replay sub = Some b \<longrightarrow> (\<exists>m1. maple_reply E sub rcv frame m = Ret () m1 \<and>
      load_bytes (P2ADDR rcv) (length (blob_bytes E b)) m1 = blob_bytes E b)) \<and>
    (sub \<in> {0x17, 0x19, 0x21} \<longrightarrow> (cmd, c) \<in> set enum_table \<longrightarrow>
      (\<exists>m1 m2. maple_reply E sub rcv frame (latch_jvs sub cmd m) = Ret () m1 \<and>
        maple_reply E 0x15 rcv frame m1 = Ret () m2 \<and>
        load_bytes (P2ADDR rcv) (length (blob_bytes E c)) m2 = blob_bytes E c)) \<and>
    (sub \<in> {0x17, 0x19, 0x21} \<and> cmd \<notin> fst ` set enum_table \<or> sub = 0x27 \<longrightarrow>
      (\<exists>m1. maple_reply E sub rcv frame (latch_jvs sub cmd m) = Ret () m1 \<and>
        ((\<exists>m2. maple_reply E 0x15 rcv frame m1 = Ret () m2 \<and> load_bytes (P2ADDR rcv) 64 m2 =
            jvs_frame (ucast (raw_cache_a (maind m2))) (ucast (raw_cache_b (maind m2)))) \<or>
          (\<exists>m2. maple_reply E 0x15 rcv frame m1 = Reboot m2))))"
proof -
  note ok = transport_okD [OF assms(1)]
  have put: "\<exists>m1. maple_reply E sub rcv frame m = Ret () m1 \<and> pending_jvs (maind m1) = pending_jvs (maind m) \<and>
      load_bytes (P2ADDR rcv) (length (blob_bytes E b)) m1 = blob_bytes E b" if "replay sub = Some b" for sub b m
    using maple_reply_replay [OF ok(2) that] load_reply [OF assms(2) ok(3)] reply_start_facts(2) [OF ok(2), of m] by auto
  have sent: "\<exists>m1. maple_reply E sub rcv frame (latch_jvs sub cmd m) = Ret () m1 \<and>
      pending_jvs (maind m1) = (if sub = 0x27 then 0xff else cmd)" if s: "sub \<in> {0x17, 0x19, 0x21, 0x27}"
  proof -
    have "replay sub = Some MIE_SUB17 \<or> replay sub = Some MIE_SUB27" using s by (auto simp: replay_def)
    moreover have "pending_jvs (maind (latch_jvs sub cmd m)) = (if sub = 0x27 then 0xff else cmd)"
      using s by (auto simp: latch_jvs_def upd_main_def)
    ultimately show ?thesis using put [of sub _ "latch_jvs sub cmd m"] by auto
  qed
  show ?thesis
  proof (intro conjI impI)
    assume "replay sub = Some b"
    then show "\<exists>m1. maple_reply E sub rcv frame m = Ret () m1 \<and>
        load_bytes (P2ADDR rcv) (length (blob_bytes E b)) m1 = blob_bytes E b"
      using put by blast
  next
    assume s: "sub \<in> {0x17, 0x19, 0x21}" and e: "(cmd, c) \<in> set enum_table"
    then obtain m1 where m1: "maple_reply E sub rcv frame (latch_jvs sub cmd m) = Ret () m1" "pending_jvs (maind m1) = cmd"
      using sent by auto
    from maple_reply_enum [OF ok(2), of m1 c rcv frame] enum_blob_table(1) [OF e] m1 show
      "\<exists>m1 m2. maple_reply E sub rcv frame (latch_jvs sub cmd m) = Ret () m1 \<and>
        maple_reply E 0x15 rcv frame m1 = Ret () m2 \<and>
        load_bytes (P2ADDR rcv) (length (blob_bytes E c)) m2 = blob_bytes E c"
      using load_reply [OF assms(2) ok(3)] by auto
  next
    assume s: "sub \<in> {0x17, 0x19, 0x21} \<and> cmd \<notin> fst ` set enum_table \<or> sub = 0x27"
    then obtain m1 where m1: "maple_reply E sub rcv frame (latch_jvs sub cmd m) = Ret () m1"
        "pending_jvs (maind m1) = (if sub = 0x27 then 0xff else cmd)"
      using sent by auto
    have "(if sub = 0x27 then 0xff else cmd) \<notin> fst ` set enum_table"
      using s by (auto simp: enum_table_def)
    then have "enum_blob (pending_jvs (maind m1)) = None" using m1(2) enum_blob_table(2) by simp
    with m1(1) jvs_digital_frame [OF ok(1,2) assms(2), where sub = "0x15" and m = "reply_start E m1"] show
      "\<exists>m1. maple_reply E sub rcv frame (latch_jvs sub cmd m) = Ret () m1 \<and>
        ((\<exists>m2. maple_reply E 0x15 rcv frame m1 = Ret () m2 \<and> load_bytes (P2ADDR rcv) 64 m2 =
            jvs_frame (ucast (raw_cache_a (maind m2))) (ucast (raw_cache_b (maind m2)))) \<or>
          (\<exists>m2. maple_reply E 0x15 rcv frame m1 = Reboot m2))"
      by (auto simp: maple_reply_live [OF ok(2)])
  qed
qed

text \<open>A world whose captured replies can be told apart: each is filled with its own number.\<close>

definition tag_env :: env where
  "tag_env = pad_env\<lparr>blob_bytes := (\<lambda>b. replicate 256 (case b of MIE_JVSF1 \<Rightarrow> 0xf1 | MIE_JVS10 \<Rightarrow> 0x10
     | MIE_JVS11 \<Rightarrow> 0x11 | MIE_JVS12 \<Rightarrow> 0x12 | MIE_JVS13 \<Rightarrow> 0x13 | MIE_JVS14 \<Rightarrow> 0x14 | _ \<Rightarrow> 0))\<rparr>"

lemma tag_transport_ok: "transport_ok tag_env"
  using pad_transport_ok by (simp add: transport_ok_def maple_ok_def release_def blobs_fit_def tag_env_def)

lemma reply_replays_witness:
  "\<exists>m1 m2. maple_reply tag_env 0x17 0x0c0fd8e0 0 (latch_jvs 0x17 0x11 demo_zero) = Ret () m1 \<and>
     maple_reply tag_env 0x15 0x0c0fd8e0 0 m1 = Ret () m2 \<and> load_bytes (P2ADDR 0x0c0fd8e0) 256 m2 = replicate 256 0x11"
proof -
  have "rcv_ok 0x0c0fd8e0" "(0x11, MIE_JVS11) \<in> set enum_table" by (simp_all add: rcv_ok_def enum_table_def)
  moreover have "blob_bytes tag_env MIE_JVS11 = replicate 256 0x11" by (simp add: tag_env_def)
  ultimately show ?thesis
    using reply_replays [OF tag_transport_ok, of "0x0c0fd8e0" "0x17" _ 0 demo_zero "0x11" MIE_JVS11] by auto
qed

end
