(* ===== verification/Hook_Lemmas.thy ===== *)
theory Hook_Lemmas
  imports Reply_Lemmas Cart_Lemmas
begin

text \<open>
  The bring-up ladder of the Maple devices, the other builders, the configuration-time hooks, the video
  cable, the fatal screen and the serial port.
\<close>

section \<open>The bring-up ladder\<close>

lemma rcv_cell:
  assumes "rcv_ok rcv" "off + 4 \<le> 0x1000"
  shows "span (P2ADDR rcv + word_of_nat off) 4" "unat (bus (P2ADDR rcv + word_of_nat off)) = unat rcv + off"
  using rcv_P2 [OF assms] by simp_all

lemma ld32_after_bytes:
  assumes "span b 4" "span a (length bs)" "unat (bus b) + 4 \<le> unat (bus a)"
  shows "ld32 b (store_bytes a bs m) = ld32 b m"
proof -
  have "ld8 (b + word_of_nat i) (store_bytes a bs m) = ld8 (b + word_of_nat i) m" if "i < 4" for i
    using assms span_bus [OF assms(1) that] that
    by (intro mem.stores_other) (auto simp: mem.apart_def)
  from this [of 0] this [of 1] this [of 2] this [of 3] show ?thesis by (simp add: ld32_def)
qed

text \<open>The answer code of each request of the ladder, and the word count in the answer's header.\<close>

definition probe_code :: "u32 \<Rightarrow> u32 \<Rightarrow> machine \<Rightarrow> u32" where
  "probe_code cmd frame m =
     (if cmd = 0x01 then 0x05 else if cmd = 0x02 then 0x06 else if cmd = 0x82 then 0x83
      else if cmd = 0x80 \<and> UB (frame + 0x0d) m \<noteq> 0xff then 0x80 else 0x07)"

definition probe_count :: "u32 \<Rightarrow> u32 \<Rightarrow> machine \<Rightarrow> u32" where
  "probe_count cmd frame m =
     (if cmd = 0x82 then 7 else if cmd = 0x80 \<and> UB (frame + 0x0d) m \<noteq> 0xff then 1 else 0)"

lemma probe_reply_word:
  assumes "rcv_ok rcv"
  shows "ld32 (P2ADDR rcv) (mie_probe_reply E cmd fh rcv frame m)
    = probe_hdr fh OR probe_code cmd frame m OR push_bit 24 (probe_count cmd frame m)"
proof -
  let ?rx = "P2ADDR rcv"
  have c: "span ?rx 4" "unat (bus ?rx) = unat rcv" using rcv_cell [OF assms, of 0] by simp_all
  have k: "cells_apart ?rx 4 (?rx + word_of_nat k) 4" if "4 \<le> k" "k \<le> 0x100" for k
    using rcv_cell [OF assms, of k] c that by (simp add: cells_apart_def)
  have b: "ld32 ?rx (store_bytes (?rx + word_of_nat k) bs m') = ld32 ?rx m'"
    if "4 \<le> k" "k \<le> 0x100" "0 < length bs" "length bs \<le> 0x100" for k bs m'
    using rcv_P2 [OF assms, of k "length bs"] c that by (intro ld32_after_bytes) simp_all
  have l: "length mie_id48 = 48" "mie_id48 \<noteq> []" by (simp_all add: mie_id48_def)
  show ?thesis
    using k [of 4] k [of 8] k [of 32] b [of 4] b [of 36]
    by (simp add: mie_probe_reply_def Let_def probe_code_def probe_count_def ld32_st32_same c
        ld32_st32_other l or.assoc)
qed

lemma probe_hdr_bytes:
  assumes "c < 256"
  shows "ucast (drop_bit 8 (probe_hdr fh OR c OR push_bit 24 n)) = (ucast (drop_bit 16 fh) :: u8)"
    "ucast (drop_bit 16 (probe_hdr fh OR c OR push_bit 24 n)) = (ucast (drop_bit 8 fh) :: u8)"
    "ucast (probe_hdr fh OR c OR push_bit 24 n) = (ucast c :: u8)"
    "ucast (drop_bit 24 (probe_hdr fh OR c OR push_bit 24 n)) = (ucast n :: u8)"
proof -
  have cb: "\<not> bit c k" if "8 \<le> k" for k
  proof -
    have "c = take_bit 8 c"
      using assms by (simp add: word_unat_eq_iff unsigned_take_bit_eq take_bit_nat_eq_self word_less_nat_alt)
    then show ?thesis using that by (metis bit_take_bit_iff not_le)
  qed
  have m: "(0xff :: u32) = mask 8" by (simp add: mask_numeral)
  have s: "bit (probe_hdr fh) k \<longleftrightarrow> 8 \<le> k \<and> k < 16 \<and> bit fh (k + 8) \<or> 16 \<le> k \<and> k < 24 \<and> bit fh (k - 8)" for k
    unfolding probe_hdr_def m by (auto simp: bit_simps add.commute)
  show "ucast (drop_bit 8 (probe_hdr fh OR c OR push_bit 24 n)) = (ucast (drop_bit 16 fh) :: u8)"
    by (rule bit_eqI) (auto simp: bit_simps s cb)
  show "ucast (drop_bit 16 (probe_hdr fh OR c OR push_bit 24 n)) = (ucast (drop_bit 8 fh) :: u8)"
    by (rule bit_eqI) (auto simp: bit_simps s cb)
  show "ucast (probe_hdr fh OR c OR push_bit 24 n) = (ucast c :: u8)"
    by (rule bit_eqI) (auto simp: bit_simps s)
  show "ucast (drop_bit 24 (probe_hdr fh OR c OR push_bit 24 n)) = (ucast n :: u8)"
    by (rule bit_eqI) (auto simp: bit_simps s cb)
qed

lemma probe_bytes:
  assumes "rcv_ok rcv"
  shows "ld8 (P2ADDR rcv) (mie_probe_reply E cmd fh rcv frame m) = ucast (probe_code cmd frame m)"
    "ld8 (P2ADDR rcv + 1) (mie_probe_reply E cmd fh rcv frame m) = ucast (drop_bit 16 fh)"
    "ld8 (P2ADDR rcv + 2) (mie_probe_reply E cmd fh rcv frame m) = ucast (drop_bit 8 fh)"
    "ld8 (P2ADDR rcv + 3) (mie_probe_reply E cmd fh rcv frame m) = ucast (probe_count cmd frame m)"
proof -
  let ?m = "mie_probe_reply E cmd fh rcv frame m"
  have c: "probe_code cmd frame m < 256" by (simp add: probe_code_def)
  note w = probe_reply_word [OF assms, of E cmd fh frame m]
  show "ld8 (P2ADDR rcv) ?m = ucast (probe_code cmd frame m)"
    "ld8 (P2ADDR rcv + 1) ?m = ucast (drop_bit 16 fh)" "ld8 (P2ADDR rcv + 2) ?m = ucast (drop_bit 8 fh)"
    "ld8 (P2ADDR rcv + 3) ?m = ucast (probe_count cmd frame m)"
    using ld32_bytes [of "P2ADDR rcv" ?m] by (simp_all only: w probe_hdr_bytes [OF c])
qed

text \<open>The two parts of the identification text.\<close>

lemma probe_id_text:
  assumes "rcv_ok rcv"
  shows "load_bytes (P2ADDR rcv + 4) 28 (mie_probe_reply E 0x82 fh rcv frame m)
      @ load_bytes (P2ADDR rcv + 36) 20 (mie_probe_reply E 0x82 fh rcv frame m) = map of_char mie_id48"
proof -
  let ?rx = "P2ADDR rcv" and ?a = "map of_char (take 28 mie_id48) :: u8 list"
    and ?b = "map of_char (take 20 (drop 28 mie_id48)) :: u8 list"
  have la: "length ?a = 28" and lb: "length ?b = 20" by (simp_all add: mie_id48_def)
  let ?m1 = "store_bytes (?rx + 4) ?a (st32 ?rx (probe_hdr fh OR 0x83 OR push_bit 24 7) m)"
  let ?m2 = "st32 (?rx + 32) (probe_hdr fh OR 0x83 OR push_bit 24 5) ?m1"
  have p: "mie_probe_reply E 0x82 fh rcv frame m = store_bytes (?rx + 36) ?b ?m2"
    by (simp add: mie_probe_reply_def Let_def)
  note s = rcv_P2 [OF assms, of 4 28] rcv_P2 [OF assms, of 36 20] rcv_P2 [OF assms, of 32 4]
  have "load_bytes (?rx + 4) 28 (store_bytes (?rx + 36) ?b ?m2) = load_bytes (?rx + 4) 28 ?m2"
    using s lb by (intro store_bytes_load_other) (simp_all add: blocks_disjoint_def)
  also have "\<dots> = load_bytes (?rx + 4) 28 ?m1"
    unfolding st32_bytes using s by (intro store_bytes_load_other) (simp_all add: blocks_disjoint_def)
  also have "\<dots> = ?a"
    using store_bytes_load_same [of "?rx + 4" ?a] s la by simp
  finally have 1: "load_bytes (?rx + 4) 28 (store_bytes (?rx + 36) ?b ?m2) = ?a" .
  have 2: "load_bytes (?rx + 36) 20 (store_bytes (?rx + 36) ?b ?m2) = ?b"
    using store_bytes_load_same [of "?rx + 36" ?b ?m2] s lb by simp
  have "?a @ ?b = map of_char mie_id48" by (simp add: mie_id48_def)
  then show ?thesis by (simp only: p 1 2)
qed

section \<open>The other builders\<close>

lemma reg_w_same: "span a 4 \<Longrightarrow> ld32 a (reg_w a v m) = v"
  by (simp add: reg_w_def ld32_st32_same)

lemma boot_completes: "shim_maple_boot E arg0 m = Ret u m1 \<Longrightarrow> ld32 SB_MDST m1 = 0"
  by (auto simp: shim_maple_boot_def Let_def bindo_eq_Ret reg_w_same span_def SB_MDST_def)

lemma ucast_u8: "unat (ucast (x :: u8) :: u32) = unat x"
proof -
  have "unat x < 256" using unsigned_less [of x] by simp
  then show ?thesis by (simp add: unsigned_ucast_eq take_bit_nat_eq_self)
qed

text \<open>The boot builder replays what the captured board answered, and notes the command it was sent.\<close>

lemma boot_serves:
  assumes "transport_ok E" "rcv_ok (GW (GW 0x8c0e6400 m + 0x04) m)" "replay (ucast (GB (GW 0x8c0e6400 m + 0x0c) m)) = Some b"
  shows "\<exists>m1. shim_maple_boot E arg0 m = Ret () m1 \<and> ld32 SB_MDST m1 = 0 \<and>
    load_bytes (P2ADDR (GW (GW 0x8c0e6400 m + 0x04) m)) (length (blob_bytes E b)) m1 = blob_bytes E b \<and>
    pending_jvs (maind m1) = (let sub = GB (GW 0x8c0e6400 m + 0x0c) m in
      if sub \<in> {0x17, 0x19, 0x21} then GB (arg0 + 4) m else if sub = 0x27 then 0xff else pending_jvs (maind m))"
proof -
  let ?rcv = "GW (GW 0x8c0e6400 m + 0x04) m" and ?sub = "GB (GW 0x8c0e6400 m + 0x0c) m"
  let ?l = "latch_jvs (ucast ?sub) (GB (arg0 + 4) m) m"
  let ?r = "store_bytes (P2ADDR ?rcv) (blob_bytes E b) (reply_start E ?l)"
  note ok = transport_okD [OF assms(1)]
  have m1: "shim_maple_boot E arg0 m = Ret () (reg_w SB_MDST 0 ?r)"
    using maple_reply_replay [OF ok(2) assms(3)] by (simp add: shim_maple_boot_def Let_def)
  have u: "(ucast ?sub = (0x17 :: u32)) = (?sub = 0x17)" "(ucast ?sub = (0x19 :: u32)) = (?sub = 0x19)"
    "(ucast ?sub = (0x21 :: u32)) = (?sub = 0x21)" "(ucast ?sub = (0x27 :: u32)) = (?sub = 0x27)"
    using ucast_u8 [of ?sub] by (simp_all add: word_unat_eq_iff)
  have "pending_jvs (maind (reg_w SB_MDST 0 ?r)) = pending_jvs (maind ?l)"
    using reply_start_facts(2) [OF ok(2), of ?l] by simp
  moreover have "load_bytes (P2ADDR ?rcv) (length (blob_bytes E b)) (reg_w SB_MDST 0 ?r) =
      load_bytes (P2ADDR ?rcv) (length (blob_bytes E b)) ?r"
  proof (rule touches_load_bytes [OF fpr.put_block])
    show "span SB_MDST 4" by (simp add: SB_MDST_def span_def)
    show "in_block SB_MDST 4 q" if "unat (bus SB_MDST) \<le> unat q" "unat q < unat (bus SB_MDST) + 4" for q
      using that by (simp add: in_block_def)
    show "\<not> in_block SB_MDST 4 (bus (P2ADDR ?rcv + word_of_nat i))" if "i < length (blob_bytes E b)" for i
      using rcv_P2(2) [OF assms(2), of i 1] that ok(3) [of b] assms(2)
      by (simp add: in_block_def SB_MDST_def unat_bus [of "0xa05f6c18"] rcv_ok_def)
  qed
  ultimately show ?thesis
    using load_reply [OF assms(2) ok(3)] unfolding m1
    by (auto simp: reg_w_same span_def SB_MDST_def latch_jvs_def upd_main_def u Let_def)
qed

text \<open>
  The per-frame builder: where the reply goes and which words of the game it changes. The words do not
  overlap, and the receive buffer is apart from them.
\<close>

definition entry_desc :: "machine \<Rightarrow> u32" where
  "entry_desc m = GW (GW 0x8c0e8410 m + 0x10f4) m"

definition entry_index :: "machine \<Rightarrow> u32" where
  "entry_index m = GW 0x8c0e8410 m + 0x10b8"

definition entry_recv :: "machine \<Rightarrow> u32" where
  "entry_recv m = (if bit (GW (entry_index m) m) 0 then GW (GW 0x8c0e8410 m + 0x10ac) m
     else GW (GW 0x8c0e8410 m + 0x10a8) m) AND 0x0fffffff"

definition GA :: "u32 \<Rightarrow> u32" where "GA a = a OR 0x80000000"

definition entry_words :: "machine \<Rightarrow> u32 list" where
  "entry_words m = map GA [entry_desc m + 0x04, entry_index m, entry_desc m + 0x18]"

definition entry_apart :: "machine \<Rightarrow> bool" where
  "entry_apart m \<longleftrightarrow> rcv_ok (entry_recv m) \<and> sorted_wrt (\<lambda>a b. cells_apart a 4 b 4) (entry_words m) \<and>
     (\<forall>a \<in> set (entry_words m). \<forall>i < 4. \<not> reply_at (entry_recv m) (bus (a + word_of_nat i)))"

lemma entry_recv_code:
  "GW (GW 0x8c0e8410 m + 0x10a8 + (GW (GW 0x8c0e8410 m + 0x10b8) m AND 1) * 4) m AND 0x0fffffff = entry_recv m"
proof -
  have odd: "w AND 1 = (if bit w 0 then 1 else 0)" for w :: u32
    by (rule bit_eqI) (auto simp: bit_simps intro!: gr0I)
  show ?thesis unfolding entry_recv_def odd by (simp add: entry_index_def add.commute)
qed

lemma cells_apart_sym: "cells_apart a n b k \<Longrightarrow> cells_apart b k a n"
  by (auto simp: cells_apart_def)

lemma entry_serves:
  assumes "transport_ok E" "GW (GW 0x8c0e8410 m + 0x0fc0) m = 1" "entry_apart m"
  shows "(\<exists>m2. shim_maple_entry E m = Ret 0 m2 \<and> GW (entry_desc m + 0x04) m2 = entry_recv m \<and>
      GW (entry_index m) m2 = GW (entry_index m) m XOR 1 \<and>
      GW (entry_desc m + 0x18) m2 = GW (entry_desc m + 0x18) m AND NOT 1 \<and>
      load_bytes (P2ADDR (entry_recv m)) 64 m2 =
        jvs_frame (ucast (raw_cache_a (maind m2))) (ucast (raw_cache_b (maind m2))) \<and>
      touches (\<lambda>q. reply_at (entry_recv m) q \<or> (\<exists>a \<in> set (entry_words m). in_block a 4 q)) m m2) \<or>
    (\<exists>m2. shim_maple_entry E m = Reboot m2)"
proof -
  note ok = transport_okD [OF assms(1)]
  let ?rcv = "entry_recv m" and ?A = "GA (entry_desc m + 0x04)" and ?B = "GA (entry_index m)" and ?C = "GA (entry_desc m + 0x18)"
  have r: "rcv_ok ?rcv" and ap: "cells_apart ?A 4 ?B 4" "cells_apart ?A 4 ?C 4" "cells_apart ?B 4 ?C 4"
    and out: "\<And>a i. a \<in> {?A, ?B, ?C} \<Longrightarrow> i < 4 \<Longrightarrow> \<not> reply_at ?rcv (bus (a + word_of_nat i))"
    using assms(3) unfolding entry_apart_def entry_words_def by auto
  have sp: "span ?A 4" "span ?B 4" "span ?C 4" using ap by (simp_all add: cells_apart_def)
  note other = ld32_st32_other [OF ap(1)] ld32_st32_other [OF ap(2)] ld32_st32_other [OF ap(3)]
    ld32_st32_other [OF cells_apart_sym [OF ap(1)]] ld32_st32_other [OF cells_apart_sym [OF ap(2)]]
    ld32_st32_other [OF cells_apart_sym [OF ap(3)]]
  let ?x = "GW (entry_index m) m"
  let ?m1 = "st32 ?B (?x XOR 1) (st32 ?A ?rcv m)"
  have e: "shim_maple_entry E m = bindo (maple_reply E 0x33 ?rcv 0 ?m1) (\<lambda>u m2. Ret 0 (st32 ?C (ld32 ?C m2 AND NOT 1) m2))"
    using assms(2) entry_recv_code [of m]
    by (simp add: shim_maple_entry_def Let_def GW_set_def GA_def entry_desc_def entry_index_def GW_def)
  let ?F = "\<lambda>q. reply_at ?rcv q \<or> (\<exists>a \<in> set (entry_words m). in_block a 4 q)"
  have st: "touches ?F x (st32 a v x)" if "a \<in> {?A, ?B, ?C}" for a v x
    using that sp by (intro fp32.put_block) (auto simp: entry_words_def in_block_def)
  have t1: "touches ?F m ?m1" by (rule touches_trans [OF st st]) simp_all
  show ?thesis
  proof (cases "maple_reply E 0x33 ?rcv 0 ?m1")
    case (Ret u m2)
    then have live: "load_bytes (P2ADDR ?rcv) 64 m2 = jvs_frame (ucast (raw_cache_a (maind m2))) (ucast (raw_cache_b (maind m2)))"
      using jvs_digital_frame [OF ok(1,2) r, where sub = "0x33" and m = "reply_start E ?m1"]
      by (auto simp: maple_reply_live(2) [OF ok(2)])
    have t2: "touches (reply_at ?rcv) ?m1 m2"
      using maple_reply_ends [OF assms(1) r covers_at, where m = ?m1 and sub = "0x33" and frame = 0] Ret by (simp add: serves_at_def)
    have k: "ld32 a m2 = ld32 a ?m1" if "a \<in> {?A, ?B, ?C}" for a
      by (rule touches_ld32 [OF t2]) (rule out [OF that])
    let ?m3 = "st32 ?C (ld32 ?C m2 AND NOT 1) m2"
    have w: "ld32 ?A ?m3 = ?rcv" "ld32 ?B ?m3 = ?x XOR 1" "ld32 ?C ?m3 = ld32 ?C m AND NOT 1"
      using k sp by (simp_all add: other ld32_st32_same)
    have "load_bytes (P2ADDR ?rcv) 64 ?m3 = load_bytes (P2ADDR ?rcv) 64 m2"
    proof (rule touches_load_bytes [OF fp32.put_block [OF sp(3)]])
      show "in_block ?C 4 q" if "unat (bus ?C) \<le> unat q" "unat q < unat (bus ?C) + 4" for q
        using that by (simp add: in_block_def)
      fix i :: nat
      assume i: "i < 64"
      show "\<not> in_block ?C 4 (bus (P2ADDR ?rcv + word_of_nat i))"
      proof
        assume b: "in_block ?C 4 (bus (P2ADDR ?rcv + word_of_nat i))"
        let ?k = "unat (bus (P2ADDR ?rcv + word_of_nat i)) - unat (bus ?C)"
        have "unat (bus (?C + word_of_nat ?k)) = unat (bus (P2ADDR ?rcv + word_of_nat i))" "?k < 4"
          using b span_bus [OF sp(3), of ?k] by (auto simp: in_block_def)
        then have "bus (?C + word_of_nat ?k) = bus (P2ADDR ?rcv + word_of_nat i)" by (simp add: word_unat_eq_iff)
        moreover have "reply_at ?rcv (bus (P2ADDR ?rcv + word_of_nat i))"
          using rcv_P2(2) [OF r, of i 1] i by (simp add: reply_at_def)
        ultimately show False using out [of ?C ?k] \<open>?k < 4\<close> by simp
      qed
    qed
    moreover have "touches ?F m ?m3"
      by (rule touches_trans [OF touches_trans [OF t1 touches_mono [OF t2]] st]) auto
    ultimately show ?thesis
      using w live Ret by (simp add: e GW_def GA_def)
  next
    case (Die c a b m2)
    then show ?thesis using maple_reply_dies [of E "0x33" ?rcv 0 ?m1] by (auto simp: known_subs_def)
  next
    case Hang
    then show ?thesis using maple_reply_ends [OF assms(1) r covers_at, where m = ?m1 and sub = "0x33" and frame = 0] by simp
  qed (simp add: e)
qed

section \<open>The configuration-time hooks\<close>

lemma cfg_enum:
  assumes "release E"
  shows "fst (shim_cfg_tx E node arg1 len payload m) = 0"
    "fst (shim_cfg_rx E (snd (shim_cfg_tx E node arg1 len payload m)))
      = drop 0x15 (blob_bytes E (fst (cfg_select (GB payload m))))"
    "touches F m (snd (shim_cfg_rx E (snd (shim_cfg_tx E node arg1 len payload m))))"
proof -
  let ?tx = "snd (shim_cfg_tx E node arg1 len payload m)"
  have g: "GB payload (HUD_ONCE E b s c m) = GB payload m" for b s c
    using assms by (simp add: HUD_ONCE_def GB_def)
  have p: "pending_cfg (maind (HUD_ONCE E b s c ?tx)) = GB payload m" for b s c
    using assms by (simp add: shim_cfg_tx_def upd_main_def Let_def HUD_ONCE_def g [unfolded HUD_ONCE_def])
  show "fst (shim_cfg_tx E node arg1 len payload m) = 0"
    by (simp add: shim_cfg_tx_def Let_def)
  show "fst (shim_cfg_rx E ?tx) = drop 0x15 (blob_bytes E (fst (cfg_select (GB payload m))))"
    by (simp add: shim_cfg_rx_def Let_def p split_beta)
  have h: "touches F a (HUD_ONCE E b s c a') = touches F a a'" for a a' b s c
    using assms by (simp add: HUD_ONCE_def)
  have u: "touches F a (upd_main f a') = touches F a a'" for a a' f
    by (simp add: upd_main_def)
  show "touches F m (snd (shim_cfg_rx E ?tx))"
    using assms by (simp add: shim_cfg_rx_def shim_cfg_tx_def Let_def split_beta h u)
qed

text \<open>The reply of a command, by the table of the enumeration; any other command reads as the first reset.\<close>

lemma cfg_select_table:
  "(p, b) \<in> set enum_table \<Longrightarrow> fst (cfg_select p) = b" "p \<notin> fst ` set enum_table \<Longrightarrow> fst (cfg_select p) = MIE_JVSF1"
  by (auto simp: enum_table_def cfg_select_def)

lemma cfg_rx_again: "release E \<Longrightarrow> fst (shim_cfg_rx E (snd (shim_cfg_rx E m))) = fst (shim_cfg_rx E m)"
  by (simp add: shim_cfg_rx_def Let_def split_beta HUD_ONCE_def upd_main_def)

text \<open>The EEPROM image and the three buffers it fills.\<close>

definition ee_layout :: "u8 list \<Rightarrow> (u32 \<times> u8 list) list" where
  "ee_layout img = [(0x8c1c954c, take 128 img), (0x8c1c9528, take 18 img), (0x8c1c953a, take 18 (drop 18 img))]"

lemma ee_layout_ok: "128 \<le> length img \<Longrightarrow> layout_ok (ee_layout img)"
  by (simp add: ee_layout_def layout_ok_def span_def blocks_disjoint_def unat_bus)

lemma ee_read_lay:
  assumes "release E"
  shows "load_bytes a n (shim_ee_read E m) = load_bytes a n (lay (ee_layout (blob_bytes E EEPROM_IMG)) (HUD_ONCE E 1 0 0xffff m))"
  using assms by (simp add: shim_ee_read_def ee_layout_def Let_def upd_main_def load_bytes_def)

lemma ee_read_main:
  assumes "release E"
  shows "\<exists>d. shim_ee_read E m = (lay (ee_layout (blob_bytes E EEPROM_IMG)) (HUD_ONCE E 1 0 0xffff m))\<lparr>maind := d\<rparr>"
proof -
  have "x = x\<lparr>maind := maind x\<rparr>" for x :: machine by simp
  then have "\<exists>d. x = x\<lparr>maind := d\<rparr>" for x :: machine by blast
  then show ?thesis
    using assms by (auto simp: shim_ee_read_def ee_layout_def Let_def upd_main_def)
qed

lemma ee_read_buffers:
  assumes "release E" "128 \<le> length (blob_bytes E EEPROM_IMG)"
  shows "load_bytes 0x8c1c954c 128 (shim_ee_read E m) = take 128 (blob_bytes E EEPROM_IMG)"
    "load_bytes 0x8c1c9528 18 (shim_ee_read E m) = take 18 (blob_bytes E EEPROM_IMG)"
    "load_bytes 0x8c1c953a 18 (shim_ee_read E m) = take 18 (drop 18 (blob_bytes E EEPROM_IMG))"
proof -
  let ?i = "blob_bytes E EEPROM_IMG"
  note l = lay_load [OF ee_layout_ok [OF assms(2)]]
  show "load_bytes 0x8c1c954c 128 (shim_ee_read E m) = take 128 ?i"
    "load_bytes 0x8c1c9528 18 (shim_ee_read E m) = take 18 ?i"
    "load_bytes 0x8c1c953a 18 (shim_ee_read E m) = take 18 (drop 18 ?i)"
    unfolding ee_read_lay [OF assms(1)]
    using l [of "0x8c1c954c" "take 128 ?i"] l [of "0x8c1c9528" "take 18 ?i"] l [of "0x8c1c953a" "take 18 (drop 18 ?i)"]
      assms(2) by (simp_all add: ee_layout_def)
qed

lemma ee_read_touches:
  assumes "release E" "128 \<le> length (blob_bytes E EEPROM_IMG)"
  shows "touches (\<lambda>q. 0x0c1c9528 \<le> unat q \<and> unat q < 0x0c1c95cc) m (shim_ee_read E m)"
proof -
  let ?L = "ee_layout (blob_bytes E EEPROM_IMG)" and ?h = "HUD_ONCE E 1 0 0xffff m"
  have "touches (\<lambda>q. 0x0c1c9528 \<le> unat q \<and> unat q < 0x0c1c95cc) ?h (lay ?L ?h)"
    by (rule touches_mono [OF lay_touches [OF ee_layout_ok [OF assms(2)]]])
      (use assms(2) in \<open>auto simp: ee_layout_def in_block_def unat_bus\<close>)
  moreover have "touches F m ?h" for F
    using assms(1) by (simp add: HUD_ONCE_def)
  moreover obtain d where "shim_ee_read E m = (lay ?L ?h)\<lparr>maind := d\<rparr>"
    using ee_read_main [OF assms(1)] by blast
  ultimately show ?thesis
    by (simp only: touches_fields) (rule touches_trans)
qed

section \<open>The video cable\<close>

lemma cable_latched:
  "shim_cable_is_vga (snd (shim_cable_is_vga m)) = (fst (shim_cable_is_vga m), snd (shim_cable_is_vga m))"
  "cable_latch (utild (snd (shim_cable_is_vga m))) \<le> 3"
proof -
  have le: "x AND 3 \<le> 3" for x :: u32 by (rule word_and_le1)
  show l: "cable_latch (utild (snd (shim_cable_is_vga m))) \<le> 3"
    using le by (simp add: shim_cable_is_vga_def Let_def not_less)
  have known: "shim_cable_is_vga x = (cable_latch (utild x) = 0, x)" if "cable_latch (utild x) \<le> 3" for x
    using that by (simp add: shim_cable_is_vga_def not_less [symmetric])
  have "fst (shim_cable_is_vga m) = (cable_latch (utild (snd (shim_cable_is_vga m))) = 0)"
    by (simp add: shim_cable_is_vga_def Let_def)
  then show "shim_cable_is_vga (snd (shim_cable_is_vga m)) = (fst (shim_cable_is_vga m), snd (shim_cable_is_vga m))"
    by (simp add: known [OF l])
qed

lemma monitor_words:
  assumes "shim_cable_is_vga m = (vga, m1)" "shim_monitor_set m = (r, m2)"
  shows "r = 0" "ld32 0x8c0c451c m2 = (if vga then 0 else 2)" "ld32 0x8c0c4524 m2 = (if vga then 0 else 1)"
    "ld32 0x8c0c4520 m2 = 0" "ld32 0x8c0c4518 m2 = 1" "utild m2 = utild m1"
proof -
  have s: "cells_apart b 4 a 4" if "0x8c0c0000 \<le> unat a" "unat a \<le> 0x8c0d0000" "0x8c0c0000 \<le> unat b"
    "unat b \<le> 0x8c0d0000" "unat b + 4 \<le> unat a \<or> unat a + 4 \<le> unat b" for a b
  proof -
    have "unat a div 536870912 = 4" "unat a mod 536870912 = unat a - 0x80000000"
      "unat b div 536870912 = 4" "unat b mod 536870912 = unat b - 0x80000000"
      using that by (auto intro!: div_nat_eqI mod_nat_eqI)
    then show ?thesis using that unfolding cells_apart_def span_def unat_bus_div by simp linarith
  qed
  have d: "r = 0 \<and> m2 = st32 0x8c0c4518 1 (st32 0x8c0c4520 0 (st32 0x8c0c4524 (if vga then 0 else 1)
      (st32 0x8c0c451c (if vga then 0 else 2) m1)))"
    using assms by (auto simp: shim_monitor_set_def Let_def)
  then show "r = 0" "ld32 0x8c0c451c m2 = (if vga then 0 else 2)" "ld32 0x8c0c4524 m2 = (if vga then 0 else 1)"
    "ld32 0x8c0c4520 m2 = 0" "ld32 0x8c0c4518 m2 = 1" "utild m2 = utild m1"
    by (simp_all add: ld32_st32_same ld32_st32_other s span_def)
qed

lemma monitor_cable: "fst (shim_cable_is_vga (snd (shim_monitor_set m))) = fst (shim_cable_is_vga m)"
proof -
  obtain vga m1 where c: "shim_cable_is_vga m = (vga, m1)" by (metis prod.exhaust)
  have "utild (snd (shim_monitor_set m)) = utild m1"
    using monitor_words(6) [OF c] by (metis prod.collapse)
  moreover have "cable_latch (utild m1) \<le> 3" "vga = (cable_latch (utild m1) = 0)"
    using cable_latched(2) [of m] c by (auto simp: shim_cable_is_vga_def Let_def)
  ultimately show ?thesis
    by (simp add: shim_cable_is_vga_def [of "snd _"] c not_less [symmetric])
qed

section \<open>The fatal screen\<close>

lemma dev_only_p2:
  assumes "dev_only m m'" "0xac000000 \<le> unat c" "unat c + 4 \<le> 0xb0000000"
  shows "ld32 c m' = ld32 c m"
proof -
  note c = p2_word [OF assms(2,3)]
  have "ld8 (c + word_of_nat i) m' = ld8 (c + word_of_nat i) m" if "i < 4" for i
  proof -
    have "unat (bus (c + word_of_nat i)) = unat c - 0xa0000000 + i" "\<not> cached (c + word_of_nat i)"
      using span_bus [OF c(1) that] span_cached [OF c(1) that] c(2,3) by simp_all
    moreover from this(1) have "0x0c000000 \<le> unat (bus (c + word_of_nat i))" "unat (bus (c + word_of_nat i)) < 0x10000000"
      using assms(2,3) that by linarith+
    ultimately show ?thesis
      using assms(1) unfolding dev_only_def ld8_def by simp
  qed
  from this [of 0] this [of 1] this [of 2] this [of 3] show ?thesis by (simp add: ld32_def)
qed

lemma die_block:
  assumes "\<not> SHIM_SERIAL E"
  shows "\<exists>m1. (shim_die E code a b m :: 'a outcome) = Die code a b m1 \<and> ld32 (P2ADDR SHIM_ERR) m1 = code \<and>
    ld32 (P2ADDR SHIM_ERR + 4) m1 = a \<and> ld32 (P2ADDR SHIM_ERR + 8) m1 = b \<and>
    ld32 (P2ADDR SHIM_ERR + 12) m1 = 0xdeadcafe \<and> dcache m1 = dcache m \<and>
    (\<forall>q. 0x0c000000 \<le> unat q \<longrightarrow> unat q < 0x10000000 \<longrightarrow> \<not> (0x0cfc8000 \<le> unat q \<and> unat q < 0x0cfc8010) \<longrightarrow>
       ram m1 q = ram m q)"
proof -
  let ?e = "P2ADDR SHIM_ERR"
  let ?m1 = "st32 ?e code (st32 (?e + 12) 0xdeadcafe (st32 (?e + 8) b (st32 (?e + 4) a m)))"
  let ?m5 = "fold (\<lambda>i. st32 (VRAM + 4 * word_of_nat i) (die_color code)) [0 ..< 0x100000 div 4] ?m1"
  let ?m6 = "hex_paint 20 128 b (hex_paint 20 114 a (hex_paint 20 100 code ?m5))"
  have die: "(shim_die E code a b m :: 'a outcome) = Die code a b ?m6"
    using assms unfolding shim_die_def Let_def by simp
  have e: "?e = 0xacfc8000" by (simp add: src_consts P2ADDR_def)
  have s: "cells_apart b 4 a 4" if "0xacfc8000 \<le> unat b" "unat b \<le> 0xacfc8100" "0xacfc8000 \<le> unat a"
    "unat a \<le> 0xacfc8100" "unat b + 4 \<le> unat a \<or> unat a + 4 \<le> unat b" for a b
    using that p2_word [of a] p2_word [of b] by (auto simp: cells_apart_def)
  have dev: "dev_addr (VRAM + 4 * word_of_nat i) 4" if "i < 0x40000" for i
  proof -
    have u: "unat (VRAM + 4 * word_of_nat i) = 0xa5000000 + 4 * i"
      using that unat_add_of_nat [of VRAM "4 * i"] by (simp add: VRAM_def)
    then have "unat (VRAM + 4 * word_of_nat i) div 536870912 = 5"
      "unat (VRAM + 4 * word_of_nat i) mod 536870912 = 0x5000000 + 4 * i"
      using that by (auto intro!: div_nat_eqI mod_nat_eqI)
    then show ?thesis using that by (simp add: dev_addr_def cached_div span_def unat_bus_div)
  qed
  have 5: "dev_only ?m1 ?m5"
  proof (rule dev_only_fold)
    fix i m'
    assume "i \<in> set [0 ..< 0x100000 div 4]"
    from in_upt [OF this] show "dev_only m' (st32 (VRAM + 4 * word_of_nat i) (die_color code) m')"
      by (intro dev_only_st32 dev) simp
  qed
  have hp: "dev_only m' (hex_paint x y v m')" if "x + 80 \<le> 640" "y + 10 \<le> 480" for x y v m'
    unfolding hex_paint_def by (rule hex_paint_c_dev_only [OF that])
  have 6: "dev_only ?m1 ?m6"
    by (rule dev_only_trans [OF dev_only_trans [OF dev_only_trans [OF 5 hp] hp] hp]) simp_all
  have w: "ld32 c ?m6 = ld32 c ?m1" if "0xacfc8000 \<le> unat c" "unat c \<le> 0xacfc8100" for c
    by (rule dev_only_p2 [OF 6]) (use that in simp_all)
  have c1: "\<not> cached (0xacfc8000 + k) \<and> span (0xacfc8000 + k) 4 \<and> unat (bus (0xacfc8000 + k)) = 0x0cfc8000 + unat k"
    if "unat k \<le> 12" for k :: u32
    using that p2_word [of "0xacfc8000 + k"] unat_add_lt [of "0xacfc8000" k] by simp
  have r1: "ram ?m1 q = ram m q \<and> dcache ?m1 = dcache m"
    if "\<not> (0x0cfc8000 \<le> unat q \<and> unat q < 0x0cfc8010)" for q
    using that c1 [of 0] c1 [of 4] c1 [of 8] c1 [of 12]
    by (auto simp: e st32_bytes store_bytes_uncached simp del: store_bytes.simps)
  have d1: "dcache ?m1 = dcache m"
    using c1 [of 0] c1 [of 4] c1 [of 8] c1 [of 12]
    by (simp add: e st32_bytes store_bytes_uncached del: store_bytes.simps)
  show ?thesis
    using die w [of ?e] w [of "?e + 4"] w [of "?e + 8"] w [of "?e + 12"] 6 d1 r1
    by (intro exI [of _ ?m6]) (auto simp: e ld32_st32_same ld32_st32_other s span_def dev_only_def)
qed

section \<open>The serial port\<close>

lemma scif_wait_polls:
  "scif_wait E g m = (ok, m1) \<Longrightarrow> unat g \<le> 1000001 \<Longrightarrow>
    \<exists>k \<le> 1000001 - unat g. m1 = (scif_hw E ^^ Suc k) m \<and> (ok \<longleftrightarrow> ld16 SCFSR2 m1 AND 0x20 \<noteq> 0) \<and>
      (\<forall>j < k. ld16 SCFSR2 ((scif_hw E ^^ Suc j) m) AND 0x20 = 0) \<and> (ok \<or> k = 1000001 - unat g)"
proof (induction E g m arbitrary: ok m1 rule: scif_wait.induct)
  case (1 E g m)
  let ?m = "scif_hw E m"
  show ?case
  proof (cases "ld16 SCFSR2 ?m AND 0x20 \<noteq> 0")
    case True
    then have "m1 = ?m" "ok" using 1(2) by (simp_all add: scif_wait.simps [of E g m] Let_def)
    then show ?thesis using True by (intro exI [of _ 0]) simp
  next
    case busy: False
    show ?thesis
    proof (cases "g > 1000000")
      case True
      then have g: "unat g = 1000001" using 1(3) by (simp add: word_less_nat_alt)
      have "m1 = ?m" "\<not> ok" using 1(2) busy True by (auto simp: scif_wait.simps [of E g m] Let_def)
      then show ?thesis using busy g by (intro exI [of _ 0]) simp
    next
      case False
      then have g: "unat g \<le> 1000000" by (simp add: word_less_nat_alt not_less)
      then have g1: "unat (g + 1) = unat g + 1" using unat_add_lt [of g 1] by simp
      have "scif_wait E (g + 1) ?m = (ok, m1)"
        using 1(2) busy False by (simp add: scif_wait.simps [of E g m] Let_def)
      then obtain k where k: "k \<le> 1000001 - unat (g + 1)" "m1 = (scif_hw E ^^ Suc k) ?m"
        "ok \<longleftrightarrow> ld16 SCFSR2 m1 AND 0x20 \<noteq> 0" "\<forall>j < k. ld16 SCFSR2 ((scif_hw E ^^ Suc j) ?m) AND 0x20 = 0"
        "ok \<or> k = 1000001 - unat (g + 1)"
        using 1(1) [OF refl] busy False g g1 by fastforce
      have f: "(scif_hw E ^^ j) ?m = (scif_hw E ^^ Suc j) m" for j
        by (simp only: funpow_Suc_right comp_def)
      have "ld16 SCFSR2 ((scif_hw E ^^ Suc j) m) AND 0x20 = 0" if "j < Suc k" for j
      proof (cases j)
        case 0
        then show ?thesis using busy by simp
      next
        case (Suc i)
        then have "ld16 SCFSR2 ((scif_hw E ^^ Suc i) ?m) AND 0x20 = 0" using that k(4) by blast
        then show ?thesis unfolding f [of "Suc i"] Suc .
      qed
      then show ?thesis
        using k g g1 f by (intro exI [of _ "Suc k"]) (auto simp del: funpow.simps(2))
    qed
  qed
qed

end
