(* ===== verification/Statics.thy ===== *)
theory Statics
  imports Hook_Lemmas
begin

text \<open>
  The well-formedness of the shim's statics: which values the variables of \<^verbatim>\<open>main.c\<close> and \<^verbatim>\<open>util.c\<close> can hold,
  and that every hook the game calls keeps them there.
\<close>

definition main_ok :: "main_data \<Rightarrow> bool" where
  "main_ok d \<longleftrightarrow> bit (hud_marks d) 7 \<and> unat (raw_cache_a d) < 65536 \<and> unat (raw_cache_b d) < 65536 \<and>
     wr_left d \<le> 32 \<and> ee_logged d \<le> 1 \<and> eeread_logged d \<le> 1 \<and> \<not> bit (cfg_seen d) 7 \<and>
     pad_thresh d \<in> {1, 100000, 25000, 6250, 1562, 390}"

definition statics_ok :: "machine \<Rightarrow> bool" where
  "statics_ok m \<longleftrightarrow> main_ok (maind m) \<and> (cable_latch (utild m) \<le> 3 \<or> cable_latch (utild m) = 0xff)"

text \<open>A routine keeps the statics well formed if it returns.\<close>

definition keeps :: "'a outcome \<Rightarrow> bool" where
  "keeps r \<longleftrightarrow> (\<forall>v m1. r = Ret v m1 \<longrightarrow> statics_ok m1)"

lemma keeps_simps [simp]:
  "keeps (Ret v m1) = statics_ok m1" "keeps (Reboot m1)" "keeps (Die c a b m1)" "keeps Hang"
  by (simp_all add: keeps_def)

lemma keeps_bindo: "keeps r \<Longrightarrow> (\<And>v m1. r = Ret v m1 \<Longrightarrow> statics_ok m1 \<Longrightarrow> keeps (f v m1)) \<Longrightarrow> keeps (bindo r f)"
  by (cases r) auto

lemma statics_stores [simp]:
  "statics_ok (store_bytes a bs m) = statics_ok m" "statics_ok (st32 a v m) = statics_ok m"
  "statics_ok (st8 a b m) = statics_ok m" "statics_ok (reg_w a v m) = statics_ok m"
  by (simp_all add: statics_ok_def)

lemma statics_main: "statics_ok m \<Longrightarrow> main_ok (maind m)"
  by (simp add: statics_ok_def)

lemma statics_upd: "statics_ok m \<Longrightarrow> main_ok d \<Longrightarrow> statics_ok (m\<lparr>maind := d\<rparr>)"
  by (simp add: statics_ok_def)

text \<open>The counters and latches that the invariant does not mention.\<close>

lemma main_ok_free [simp]:
  "main_ok (d\<lparr>ee_wr_count := x\<rparr>) = main_ok d" "main_ok (d\<lparr>steady_beat := x\<rparr>) = main_ok d"
  "main_ok (d\<lparr>trig_seen := x\<rparr>) = main_ok d" "main_ok (d\<lparr>rc_ok_seen := x\<rparr>) = main_ok d"
  "main_ok (d\<lparr>reply_ticks := x\<rparr>) = main_ok d" "main_ok (d\<lparr>pending_jvs := y\<rparr>) = main_ok d"
  "main_ok (d\<lparr>pending_cfg := y\<rparr>) = main_ok d" "main_ok (d\<lparr>in_tcnt := x\<rparr>) = main_ok d"
  "main_ok (d\<lparr>getcond_total := x\<rparr>) = main_ok d" "main_ok (d\<lparr>gc_rate := x\<rparr>) = main_ok d"
  "main_ok (d\<lparr>cc_rate := x\<rparr>) = main_ok d" "main_ok (d\<lparr>last_gc := x\<rparr>) = main_ok d"
  "main_ok (d\<lparr>last_cc := x\<rparr>) = main_ok d"
  by (simp_all add: main_ok_def)

lemma main_ok_hud: "main_ok d \<Longrightarrow> main_ok (d\<lparr>hud_marks := hud_marks d OR b\<rparr>)"
  by (simp add: main_ok_def bit_simps)

lemma main_ok_raw: "main_ok d \<Longrightarrow> main_ok (d\<lparr>raw_cache_a := ucast (x :: u16)\<rparr>)"
  "main_ok d \<Longrightarrow> main_ok (d\<lparr>raw_cache_b := ucast (x :: u16)\<rparr>)"
proof -
  have "unat x < 65536" using unsigned_less [of x] by simp
  then have "unat (ucast x :: u32) < 65536"
    by (simp add: unsigned_ucast_eq take_bit_nat_eq_self)
  then show "main_ok d \<Longrightarrow> main_ok (d\<lparr>raw_cache_a := ucast (x :: u16)\<rparr>)"
    "main_ok d \<Longrightarrow> main_ok (d\<lparr>raw_cache_b := ucast (x :: u16)\<rparr>)"
    by (simp_all add: main_ok_def)
qed

lemma HUD_ONCE_statics: "release E \<Longrightarrow> statics_ok m \<Longrightarrow> statics_ok (HUD_ONCE E b s c m)"
  using main_ok_hud by (auto simp: HUD_ONCE_def intro!: statics_upd statics_main)

lemma pad_thresh_statics: "statics_ok m \<Longrightarrow> statics_ok (pad_thresh_init m)"
proof -
  assume m: "statics_ok m"
  define v where "v = drop_bit (tpsc_shifts ! unat (ld16 TCR0 m AND 7)) (50000000 :: u32) div 125"
  have "v \<in> {100000, 25000, 6250, 1562, 390}"
    unfolding v_def by (rule thresh_values [OF tpsc_cases])
  then have "main_ok ((maind m)\<lparr>pad_thresh := v\<rparr>)"
    using statics_main [OF m] unfolding main_ok_def by auto
  then show ?thesis
    unfolding pad_thresh_init_def v_def [symmetric] using m statics_upd by simp
qed

section \<open>The reply side\<close>

lemma same_statics_ok: "same_statics m m' \<Longrightarrow> statics_ok m' = statics_ok m"
  by (simp add: same_statics_def statics_ok_def)

lemma pad_refresh_keeps:
  assumes "maple_ok E" "statics_ok m"
  shows "keeps (pad_refresh E m)"
proof (cases "in_tcnt (maind m) - ld32 TCNT0 m > pad_thresh (maind m)")
  case True
  let ?m1 = "m\<lparr>maind := (maind m)\<lparr>in_tcnt := ld32 TCNT0 m, getcond_total := getcond_total (maind m) + 2\<rparr>\<rparr>"
  obtain a m2 where a: "maple_getcond E 0 ?m1 = Ret a m2" "maple_step ?m1 m2"
    using maple_getcond_ok [OF assms(1)] by blast
  let ?m3 = "m2\<lparr>maind := (maind m2)\<lparr>raw_cache_a := ucast a\<rparr>\<rparr>"
  obtain b m4 where b: "maple_getcond E 1 ?m3 = Ret b m4" "maple_step ?m3 m4"
    using maple_getcond_ok [OF assms(1)] by blast
  have "statics_ok ?m1" using assms(2) by (auto intro!: statics_upd dest: statics_main)
  then have "statics_ok m2" using a(2) same_statics_ok unfolding maple_step_def by blast
  then have "statics_ok ?m3" by (auto intro!: statics_upd main_ok_raw dest: statics_main)
  then have "statics_ok m4" using b(2) same_statics_ok unfolding maple_step_def by blast
  then have "statics_ok (m4\<lparr>maind := (maind m4)\<lparr>raw_cache_b := ucast b\<rparr>\<rparr>)"
    by (auto intro!: statics_upd main_ok_raw dest: statics_main)
  then show ?thesis
    using True by (simp add: pad_refresh_def Let_def a(1) b(1) pad_reboot_def)
qed (use assms(2) in \<open>simp add: pad_refresh_def Let_def\<close>)

lemma jvs_digital_keeps:
  assumes "maple_ok E" "release E" "statics_ok m"
  shows "keeps (jvs_digital E sub rx m)"
proof -
  have "statics_ok (pad_thresh_init (HUD_ONCE E 0x08 3 0xffe0 m))"
    by (rule pad_thresh_statics [OF HUD_ONCE_statics [OF assms(2,3)]])
  from pad_refresh_keeps [OF assms(1) this] show ?thesis
    unfolding jvs_digital_def using assms(2) by (intro keeps_bindo) (simp_all add: Let_def)
qed

lemma cable_statics: "statics_ok m \<Longrightarrow> statics_ok (snd (shim_cable_is_vga m))"
proof -
  assume m: "statics_ok m"
  have le: "x AND 3 \<le> 3" for x :: u32 by (rule word_and_le1)
  show ?thesis
    using m le by (simp add: shim_cable_is_vga_def Let_def statics_ok_def)
qed

lemma maple_reply_keeps:
  assumes "maple_ok E" "release E" "statics_ok m"
  shows "keeps (maple_reply E sub rcv frame m)"
proof -
  let ?m = "reply_start E m"
  have s: "statics_ok ?m"
    using HUD_ONCE_statics [OF assms(2,3), of 2 1 "0x07e0"] unfolding reply_start_def Let_def
    by (auto intro!: statics_upd dest: statics_main)
  have log: "statics_ok (ee_deliver_log E rcv m')" "statics_ok (ee_write_mark E m')" if "statics_ok m'" for m'
    using that assms(2) statics_main [OF that]
    by (auto simp: ee_deliver_log_def ee_write_mark_def Let_def intro!: statics_upd) (simp add: main_ok_def)
  note live = jvs_digital_keeps [OF assms(1,2) s]
  have b: "keeps (case enum_blob p of Some b \<Rightarrow> Ret () (store_bytes rx (blob_bytes E b) ?m)
      | None \<Rightarrow> jvs_digital E 0x15 rx ?m)" for p rx
    using s live by (auto split: option.split)
  have d: "keeps (shim_die E 3 sub rcv ?m :: unit outcome)"
    using shim_die_Die [where 'a = unit, of E 3 sub rcv ?m] by auto
  have c: "statics_ok (snd (shim_cable_is_vga (store_bytes rx bs ?m)))" for rx bs
    using cable_statics s by simp
  show ?thesis
    unfolding maple_reply_start [OF assms(2)] maple_reply_body_def Let_def split_beta
    using s live b d c log assms(2) by simp
qed

section \<open>The transport\<close>

lemma latch_statics: "statics_ok m \<Longrightarrow> statics_ok (latch_jvs sub b m)"
  by (auto simp: latch_jvs_def upd_main_def intro!: statics_upd dest: statics_main)

lemma upd_main_statics: "statics_ok m \<Longrightarrow> (\<And>d. main_ok d \<Longrightarrow> main_ok (f d)) \<Longrightarrow> statics_ok (upd_main f m)"
  by (simp add: upd_main_def statics_upd statics_main)

lemma probe_reply_statics: "statics_ok m \<Longrightarrow> statics_ok (mie_probe_reply E cmd fh rcv frame m)"
  by (simp add: mie_probe_reply_def Let_def)

lemma serve_frame_keeps:
  "maple_ok E \<Longrightarrow> release E \<Longrightarrow> statics_ok m \<Longrightarrow> keeps (serve_frame E fh rcv addr m)"
  using latch_statics probe_reply_statics maple_reply_keeps by (simp add: serve_frame_def Let_def)

lemma walk_keeps:
  "maple_ok E \<Longrightarrow> release E \<Longrightarrow> statics_ok m \<Longrightarrow> keeps (walk E k first addr d m)"
proof (induction k arbitrary: first addr d m)
  case (Suc k)
  have "keeps (if drop_bit 8 (UW addr m) AND 7 = 0 then serve_frame E (UW (addr + 8) m)
      (UW (addr + 4) m AND 0x1fffffe0) addr m else Ret () m)"
    using serve_frame_keeps [OF Suc.prems] Suc.prems(3) by simp
  then show ?case
    unfolding walk.simps Let_def by (rule keeps_bindo) (simp add: Suc.IH [OF Suc.prems(1,2)])
qed simp

lemma serve_list_keeps:
  assumes "maple_ok E" "release E" "statics_ok m"
  shows "keeps (serve_list E m)"
proof -
  let ?m = "upd_main (\<lambda>d. d\<lparr>trig_seen := trig_seen d + 1\<rparr>) m"
  have s: "statics_ok ?m" using assms(3) by (intro upd_main_statics) simp_all
  have "keeps (if ram_window a then walk E 32 True a diag0 ?m else Ret diag0 ?m)" for a
    using walk_keeps [OF assms(1,2) s] s by simp
  then show ?thesis
    unfolding serve_list_def Let_def using assms(2)
    by (simp only: release_simps) (rule keeps_bindo, simp_all add: MMIR_set_def)
qed

text \<open>The game's engine leaves the shim's variables alone.\<close>

definition engine_keeps :: "env \<Rightarrow> bool" where
  "engine_keeps E \<longleftrightarrow> (\<forall>m. maind (snd (engine E m)) = maind m \<and> utild (snd (engine E m)) = utild m)"

lemma heartbeat_statics: "release E \<Longrightarrow> statics_ok m \<Longrightarrow> statics_ok (heartbeat E regs m)"
  by (simp add: heartbeat_def Let_def upd_main_statics)

lemma steady_keeps:
  assumes "maple_ok E" "release E" "engine_keeps E" "statics_ok m"
  shows "keeps (shim_maple_steady E m)"
proof -
  obtain rc me where e: "engine E (st32 0x8c1c9790 1 m) = (rc, me)" by (metis prod.exhaust)
  have "maind me = maind m" "utild me = utild m"
    using assms(3) e unfolding engine_keeps_def by (metis snd_conv st32_fields(8,9))+
  then have "statics_ok me" using assms(4) by (simp add: statics_ok_def)
  then have s: "statics_ok (let m2 = (if rc = 0 then upd_main (\<lambda>d. d\<lparr>rc_ok_seen := rc_ok_seen d + 1\<rparr>) me else me);
      m3 = upd_main (\<lambda>d. d\<lparr>steady_beat := steady_beat d + 1\<rparr>) m2
    in if steady_beat (maind m3) AND 63 = 0 then heartbeat E (0, 0, 0, 0) m3 else m3)"
    by (simp add: Let_def upd_main_statics heartbeat_statics [OF assms(2)])
  show ?thesis
    unfolding shim_maple_steady_def Let_def diag_off [OF assms(2)] e prod.case
    using s [unfolded Let_def] serve_list_keeps [OF assms(1,2)] by (auto intro!: keeps_bindo)
qed

lemma boot_keeps:
  assumes "maple_ok E" "release E" "statics_ok m"
  shows "keeps (shim_maple_boot E arg0 m)"
  unfolding shim_maple_boot_def Let_def
  using maple_reply_keeps [OF assms(1,2) latch_statics [OF assms(3)]] by (intro keeps_bindo) simp_all

lemma entry_keeps:
  assumes "maple_ok E" "release E" "statics_ok m"
  shows "keeps (shim_maple_entry E m)"
  unfolding shim_maple_entry_def Let_def
  using assms(3) maple_reply_keeps [OF assms(1,2)] by (auto intro!: keeps_bindo simp: GW_set_def)

section \<open>The configuration hooks\<close>

lemma cfg_seen_ok: "main_ok d \<Longrightarrow> main_ok (d\<lparr>cfg_seen := cfg_seen d OR snd (cfg_select p)\<rparr>)"
proof -
  assume d: "main_ok d"
  have "\<not> bit (snd (cfg_select p)) 7" by (simp add: cfg_select_def)
  then show ?thesis using d by (simp add: main_ok_def bit_simps)
qed

lemma cfg_keeps:
  assumes "release E" "statics_ok m"
  shows "statics_ok (snd (shim_cfg_tx E node arg1 len payload m))" "statics_ok (snd (shim_cfg_rx E m))"
proof -
  note h = HUD_ONCE_statics [OF assms]
  show "statics_ok (snd (shim_cfg_tx E node arg1 len payload m))"
    using assms(1) by (simp add: shim_cfg_tx_def Let_def upd_main_statics h)
  have "statics_ok (upd_main (\<lambda>d. d\<lparr>cfg_seen := cfg_seen d OR snd (cfg_select p)\<rparr>) (HUD_ONCE E b s c m))" for p b s c
    using cfg_seen_ok by (intro upd_main_statics h)
  then show "statics_ok (snd (shim_cfg_rx E m))"
    using assms(1) by (simp add: shim_cfg_rx_def Let_def split_beta h)
qed

lemma hook_keeps:
  assumes "release E" "statics_ok m"
  shows "statics_ok (snd (shim_ee_write_skip E m))" "statics_ok (snd (shim_ee_lib_decode E m))"
    "statics_ok (snd (shim_ee_lib_post E m))" "statics_ok (snd (shim_ee_idx_read E out m))"
    "statics_ok (snd (shim_settings_skip E m))" "statics_ok (shim_ee_read E m)"
    "statics_ok (snd (shim_monitor_set m))"
proof -
  have e: "main_ok d \<Longrightarrow> main_ok (d\<lparr>eeread_logged := 0\<rparr>)" for d by (simp add: main_ok_def)
  show "statics_ok (snd (shim_ee_write_skip E m))" "statics_ok (snd (shim_ee_lib_decode E m))"
    "statics_ok (snd (shim_ee_lib_post E m))" "statics_ok (snd (shim_ee_idx_read E out m))"
    "statics_ok (snd (shim_settings_skip E m))"
    using assms by (simp_all add: shim_ee_write_skip_def shim_ee_lib_decode_def shim_ee_lib_post_def
        shim_ee_idx_read_def shim_settings_skip_def)
  show "statics_ok (shim_ee_read E m)"
    using assms by (simp add: shim_ee_read_def Let_def HUD_ONCE_statics upd_main_statics e)
  show "statics_ok (snd (shim_monitor_set m))"
    using cable_statics [OF assms(2)] by (simp add: shim_monitor_set_def Let_def split_beta)
qed

text \<open>The display routine of the SDK, which the video hook calls, leaves the shim's variables alone.\<close>

definition sdk_keeps :: "env \<Rightarrow> bool" where
  "sdk_keeps E \<longleftrightarrow> (\<forall>a b c d m. maind (snd (vid_sdk E a b c d m)) = maind m \<and> utild (snd (vid_sdk E a b c d m)) = utild m)"

lemma vid_init_keeps:
  assumes "release E" "sdk_keeps E" "statics_ok m"
  shows "statics_ok (snd (shim_vid_init E mode b c d m))"
proof -
  have "maind (loadbar_paint f m') = maind m' \<and> utild (loadbar_paint f m') = utild m'" for f m'
    using loadbar_paint_dev_only [of m' f] by (simp add: dev_only_def)
  then show ?thesis
    using assms cable_statics [OF assms(3)] release_builds [OF assms(1)]
    by (simp add: shim_vid_init_def ls_stampA_def Let_def split_beta statics_ok_def sdk_keeps_def)
qed

section \<open>Any order of calls\<close>

text \<open>The hooks that never fail.\<close>

inductive hook :: "env \<Rightarrow> machine \<Rightarrow> machine \<Rightarrow> bool" for E :: env and m :: machine where
  "hook E m (snd (shim_cfg_tx E node arg1 len payload m))"
| "hook E m (snd (shim_cfg_rx E m))"
| "hook E m (shim_ee_read E m)"
| "hook E m (snd (shim_ee_write_skip E m))"
| "hook E m (snd (shim_ee_lib_decode E m))"
| "hook E m (snd (shim_ee_lib_post E m))"
| "hook E m (snd (shim_ee_idx_read E out m))"
| "hook E m (snd (shim_settings_skip E m))"
| "hook E m (snd (shim_monitor_set m))"
| "hook E m (snd (shim_vid_init E mode b c d m))"

inductive_cases hookE: "hook E m m'"

lemma hook_statics:
  assumes "release E" "sdk_keeps E" "statics_ok m" "hook E m m'"
  shows "statics_ok m'"
  using assms(4) cfg_keeps [OF assms(1,3)] hook_keeps [OF assms(1,3)] vid_init_keeps [OF assms(1-3)] by cases simp_all

text \<open>
  The states the variables can reach: from power-on by the frame service, the builders and the hooks in any
  order, and by whatever leaves the two files' variables alone: the game, and the cartridge side.
\<close>

inductive main_run :: "env \<Rightarrow> machine \<Rightarrow> bool" for E :: env where
  power_on: "maind m = main_init \<Longrightarrow> utild m = util_init \<Longrightarrow> main_run E m"
| steady: "main_run E m \<Longrightarrow> shim_maple_steady E m = Ret rc m' \<Longrightarrow> main_run E m'"
| boot: "main_run E m \<Longrightarrow> shim_maple_boot E arg0 m = Ret u m' \<Longrightarrow> main_run E m'"
| entry: "main_run E m \<Longrightarrow> shim_maple_entry E m = Ret v m' \<Longrightarrow> main_run E m'"
| hooked: "main_run E m \<Longrightarrow> hook E m m' \<Longrightarrow> main_run E m'"
| elsewhere: "main_run E m \<Longrightarrow> maind m' = maind m \<Longrightarrow> utild m' = utild m \<Longrightarrow> main_run E m'"

lemma main_run_ok:
  assumes "maple_ok E" "release E" "engine_keeps E" "sdk_keeps E" "main_run E m"
  shows "statics_ok m"
  using assms(5)
proof induction
  case (power_on m)
  then show ?case by (simp add: statics_ok_def main_ok_def main_init_def util_init_def)
next
  case (steady m rc m')
  then show ?case using steady_keeps [OF assms(1-3) steady.IH] by (simp add: keeps_def)
next
  case (boot m arg0 u m')
  then show ?case using boot_keeps [OF assms(1,2) boot.IH, of arg0] by (simp add: keeps_def)
next
  case (entry m v m')
  then show ?case using entry_keeps [OF assms(1,2) entry.IH] by (simp add: keeps_def)
next
  case (hooked m m')
  then show ?case using hook_statics [OF assms(2,4)] by blast
qed (simp add: statics_ok_def)

end
