(* ===== verification/Walk.thy ===== *)
theory Walk
  imports Transport_Lemmas
begin

text \<open>
  The walk over the descriptor list against its specification: the list is parsed once, as it stands when the
  transfer is triggered, and its frames are then served in order. The routine of the source parses and
  serves in one loop; the two agree as long as no reply is directed into the list itself.
\<close>

section \<open>The list as the game wrote it\<close>

record list_frame =
  f_addr :: u32
  f_ctl :: u32
  f_rcv :: u32
  f_hdr :: u32
  f_pay :: u32

definition frame_at :: "u32 \<Rightarrow> machine \<Rightarrow> list_frame" where
  "frame_at a m = \<lparr>f_addr = a, f_ctl = UW a m, f_rcv = UW (a + 0x04) m AND 0x1fffffe0,
     f_hdr = UW (a + 0x08) m, f_pay = UW (a + 0x0c) m\<rparr>"

definition is_start :: "list_frame \<Rightarrow> bool" where
  "is_start f \<longleftrightarrow> drop_bit 8 (f_ctl f) AND 7 = 0"

definition is_last :: "list_frame \<Rightarrow> bool" where
  "is_last f \<longleftrightarrow> bit (f_ctl f) 31"

definition next_addr :: "list_frame \<Rightarrow> u32" where
  "next_addr f = f_addr f + (2 + ((f_ctl f AND 0xff) + 1)) * 4"

fun parse_list :: "nat \<Rightarrow> u32 \<Rightarrow> machine \<Rightarrow> list_frame list" where
  "parse_list 0 a m = []"
| "parse_list (Suc k) a m =
     (let f = frame_at a m in f # (if is_last f then [] else parse_list k (next_addr f) m))"

text \<open>Its frames served one after the other.\<close>

fun serve_all :: "env \<Rightarrow> list_frame list \<Rightarrow> machine \<Rightarrow> unit outcome" where
  "serve_all E [] m = Ret () m"
| "serve_all E (f # fs) m =
     bindo (if is_start f then serve_frame E (f_hdr f) (f_rcv f) (f_addr f) m else Ret () m)
       (\<lambda>u m1. serve_all E fs m1)"

text \<open>What the forensics report of a list.\<close>

definition list_diag :: "list_frame list \<Rightarrow> walk_diag" where
  "list_diag fs =
     (let ss = filter is_start fs
      in \<lparr>dg_frames = word_of_nat (length fs), dg_mpstart = word_of_nat (length ss),
          dg_cmd86 = word_of_nat (length (filter (\<lambda>f. f_hdr f AND 0xff = 0x86) ss)),
          dg_h1first = (case fs of [] \<Rightarrow> 0 | f # _ \<Rightarrow> f_ctl f),
          dg_fh1 = (case ss of [] \<Rightarrow> 0 | f # _ \<Rightarrow> f_hdr f),
          dg_rcv1 = (case ss of [] \<Rightarrow> 0 | f # _ \<Rightarrow> f_rcv f),
          dg_pay1 = (case ss of [] \<Rightarrow> 0 | f # _ \<Rightarrow> f_pay f),
          dg_fh2 = (case ss of _ # g # _ \<Rightarrow> f_hdr g | _ \<Rightarrow> 0)\<rparr>)"

text \<open>The bytes of a descriptor, and lists that no reply of theirs runs over.\<close>

definition desc_bytes :: "list_frame \<Rightarrow> u32 list" where
  "desc_bytes f = concat (map (\<lambda>k. map (\<lambda>i. bus (((f_addr f + k) OR 0xa0000000) + word_of_nat i)) [0 ..< 4]) [0, 4, 8, 12])"

definition list_quiet :: "list_frame list \<Rightarrow> bool" where
  "list_quiet fs \<longleftrightarrow> (\<forall>f \<in> set fs. is_start f \<and> ram_window (f_rcv f) \<longrightarrow>
     (\<forall>g \<in> set fs. \<forall>q \<in> set (desc_bytes g). \<not> reply_at (f_rcv f) q))"

lemma in_desc_bytes:
  "q \<in> set (desc_bytes f) \<longleftrightarrow> (\<exists>k \<in> {0, 4, 8, 12}. \<exists>i < 4. q = bus (((f_addr f + k) OR 0xa0000000) + word_of_nat i))"
  by (simp add: desc_bytes_def image_iff) (simp add: Bex_def)

section \<open>One turn of the loop\<close>

definition diag_step :: "bool \<Rightarrow> list_frame \<Rightarrow> walk_diag \<Rightarrow> walk_diag" where
  "diag_step first f d =
     (let d1 = (if first then d\<lparr>dg_h1first := f_ctl f\<rparr> else d);
          d2 = d1\<lparr>dg_frames := dg_frames d1 + 1\<rparr>
      in if is_start f then frame_diag (f_hdr f) (f_rcv f) (f_pay f) d2 else d2)"

lemma frame_at_sel [simp]: "f_addr (frame_at a m) = a"
  by (simp add: frame_at_def)

lemma walk_Suc:
  "walk E (Suc k) first a d m =
     bindo (if is_start (frame_at a m) then serve_frame E (f_hdr (frame_at a m)) (f_rcv (frame_at a m)) a m else Ret () m)
       (\<lambda>u m1. if is_last (frame_at a m) then Ret (diag_step first (frame_at a m) d) m1
          else walk E k False (next_addr (frame_at a m)) (diag_step first (frame_at a m) d) m1)"
  by (simp add: frame_at_def is_start_def is_last_def next_addr_def diag_step_def Let_def)

text \<open>What is left of the list after a reply outside it.\<close>

lemma UW_touches:
  assumes "touches R m m1" "\<forall>q \<in> set (desc_bytes f). \<not> R q" "k \<in> {0, 4, 8, 12}"
  shows "UW (f_addr f + k) m1 = UW (f_addr f + k) m"
  unfolding UW_def
proof (rule touches_ld32 [OF assms(1)])
  fix i :: nat
  assume "i < 4"
  then have "bus (((f_addr f + k) OR 0xa0000000) + word_of_nat i) \<in> set (desc_bytes f)"
    using assms(3) unfolding in_desc_bytes by blast
  then show "\<not> R (bus (((f_addr f + k) OR 0xa0000000) + word_of_nat i))"
    using assms(2) by blast
qed

lemma frame_at_touches:
  assumes "touches R m m1" "\<forall>q \<in> set (desc_bytes (frame_at a m)). \<not> R q"
  shows "frame_at a m1 = frame_at a m"
  using UW_touches [OF assms, of 0] UW_touches [OF assms, of 4] UW_touches [OF assms, of 8] UW_touches [OF assms, of 12]
  by (simp add: frame_at_def)

lemma parse_list_touches:
  "touches R m m1 \<Longrightarrow> \<forall>f \<in> set (parse_list k a m). \<forall>q \<in> set (desc_bytes f). \<not> R q \<Longrightarrow>
    parse_list k a m1 = parse_list k a m"
proof (induction k arbitrary: a)
  case (Suc k)
  then have "frame_at a m1 = frame_at a m"
    by (intro frame_at_touches [of R]) (auto simp: Let_def)
  with Suc show ?case by (simp add: Let_def)
qed simp

fun diag_from :: "bool \<Rightarrow> list_frame list \<Rightarrow> walk_diag \<Rightarrow> walk_diag" where
  "diag_from first [] d = d"
| "diag_from first (f # fs) d = diag_from False fs (diag_step first f d)"

lemma walk_parse:
  assumes "transport_ok E"
  shows "list_quiet (parse_list k a m) \<Longrightarrow> walk E k first a d m =
    bindo (serve_all E (parse_list k a m) m) (\<lambda>u m1. Ret (diag_from first (parse_list k a m) d) m1)"
proof (induction k arbitrary: first a d m)
  case (Suc k)
  let ?f = "frame_at a m" and ?fs = "parse_list k (next_addr (frame_at a m)) m"
  define r where "r = (if is_start ?f then serve_frame E (f_hdr ?f) (f_rcv ?f) a m else Ret () m)"
  let ?R = "\<lambda>q. is_start ?f \<and> ram_window (f_rcv ?f) \<and> reply_at (f_rcv ?f) q"
  have r: "ends_at ?R m r"
    unfolding r_def by (auto intro!: serve_frame_at [OF assms] simp: covers_def)
  have step: "walk E k False (next_addr ?f) d' m1 = bindo (serve_all E ?fs m1) (\<lambda>u m2. Ret (diag_from False ?fs d') m2)"
    if "r = Ret u m1" "\<not> is_last ?f" for u m1 d'
  proof -
    have q: "list_quiet (?f # ?fs)" using Suc.prems that(2) by (simp add: Let_def)
    have "touches ?R m m1" using r that(1) by (simp add: serves_at_def)
    moreover have "\<forall>g \<in> set ?fs. \<forall>q \<in> set (desc_bytes g). \<not> ?R q" using q by (auto simp: list_quiet_def)
    ultimately have p: "parse_list k (next_addr ?f) m1 = ?fs" by (rule parse_list_touches)
    have "list_quiet ?fs" using q by (simp add: list_quiet_def)
    then show ?thesis using Suc.IH [of "next_addr ?f" m1 False d'] by (simp only: p)
  qed
  show ?case
    unfolding walk_Suc parse_list.simps Let_def serve_all.simps frame_at_sel r_def [symmetric] bindo_assoc
  proof (cases r)
    case (Ret u m1)
    then show "bindo r (\<lambda>u m1. if is_last ?f then Ret (diag_step first ?f d) m1
          else walk E k False (next_addr ?f) (diag_step first ?f d) m1) =
        bindo r (\<lambda>v m. bindo (serve_all E (if is_last ?f then [] else ?fs) m)
          (\<lambda>u m1. Ret (diag_from first (?f # (if is_last ?f then [] else ?fs)) d) m1))"
      using step [OF Ret] by simp
  qed simp_all
qed simp

section \<open>The report\<close>

lemma diag_from_snoc: "diag_from first (fs @ [f]) d = diag_step (first \<and> fs = []) f (diag_from first fs d)"
  by (induction fs arbitrary: first d) auto

lemma list_diag_snoc:
  assumes "length fs < 4294967295"
  shows "list_diag (fs @ [f]) = diag_step (fs = []) f (list_diag fs)"
proof -
  let ?ss = "filter is_start fs"
  have l: "length ?ss < 4294967295" using assms length_filter_le [of is_start fs] by linarith
  have c: "(word_of_nat (length ?ss) + 1 = (1 :: u32)) = (length ?ss = 0)"
    "(word_of_nat (length ?ss) + 1 = (2 :: u32)) = (length ?ss = 1)"
    using l by (auto simp: word_unat_eq_iff unat_word_ariths unat_of_nat_u32)
  consider "?ss = []" | g where "?ss = [g]" | g h t where "?ss = g # h # t"
    by (metis list.exhaust)
  then show ?thesis
    using c by cases (auto simp: list_diag_def diag_step_def frame_diag_def Let_def split: list.split)
qed

lemma diag_list: "length fs < 4294967296 \<Longrightarrow> diag_from True fs diag0 = list_diag fs"
proof (induction fs rule: rev_induct)
  case Nil
  show ?case by (simp add: list_diag_def diag0_def)
next
  case (snoc f fs)
  then show ?case by (simp add: diag_from_snoc list_diag_snoc)
qed

section \<open>The shape of a list\<close>

lemma parse_list_length: "length (parse_list k a m) \<le> k"
  by (induction k arbitrary: a) (simp_all add: Let_def)

lemma parse_list_ends:
  "\<forall>f \<in> set (butlast (parse_list k a m)). \<not> is_last f"
  "0 < length (parse_list k a m) \<Longrightarrow> length (parse_list k a m) < k \<Longrightarrow> is_last (last (parse_list k a m))"
  "0 < k \<Longrightarrow> parse_list k a m \<noteq> []"
proof (induction k arbitrary: a)
  case (Suc k)
  { case 1 show ?case using Suc.IH(1) by (simp add: Let_def) next
    case 2
    show ?case
    proof (cases "is_last (frame_at a m)")
      case False
      then have "0 < k" using 2(2) by (cases k) (simp_all add: Let_def)
      then show ?thesis
        using False 2(2) Suc.IH(2,3) [of "next_addr (frame_at a m)"] by (simp add: Let_def)
    qed (simp add: Let_def) next
    case 3 show ?case by (simp add: Let_def) }
qed simp_all

lemma next_addr_off: "\<exists>n \<le> 1032. next_addr f = f_addr f + word_of_nat n"
proof -
  have "unat (f_ctl f AND 0xff) \<le> 0xff"
    using word_and_le1 [of "f_ctl f" "0xff"] by (simp add: word_le_nat_alt)
  moreover have "(2 + ((f_ctl f AND 0xff) + 1)) * 4 = word_of_nat ((2 + (unat (f_ctl f AND 0xff) + 1)) * 4)"
    by simp
  ultimately show ?thesis
    unfolding next_addr_def by (intro exI [of _ "(2 + (unat (f_ctl f AND 0xff) + 1)) * 4"]) simp
qed

lemma parse_list_addr:
  "f \<in> set (parse_list k a m) \<Longrightarrow> \<exists>n \<le> k * 1032. f_addr f = a + word_of_nat n"
proof (induction k arbitrary: a)
  case (Suc k)
  show ?case
  proof (cases "f = frame_at a m")
    case True
    then show ?thesis by (intro exI [of _ 0]) simp
  next
    case False
    then have "f \<in> set (parse_list k (next_addr (frame_at a m)) m)"
      using Suc.prems by (auto simp: Let_def split: if_splits)
    then obtain n where n: "n \<le> k * 1032" "f_addr f = next_addr (frame_at a m) + word_of_nat n"
      using Suc.IH by blast
    obtain j where "j \<le> 1032" "next_addr (frame_at a m) = a + word_of_nat j"
      using next_addr_off [of "frame_at a m"] by auto
    with n show ?thesis by (intro exI [of _ "j + n"]) (simp add: add.assoc)
  qed
qed simp

text \<open>Every byte the walk reads of a list in the RAM window is in the memory area behind it, no device.\<close>

lemma parse_list_in_ram:
  assumes "ram_window a" "f \<in> set (parse_list 32 a m)" "q \<in> set (desc_bytes f)"
  shows "0x0c000000 \<le> unat q \<and> unat q < 0x0e009000"
proof -
  have a: "0x0c000000 \<le> unat a" "unat a < 0x0e000000"
    using ram_window_ok [OF assms(1)] by (simp_all add: rcv_ok_def)
  obtain n where n: "n \<le> 32 * 1032" "f_addr f = a + word_of_nat n" using parse_list_addr [OF assms(2)] by blast
  then have u: "unat (f_addr f) = unat a + n" using a unat_add_of_nat [of a n] by simp
  obtain k i where ki: "k \<in> {0, 4, 8, 12}" "i < 4" and q: "q = bus (((f_addr f + k) OR 0xa0000000) + word_of_nat i)"
    using assms(3) unfolding in_desc_bytes by blast
  have k: "unat k \<le> 12" using ki(1) by auto
  then have "unat (f_addr f + k) = unat a + n + unat k" using u a n unat_add_lt [of "f_addr f" k] by simp
  then have p: "unat ((f_addr f + k) OR 0xa0000000) = unat a + n + unat k + 0xa0000000"
    using a n k unat_P2ADDR_phys [of "f_addr f + k"] by (simp add: P2ADDR_def)
  then have w: "unat (((f_addr f + k) OR 0xa0000000) + word_of_nat i) = unat a + n + unat k + 0xa0000000 + i"
    using a n k ki(2) unat_add_of_nat [of "(f_addr f + k) OR 0xa0000000" i] by simp
  then have "unat (((f_addr f + k) OR 0xa0000000) + word_of_nat i) mod 536870912 = unat a + n + unat k + i"
    using a n k ki(2) by (auto intro!: mod_nat_eqI)
  then have "unat q = unat a + n + unat k + i"
    using w a n k ki(2) by (simp add: q unat_bus_div div_nat_eqI)
  then show ?thesis using a n k ki(2) by linarith
qed

section \<open>What serving a list may touch\<close>

definition list_area :: "list_frame list \<Rightarrow> u32 \<Rightarrow> bool" where
  "list_area fs q \<longleftrightarrow> (\<exists>f \<in> set fs. is_start f \<and> ram_window (f_rcv f) \<and> reply_at (f_rcv f) q)"

lemma serve_all_ends:
  assumes "transport_ok E"
  shows "set fs \<subseteq> set gs \<Longrightarrow> ends_at (list_area gs) m (serve_all E fs m)"
proof (induction fs arbitrary: m)
  case (Cons f fs)
  have "ends_at (list_area gs) m (if is_start f then serve_frame E (f_hdr f) (f_rcv f) (f_addr f) m else Ret () m)"
    using Cons.prems by (auto intro!: serve_frame_at [OF assms] simp: covers_def list_area_def)
  then show ?case
    unfolding serve_all.simps by (rule ends_ok_bindo) (use Cons in \<open>auto intro: ends_ok_trans\<close>)
qed simp

end
