(* ===== verification/Transport_Props.thy ===== *)
theory Transport_Props
  imports Input_Props Statics Walk
begin

text \<open>
  The properties of the transport and of the configuration hooks of \<^verbatim>\<open>main.c\<close>, and of the fatal screen, the
  cable sense and the serial port.
\<close>

section \<open>The steady service\<close>

text \<open>
  C21. The walk implements its specification: if no reply is directed into the list, the frames served are those of
  the list as it stood when it was triggered, in order, and the report is the one of that list. There are at
  most 32 frames, all but the last without the end mark, and the last with it unless the limit is
  reached; every byte read of a list in the RAM window is memory, and only reply areas of the list are written.
\<close>

theorem walk_serves_list:
  assumes "transport_ok E" "list_quiet (parse_list 32 a m)"
  shows "walk E 32 True a diag0 m = bindo (serve_all E (parse_list 32 a m) m)
      (\<lambda>u m1. Ret (list_diag (parse_list 32 a m)) m1) \<and>
    ends_at (list_area (parse_list 32 a m)) m (walk E 32 True a diag0 m) \<and>
    length (parse_list 32 a m) \<le> 32 \<and> (\<forall>f \<in> set (butlast (parse_list 32 a m)). \<not> is_last f) \<and>
    (length (parse_list 32 a m) < 32 \<longrightarrow> is_last (last (parse_list 32 a m))) \<and>
    (ram_window a \<longrightarrow> (\<forall>f \<in> set (parse_list 32 a m). \<forall>q \<in> set (desc_bytes f).
       0x0c000000 \<le> unat q \<and> unat q < 0x0e009000))"
proof -
  let ?fs = "parse_list 32 a m"
  have l: "length ?fs \<le> 32" by (rule parse_list_length)
  then have w: "walk E 32 True a diag0 m = bindo (serve_all E ?fs m) (\<lambda>u m1. Ret (list_diag ?fs) m1)"
    using walk_parse [OF assms] diag_list [of ?fs] by simp
  moreover have "ends_at (list_area ?fs) m (walk E 32 True a diag0 m)"
    unfolding w by (rule ends_ok_bindo [OF serve_all_ends [OF assms(1) subset_refl]]) simp
  ultimately show ?thesis
    using l parse_list_ends [of 32 a m] parse_list_in_ram [of a _ m] by simp
qed

text \<open>A list of two frames: a probe for the board's status and a bare reset.\<close>

definition demo_list :: machine where
  "demo_list = st32 0xac0e0024 0x0c0f1000 (st32 0xac0e0020 0x80000300 (st32 0xac0e000c 0x1234
     (st32 0xac0e0008 0x00002001 (st32 0xac0e0004 0x0c0f0000 (st32 0xac0e0000 5 demo_zero)))))"

lemma demo_list_parsed:
  "parse_list 32 0x0c0e0000 demo_list =
    [\<lparr>f_addr = 0x0c0e0000, f_ctl = 5, f_rcv = 0x0c0f0000, f_hdr = 0x2001, f_pay = 0x1234\<rparr>,
     \<lparr>f_addr = 0x0c0e0020, f_ctl = 0x80000300, f_rcv = 0x0c0f1000, f_hdr = 0, f_pay = 0\<rparr>]"
  by code_simp

lemma demo_list_quiet: "list_quiet (parse_list 32 0x0c0e0000 demo_list)"
  unfolding demo_list_parsed list_quiet_def
  by (simp add: desc_bytes_def reply_at_def maple_area_def bus_def is_start_def upt_rec)

lemma walk_serves_list_witness:
  "ends_at (list_area (parse_list 32 0x0c0e0000 demo_list)) demo_list (walk pad_env 32 True 0x0c0e0000 diag0 demo_list)
    \<and> length (parse_list 32 0x0c0e0000 demo_list) = 2"
proof
  show "length (parse_list 32 0x0c0e0000 demo_list) = 2" by (simp add: demo_list_parsed)
qed (rule walk_serves_list [OF pad_transport_ok demo_list_quiet, THEN conjunct2, THEN conjunct1])

text \<open>
  The walk over a descriptor list looks at no more than 32 frames, however the list is linked, and
  ends in one of the three ways a service may end.
\<close>

theorem walk_bounded:
  assumes "transport_ok E"
  shows "ends_ok m (walk E 32 True addr diag0 m) \<and>
    (walk E 32 True addr diag0 m = Ret d m1 \<longrightarrow> unat (dg_frames d) \<le> 32)"
  using walk_ends [OF assms] walk_frames [of E 32 True addr diag0 m d m1] by (auto simp: diag0_def)

lemma walk_bounded_witness: "ends_ok demo_zero (walk pad_env 32 True 0x0c0e0000 diag0 demo_zero)"
  using walk_bounded [OF pad_transport_ok, of demo_zero "0x0c0e0000"] by blast

text \<open>
  C5. The steady service never hangs: after the engine has run, it returns the engine's verdict with
  the mirrored busy bit clear and nothing touched outside the reply area, or the pads ask for a
  reboot, or an unknown subcommand is fatal.
\<close>

theorem steady_completes:
  assumes "transport_ok E"
  shows "(\<exists>m1. shim_maple_steady E m = Ret (fst (engine E (st32 0x8c1c9790 1 m))) m1 \<and>
      serves (snd (engine E (st32 0x8c1c9790 1 m))) m1 \<and> MMIR 0x18 m1 AND 1 = 0) \<or>
    (\<exists>m1. shim_maple_steady E m = Reboot m1) \<or> (\<exists>a b m1. shim_maple_steady E m = Die 3 a b m1)"
  by (rule steady_cases [OF assms])

lemma steady_completes_witness:
  "shim_maple_steady pad_env demo_zero \<noteq> Hang"
  using steady_completes [OF pad_transport_ok, of demo_zero] by auto

text \<open>
  C33. The other builders. The boot builder returns with \<^verbatim>\<open>SB_MDST\<close> reading 0; where the subcommand of its command
  block has a captured reply, that is at the block's receive address and the command byte is noted for the
  next receive. The per-frame builder refuses with -3 and changes nothing while the input subsystem is not
  ready. Otherwise it puts the live pad frame at the buffer the double-buffer index selects, stores that address in the
  descriptor, flips the index, clears the pending bit alone and returns 0, or the pads ask for a reboot;
  it writes those three words and its reply, no other byte.
\<close>

theorem builders_complete:
  assumes "transport_ok E"
  shows "(shim_maple_boot E arg0 m = Ret u m1 \<longrightarrow> ld32 SB_MDST m1 = 0) \<and>
   (rcv_ok (GW (GW 0x8c0e6400 m + 0x04) m) \<longrightarrow> replay (ucast (GB (GW 0x8c0e6400 m + 0x0c) m)) = Some b \<longrightarrow>
     (\<exists>m1. shim_maple_boot E arg0 m = Ret () m1 \<and>
      load_bytes (P2ADDR (GW (GW 0x8c0e6400 m + 0x04) m)) (length (blob_bytes E b)) m1 = blob_bytes E b \<and>
      pending_jvs (maind m1) = (let sub = GB (GW 0x8c0e6400 m + 0x0c) m in
        if sub \<in> {0x17, 0x19, 0x21} then GB (arg0 + 4) m else if sub = 0x27 then 0xff else pending_jvs (maind m)))) \<and>
   (GW (GW 0x8c0e8410 m + 0x0fc0) m \<noteq> 1 \<longrightarrow> shim_maple_entry E m = Ret (- 3) m) \<and>
   (GW (GW 0x8c0e8410 m + 0x0fc0) m = 1 \<longrightarrow> entry_apart m \<longrightarrow>
     (\<exists>m2. shim_maple_entry E m = Ret 0 m2 \<and> GW (entry_desc m + 0x04) m2 = entry_recv m \<and>
      GW (entry_index m) m2 = GW (entry_index m) m XOR 1 \<and>
      GW (entry_desc m + 0x18) m2 = GW (entry_desc m + 0x18) m AND NOT 1 \<and>
      load_bytes (P2ADDR (entry_recv m)) 64 m2 =
        jvs_frame (ucast (raw_cache_a (maind m2))) (ucast (raw_cache_b (maind m2))) \<and>
      touches (\<lambda>q. reply_at (entry_recv m) q \<or> (\<exists>a \<in> set (entry_words m). in_block a 4 q)) m m2) \<or>
     (\<exists>m2. shim_maple_entry E m = Reboot m2))"
  using boot_completes [of E arg0 m u m1] boot_serves [OF assms, of m b arg0] entry_serves [OF assms, of m]
  by (auto simp: shim_maple_entry_def)

text \<open>A game that is ready: its second buffer is next, and the descriptor has the pending bit and another one set.\<close>

definition demo_ready :: machine where
  "demo_ready = st32 0x8c0ea218 3 (st32 0x8c0ea0f4 0x8c0ea200 (st32 0x8c0ea0ac 0x8c0fd8e0 (st32 0x8c0ea0b8 1
     (st32 0x8c0e9fc0 1 (st32 0x8c0e8410 0x8c0e9000 demo_zero)))))"

lemma demo_ready_words:
  "GW 0x8c0e8410 demo_ready = 0x8c0e9000" "GW 0x8c0e9fc0 demo_ready = 1" "GW 0x8c0ea0b8 demo_ready = 1"
  "GW 0x8c0ea0ac demo_ready = 0x8c0fd8e0" "GW 0x8c0ea0f4 demo_ready = 0x8c0ea200" "GW 0x8c0ea218 demo_ready = 3"
  by (simp_all add: demo_ready_def GW_def ld32_st32_same ld32_st32_other cells_apart_def span_def unat_bus)

lemma builders_complete_witness:
  "(\<exists>m2. shim_maple_entry pad_env demo_ready = Ret 0 m2 \<and> GW 0x8c0ea204 m2 = 0x0c0fd8e0 \<and>
      GW 0x8c0ea0b8 m2 = 0 \<and> GW 0x8c0ea218 m2 = 2) \<or> (\<exists>m2. shim_maple_entry pad_env demo_ready = Reboot m2)"
proof -
  have d: "entry_desc demo_ready = 0x8c0ea200" "entry_index demo_ready = 0x8c0ea0b8" "entry_recv demo_ready = 0x0c0fd8e0"
    by (simp_all add: entry_desc_def entry_index_def entry_recv_def demo_ready_words)
  have w: "entry_words demo_ready = [0x8c0ea204, 0x8c0ea0b8, 0x8c0ea218]"
    by (simp add: entry_words_def d GA_def)
  have "\<not> reply_at 0x0c0fd8e0 (bus (a + word_of_nat i))" if "a \<in> {0x8c0ea204, 0x8c0ea0b8, 0x8c0ea218}" "i < 4" for a i
  proof -
    have "span a 4" "unat (bus a) \<in> {0x0c0ea204, 0x0c0ea0b8, 0x0c0ea218}"
      using that(1) by (auto simp: span_def unat_bus)
    then show ?thesis
      using span_bus [of a 4 i] that(2) by (auto simp: reply_at_def maple_area_def)
  qed
  then have "entry_apart demo_ready"
    unfolding entry_apart_def w d by (simp add: rcv_ok_def cells_apart_def span_def unat_bus)
  with builders_complete [OF pad_transport_ok, of 0 demo_ready "()" demo_ready EEPROM_IMG] show ?thesis
    by (auto simp: d demo_ready_words)
qed

text \<open>
  C30. The bring-up ladder: the answer to any request goes back to its sender (the two address bytes
  swapped), carries the code and the word count that belong to the request, and the extended device
  request is answered with the board's whole 48-character identification.
\<close>

theorem ladder_answers:
  assumes "rcv_ok rcv"
  shows "ld8 (P2ADDR rcv) (mie_probe_reply E cmd fh rcv frame m) = ucast (probe_code cmd frame m) \<and>
    ld8 (P2ADDR rcv + 1) (mie_probe_reply E cmd fh rcv frame m) = ucast (drop_bit 16 fh) \<and>
    ld8 (P2ADDR rcv + 2) (mie_probe_reply E cmd fh rcv frame m) = ucast (drop_bit 8 fh) \<and>
    ld8 (P2ADDR rcv + 3) (mie_probe_reply E cmd fh rcv frame m) = ucast (probe_count cmd frame m) \<and>
    load_bytes (P2ADDR rcv + 4) 28 (mie_probe_reply E 0x82 fh rcv frame m)
      @ load_bytes (P2ADDR rcv + 36) 20 (mie_probe_reply E 0x82 fh rcv frame m) = map of_char mie_id48"
  by (intro conjI probe_bytes [OF assms] probe_id_text [OF assms])

lemma ladder_answers_witness:
  "ld8 (P2ADDR 0x0c0fd8e0 + 1) (mie_probe_reply pad_env 0x82 0x00402082 0x0c0fd8e0 0 demo_zero) = 0x40"
  using ladder_answers [of "0x0c0fd8e0" pad_env "0x82" "0x00402082" 0 demo_zero] by (simp add: rcv_ok_def)

section \<open>The configuration hooks\<close>

text \<open>
  C31. The synchronous enumeration: what the game receives is the reply that the table of the enumeration has for
  the command it transmitted just before, past the header of the captured frame, and the first reset's for any
  command outside the table. A second receive gives the same again, and no call writes memory.
\<close>

theorem enumeration_pairs:
  assumes "release E"
  shows "fst (shim_cfg_tx E node arg1 len payload m) = 0 \<and>
    ((GB payload m, b) \<in> set enum_table \<longrightarrow>
      fst (shim_cfg_rx E (snd (shim_cfg_tx E node arg1 len payload m))) = drop 0x15 (blob_bytes E b)) \<and>
    (GB payload m \<notin> fst ` set enum_table \<longrightarrow>
      fst (shim_cfg_rx E (snd (shim_cfg_tx E node arg1 len payload m))) = drop 0x15 (blob_bytes E MIE_JVSF1)) \<and>
    fst (shim_cfg_rx E (snd (shim_cfg_rx E (snd (shim_cfg_tx E node arg1 len payload m)))))
      = fst (shim_cfg_rx E (snd (shim_cfg_tx E node arg1 len payload m))) \<and>
    touches (\<lambda>q. False) m (snd (shim_cfg_rx E (snd (shim_cfg_tx E node arg1 len payload m))))"
  using cfg_enum [OF assms] cfg_select_table [of "GB payload m"] cfg_rx_again [OF assms] by simp

lemma enumeration_pairs_witness:
  "fst (shim_cfg_rx tag_env (snd (shim_cfg_tx tag_env 1 0 4 0x8c0e0000 (st8 0x8c0e0000 0x12 demo_zero)))) = replicate 235 0x12"
proof -
  have "GB 0x8c0e0000 (st8 0x8c0e0000 0x12 demo_zero) = 0x12" by (simp add: GB_def ld8_st8_same)
  moreover have "(0x12, MIE_JVS12) \<in> set enum_table" by (simp add: enum_table_def)
  moreover have "drop 0x15 (blob_bytes tag_env MIE_JVS12) = replicate 235 0x12" by (simp add: tag_env_def drop_replicate)
  ultimately show ?thesis
    using enumeration_pairs [OF transport_okD(2) [OF tag_transport_ok], of 1 0 4 "0x8c0e0000" "st8 0x8c0e0000 0x12 demo_zero" MIE_JVS12]
    by metis
qed

text \<open>
  C32. The EEPROM read fills its three buffers, which touch each other, with the whole image and the two
  copies of the system section, and writes nothing else.
\<close>

theorem ee_read_fills:
  assumes "release E" "128 \<le> length (blob_bytes E EEPROM_IMG)"
  shows "load_bytes 0x8c1c954c 128 (shim_ee_read E m) = take 128 (blob_bytes E EEPROM_IMG) \<and>
    load_bytes 0x8c1c9528 18 (shim_ee_read E m) = take 18 (blob_bytes E EEPROM_IMG) \<and>
    load_bytes 0x8c1c953a 18 (shim_ee_read E m) = take 18 (drop 18 (blob_bytes E EEPROM_IMG)) \<and>
    touches (\<lambda>q. 0x0c1c9528 \<le> unat q \<and> unat q < 0x0c1c95cc) m (shim_ee_read E m)"
  using ee_read_buffers [OF assms] ee_read_touches [OF assms] by blast

lemma ee_read_fills_witness: "load_bytes 0x8c1c9528 18 (shim_ee_read pad_env demo_zero) = replicate 18 0"
  using ee_read_fills [OF transport_okD(2) [OF pad_transport_ok], of demo_zero] by simp

section \<open>Video, errors, serial output\<close>

text \<open>
  C34. The cable is sensed once: every later question gets the same answer from the latch and touches no
  register; the monitor hook returns 0 and leaves the four words the game's chooser reads, keyed on
  that answer.
\<close>

theorem cable_decides:
  "shim_cable_is_vga (snd (shim_cable_is_vga m)) = (fst (shim_cable_is_vga m), snd (shim_cable_is_vga m)) \<and>
   fst (shim_monitor_set m) = 0 \<and>
   ld32 0x8c0c451c (snd (shim_monitor_set m)) = (if fst (shim_cable_is_vga m) then 0 else 2) \<and>
   ld32 0x8c0c4524 (snd (shim_monitor_set m)) = (if fst (shim_cable_is_vga m) then 0 else 1) \<and>
   ld32 0x8c0c4520 (snd (shim_monitor_set m)) = 0 \<and> ld32 0x8c0c4518 (snd (shim_monitor_set m)) = 1 \<and>
   fst (shim_cable_is_vga (snd (shim_monitor_set m))) = fst (shim_cable_is_vga m)"
  by (intro conjI cable_latched(1) monitor_cable monitor_words [OF surjective_pairing surjective_pairing])

text \<open>
  C40. The fatal screen leaves a record: the error block holds the code, both arguments and the magic
  number for whoever inspects memory, and no other byte of main memory has changed.
\<close>

theorem die_leaves_record:
  assumes "\<not> SHIM_SERIAL E"
  shows "\<exists>m1. (shim_die E code a b m :: 'a outcome) = Die code a b m1 \<and> ld32 (P2ADDR SHIM_ERR) m1 = code \<and>
    ld32 (P2ADDR SHIM_ERR + 4) m1 = a \<and> ld32 (P2ADDR SHIM_ERR + 8) m1 = b \<and>
    ld32 (P2ADDR SHIM_ERR + 12) m1 = 0xdeadcafe \<and> dcache m1 = dcache m \<and>
    (\<forall>q. 0x0c000000 \<le> unat q \<longrightarrow> unat q < 0x10000000 \<longrightarrow> \<not> (0x0cfc8000 \<le> unat q \<and> unat q < 0x0cfc8010) \<longrightarrow>
       ram m1 q = ram m q)"
  by (rule die_block [OF assms])

lemma die_leaves_record_witness:
  "\<exists>m1. (shim_die demo_env 2 0x1000 0x0c100000 demo_zero :: unit outcome) = Die 2 0x1000 0x0c100000 m1 \<and>
     ld32 (P2ADDR SHIM_ERR + 12) m1 = 0xdeadcafe"
  using die_leaves_record [where 'a = unit, of demo_env 2 "0x1000" "0x0c100000" demo_zero] by auto

text \<open>
  The serial port is waited for a bounded time: the wait ends after at most 1000002 reads of the
  status register, with success exactly if the last read shows the transmitter ready; it gives up
  only after 1000002 reads that did not.
\<close>

theorem scif_bounded:
  assumes "scif_wait E 0 m = (ok, m1)"
  shows "\<exists>k \<le> 1000001. m1 = (scif_hw E ^^ Suc k) m \<and> (ok \<longleftrightarrow> ld16 SCFSR2 m1 AND 0x20 \<noteq> 0) \<and>
    (\<forall>j < k. ld16 SCFSR2 ((scif_hw E ^^ Suc j) m) AND 0x20 = 0) \<and> (ok \<or> k = 1000001)"
  using scif_wait_polls [OF assms] by simp

lemma scif_bounded_witness:
  "\<exists>k. scif_wait (demo_env\<lparr>scif_hw := st16 SCFSR2 0x20\<rparr>) 0 demo_zero = (True, (st16 SCFSR2 0x20 ^^ Suc k) demo_zero)"
proof -
  let ?E = "demo_env\<lparr>scif_hw := st16 SCFSR2 0x20\<rparr>"
  have "ld16 SCFSR2 (st16 SCFSR2 0x20 m) = 0x20" for m
    by (rule ld16_st16_same) (simp add: span_def SCFSR2_def)
  then have "scif_wait ?E 0 demo_zero = (True, st16 SCFSR2 0x20 demo_zero)"
    by (simp add: scif_wait.simps Let_def)
  from scif_bounded [OF this] this show ?thesis by auto
qed

section \<open>The shim's variables\<close>

text \<open>
  C22. The variables of \<^verbatim>\<open>main.c\<close> and \<^verbatim>\<open>util.c\<close> hold what they are meant to hold in every state that can be reached from
  their initial values, by the frame service, both builders and all ten hooks in any order: the paint-once
  marks keep their guard bit, the pad caches are 16 bits wide, the trace budget and the log-once flags only
  count down, the polling window is unset or one of the five of the timer's prescalers, and the cable latch is
  unset or two bits.
\<close>

theorem statics_preserved:
  assumes "transport_ok E" "engine_keeps E" "sdk_keeps E" "main_run E m"
  shows "bit (hud_marks (maind m)) 7 \<and> unat (raw_cache_a (maind m)) < 65536 \<and> unat (raw_cache_b (maind m)) < 65536 \<and>
    wr_left (maind m) \<le> 32 \<and> ee_logged (maind m) \<le> 1 \<and> eeread_logged (maind m) \<le> 1 \<and> \<not> bit (cfg_seen (maind m)) 7 \<and>
    pad_thresh (maind m) \<in> {1, 100000, 25000, 6250, 1562, 390} \<and>
    (cable_latch (utild m) \<le> 3 \<or> cable_latch (utild m) = 0xff)"
  using main_run_ok [OF transport_okD(1,2) [OF assms(1)] assms(2-4)]
  unfolding statics_ok_def main_ok_def by blast

lemma statics_preserved_witness:
  "let m = snd (shim_monitor_set (shim_ee_read pad_env demo_zero))
   in main_run pad_env m \<and> (cable_latch (utild m) \<le> 3 \<or> cable_latch (utild m) = 0xff) \<and> wr_left (maind m) \<le> 32"
proof -
  have "main_run pad_env demo_zero" by (rule main_run.power_on) (simp_all add: demo_zero_def)
  from main_run.hooked [OF main_run.hooked [OF this hook.intros(3)] hook.intros(9)]
  have r: "main_run pad_env (snd (shim_monitor_set (shim_ee_read pad_env demo_zero)))" .
  have "engine_keeps pad_env" "sdk_keeps pad_env" by (simp_all add: engine_keeps_def sdk_keeps_def pad_env_def)
  from statics_preserved [OF pad_transport_ok this r] r show ?thesis unfolding Let_def by blast
qed

end
