(* ===== verification/Show.thy ===== *)
theory Show
  imports Config Cart_Lemmas
begin

text \<open>
  What painting and tracing may change, byte by byte and register by register: the painters the frame buffer that
  is being shown and the blanking bit, the traces the serial port.
\<close>

section \<open>Painting\<close>

text \<open>The 640 x 480 pixels of the frame buffer at \<open>fb\<close>, and the display control register.\<close>

definition on_screen :: "u32 \<Rightarrow> u32 \<Rightarrow> bool" where
  "on_screen fb q \<longleftrightarrow> (unat fb - 0xa0000000 \<le> unat q \<and> unat q < unat fb - 0xa0000000 + 614400) \<or>
     (0x005f80e8 \<le> unat q \<and> unat q < 0x005f80ec)"

definition same_state :: "machine \<Rightarrow> machine \<Rightarrow> bool" where
  "same_state m m' \<longleftrightarrow> dcache m' = dcache m \<and> bios m' = bios m \<and> cpu m' = cpu m \<and> gds m' = gds m \<and>
     cartd m' = cartd m \<and> gdd m' = gdd m \<and> mapled m' = mapled m \<and> utild m' = utild m \<and>
     maind m' = maind m \<and> diagd m' = diagd m"

text \<open>Only the shown pixels have changed, and only the display control register has been stored to.\<close>

definition paints :: "machine \<Rightarrow> machine \<Rightarrow> bool" where
  "paints m m' \<longleftrightarrow> (\<forall>q. \<not> on_screen (live_fb m) q \<longrightarrow> ram m' q = ram m q) \<and> same_state m m' \<and>
     (\<exists>vs. io m' = io m @ map (Pair VO_CONTROL) vs)"

lemma paints_refl [simp, intro]: "paints m m"
  by (auto simp: paints_def same_state_def intro: exI [of _ "[]"])

lemma paints_live_fb: "paints m m' \<Longrightarrow> live_fb m' = live_fb m"
proof -
  assume p: "paints m m'"
  have s: "span FB_R_SOF1 4" "unat (bus FB_R_SOF1) = 0x005f8050" "\<not> cached FB_R_SOF1"
    by (simp_all add: FB_R_SOF1_def span_def unat_bus cached_div)
  have "ld8 (FB_R_SOF1 + word_of_nat i) m' = ld8 (FB_R_SOF1 + word_of_nat i) m" if "i < 4" for i
  proof -
    have "unat (bus (FB_R_SOF1 + word_of_nat i)) = 0x005f8050 + i" "\<not> cached (FB_R_SOF1 + word_of_nat i)"
      using span_bus [OF s(1) that] span_cached [OF s(1) that] s by simp_all
    then show ?thesis
      using p that live_fb_range [of m] by (auto simp: ld8_def paints_def on_screen_def)
  qed
  from this [of 0] this [of 1] this [of 2] this [of 3] show ?thesis
    by (simp add: live_fb_def ld32_def)
qed

lemma paints_trans [trans]: "paints a b \<Longrightarrow> paints b c \<Longrightarrow> paints a c"
proof -
  assume p: "paints a b" "paints b c"
  then obtain vs ws where "io b = io a @ map (Pair VO_CONTROL) vs" "io c = io b @ map (Pair VO_CONTROL) ws"
    by (auto simp: paints_def)
  then have "io c = io a @ map (Pair VO_CONTROL) (vs @ ws)" by simp
  then have "\<exists>vs. io c = io a @ map (Pair VO_CONTROL) vs" ..
  with p paints_live_fb [OF p(1)] show ?thesis by (simp add: paints_def same_state_def)
qed

lemma paints_fold: "(\<And>x m'. x \<in> set xs \<Longrightarrow> paints m m' \<Longrightarrow> paints m (f x m')) \<Longrightarrow> paints m m' \<Longrightarrow> paints m (fold f xs m')"
  by (induction xs arbitrary: m') auto

lemma paints_st16:
  assumes "paints m m'" "unat (live_fb m) \<le> unat a" "unat a + 2 \<le> unat (live_fb m) + 614400"
  shows "paints m (st16 a c m')"
proof -
  have u: "0xa5000000 \<le> unat a" "unat a + 2 \<le> 0xa6100000" using assms(2,3) live_fb_range [of m] by linarith+
  then have "unat a div 536870912 = 5" "unat a mod 536870912 = unat a - 0xa0000000"
    by (simp_all add: div_nat_eqI mod_nat_eqI)
  then have a: "\<not> cached a" "span a 2" "unat (bus a) = unat a - 0xa0000000"
    using u by (simp_all add: cached_div span_def unat_bus_div)
  have r: "dcache (st16 a c m') = dcache m'" "ram (st16 a c m') q = ram m' q" if "\<not> on_screen (live_fb m) q" for q
    using store_bytes_uncached [OF a(1), of "[ucast c, ucast (drop_bit 8 c)]" m'] a that assms(2,3) live_fb_range [of m]
    by (auto simp: st16_bytes on_screen_def simp del: store_bytes.simps)
  have d: "dcache (st16 a c m') = dcache m'"
    using store_bytes_uncached(1) [OF a(1), of "[ucast c, ucast (drop_bit 8 c)]" m'] a
    by (simp add: st16_bytes del: store_bytes.simps)
  show ?thesis using assms(1) r(2) d by (simp add: paints_def same_state_def)
qed

lemma paints_put_px:
  assumes "paints m m'" "unat fb = unat (live_fb m) + 2 * j" "i + j < 640 * 480"
  shows "paints m (put_px fb i c m')"
proof -
  have "unat (fb + 2 * word_of_nat i) = unat fb + 2 * i"
    using assms(2,3) live_fb_range [of m] unat_add_of_nat [of fb "2 * i"] by simp
  then show ?thesis
    unfolding put_px_def using assms by (intro paints_st16) simp_all
qed

lemma paints_unblank: "paints m m' \<Longrightarrow> paints m (unblank m')"
proof -
  assume p: "paints m m'"
  have s: "\<not> cached VO_CONTROL" "span VO_CONTROL 4" "unat (bus VO_CONTROL) = 0x005f80e8"
    by (simp_all add: VO_CONTROL_def span_def unat_bus cached_div)
  have st: "dcache (st32 VO_CONTROL v m') = dcache m'"
    "\<not> on_screen fb q \<Longrightarrow> ram (st32 VO_CONTROL v m') q = ram m' q" for v fb q
    using store_bytes_uncached [OF s(1), of "[ucast v, ucast (drop_bit 8 v), ucast (drop_bit 16 v), ucast (drop_bit 24 v)]" m'] s(2,3)
    by (auto simp: st32_bytes on_screen_def simp del: store_bytes.simps)
  obtain vs where v: "io m' = io m @ map (Pair VO_CONTROL) vs" using p by (auto simp: paints_def)
  have "io (unblank m') = io m @ map (Pair VO_CONTROL) (vs @ [ld32 VO_CONTROL m' AND NOT 8])"
    by (simp add: unblank_def v)
  then have "\<exists>vs. io (unblank m') = io m @ map (Pair VO_CONTROL) vs" ..
  then show ?thesis
    using p st by (simp add: paints_def same_state_def) (simp add: unblank_def reg_w_def)
qed

lemma paints_hex_c:
  assumes "paints m m'" "x \<le> 560" "y \<le> 470"
  shows "paints m (hex_paint_c x y val fg bg m')"
proof -
  have u: "paints m (unblank m')" by (rule paints_unblank [OF assms(1)])
  have cell: "paints m (hex_cell (live_fb m) x y val fg bg d r c m1)"
    if "paints m m1" "d < 8" "r < 5" "c < 3" for d r c m1
  proof -
    have "y + r * 2 + 1 \<le> 479" "x + d * 10 + c * 2 + 1 < 640" using that assms by linarith+
    then have "(y + r * 2 + 1) * 640 \<le> 479 * 640" by (intro mult_le_mono1)
    then have "(y + r * 2 + 1) * 640 + (x + d * 10 + c * 2) + 1 < 640 * 480"
      "(y + r * 2) * 640 + (x + d * 10 + c * 2) + 1 < 640 * 480"
      using \<open>x + d * 10 + c * 2 + 1 < 640\<close> by (simp_all add: algebra_simps)
    then show ?thesis
      unfolding hex_cell_def Let_def by (intro paints_put_px [where j = 0] that(1)) simp_all
  qed
  show ?thesis
    unfolding hex_paint_c_def Let_def paints_live_fb [OF u]
    by (intro paints_fold u cell) simp_all
qed

lemma paints_hex: "paints m m' \<Longrightarrow> x \<le> 560 \<Longrightarrow> y \<le> 470 \<Longrightarrow> paints m (hex_paint x y v m')"
  by (simp add: hex_paint_def paints_hex_c)

lemma paints_shim_hex: "paints m m' \<Longrightarrow> x \<le> 560 \<Longrightarrow> y \<le> 470 \<Longrightarrow> paints m (shim_hex E x y v m')"
  by (simp add: shim_hex_def paints_hex)

text \<open>A mark lies in the first rows: by halfword offset, the slots of the second row start at 12 x 640.\<close>

lemma slot_even: "slot < 32 \<Longrightarrow> \<exists>j \<le> 8192. unat (if slot \<ge> 16 then 2 * (12 * 640 + (slot - 16) * 24) else 2 * (slot * 24) :: u32) = 2 * j"
  for slot :: u32
proof -
  assume s: "slot < 32"
  have "even (unat (2 * w :: u32))" for w :: u32
    by (simp add: unat_word_ariths dvd_mod)
  then have "even (unat (if slot \<ge> 16 then 2 * (12 * 640 + (slot - 16) * 24) else 2 * (slot * 24) :: u32))"
    by (cases "slot \<ge> 16") (simp_all only: if_True if_False)
  then obtain j where j: "unat (if slot \<ge> 16 then 2 * (12 * 640 + (slot - 16) * 24) else 2 * (slot * 24) :: u32) = 2 * j" ..
  have "j \<le> 8192" using slot_offset [OF s] unfolding j by simp
  with j show ?thesis by blast
qed

lemma paints_mark:
  assumes "paints m m'" "slot < 32"
  shows "paints m (shim_mark E slot c m')"
proof -
  let ?off = "if slot \<ge> 16 then 2 * (12 * 640 + (slot - 16) * 24) else 2 * (slot * 24) :: u32"
  have u: "paints m (unblank m')" by (rule paints_unblank [OF assms(1)])
  obtain j where j: "unat ?off = 2 * j" "j \<le> 8192" using slot_even [OF assms(2)] by blast
  have fb: "unat (live_fb m + ?off) = unat (live_fb m) + 2 * j"
    using j live_fb_range [of m] unat_add_lt [of "live_fb m" ?off] by simp
  have "paints m (fold (\<lambda>y. fold (\<lambda>x. put_px (live_fb m + ?off) (y * 640 + x) c) [0 ..< 16]) [0 ..< 8] (unblank m'))"
  proof (intro paints_fold u paints_put_px [OF _ fb])
    fix y x :: nat
    assume "y \<in> set [0 ..< 8]" "x \<in> set [0 ..< 16]"
    then show "y * 640 + x + j < 640 * 480" using j(2) by auto
  qed
  then show ?thesis
    using assms(1) by (simp add: shim_mark_def Let_def paints_live_fb [OF u] split: if_splits)
qed

section \<open>Tracing\<close>

definition on_serial :: "u32 \<Rightarrow> bool" where
  "on_serial q \<longleftrightarrow> 0xffe80000 \<le> unat q \<and> unat q < 0xffe80028"

definition traces :: "machine \<Rightarrow> machine \<Rightarrow> bool" where
  "traces m m' \<longleftrightarrow> (\<forall>q. \<not> on_serial q \<longrightarrow> ram m' q = ram m q) \<and> same_state m m' \<and>
     (\<exists>ws. io m' = io m @ ws \<and> fst ` set ws \<subseteq> {SCFTDR2, SCFSR2})"

text \<open>The serial port moves its own registers only.\<close>

definition port_ok :: "env \<Rightarrow> bool" where
  "port_ok E \<longleftrightarrow> (\<forall>m. (\<forall>q. \<not> on_serial q \<longrightarrow> ram (scif_hw E m) q = ram m q) \<and> same_state m (scif_hw E m) \<and>
     io (scif_hw E m) = io m)"

lemma traces_refl [simp, intro]: "traces m m"
  by (auto simp: traces_def same_state_def)

lemma traces_trans [trans]: "traces a b \<Longrightarrow> traces b c \<Longrightarrow> traces a c"
proof -
  assume p: "traces a b" "traces b c"
  then obtain vs ws where "io b = io a @ vs" "io c = io b @ ws" "fst ` set vs \<subseteq> {SCFTDR2, SCFSR2}"
    "fst ` set ws \<subseteq> {SCFTDR2, SCFSR2}"
    unfolding traces_def by blast
  then have "io c = io a @ (vs @ ws) \<and> fst ` set (vs @ ws) \<subseteq> {SCFTDR2, SCFSR2}" by (simp add: image_Un)
  then have "\<exists>ws. io c = io a @ ws \<and> fst ` set ws \<subseteq> {SCFTDR2, SCFSR2}" ..
  with p show ?thesis by (simp add: traces_def same_state_def)
qed

lemma traces_regs:
  "traces m m' \<Longrightarrow> traces m (reg_w8 SCFTDR2 v m')" "traces m m' \<Longrightarrow> traces m (reg_w16 SCFSR2 w m')"
proof -
  have a: "\<not> cached SCFTDR2" "\<not> cached SCFSR2" "span SCFTDR2 1" "span SCFSR2 2" "unat (bus SCFTDR2) = 0xffe8000c"
    "unat (bus SCFSR2) = 0xffe80010"
    by (simp_all add: SCFTDR2_def SCFSR2_def cached_div span_def unat_bus)
  have st: "dcache (st8 SCFTDR2 v x) = dcache x" "\<not> on_serial q \<Longrightarrow> ram (st8 SCFTDR2 v x) q = ram x q" for x q
    using a by (auto simp: st8_def on_serial_def)
  have su: "dcache (st16 SCFSR2 w x) = dcache x" "\<not> on_serial q \<Longrightarrow> ram (st16 SCFSR2 w x) q = ram x q" for x q
    using store_bytes_uncached [OF a(2), of "[ucast w, ucast (drop_bit 8 w)]" x] a
    by (auto simp: st16_bytes on_serial_def simp del: store_bytes.simps)
  have io: "\<exists>ws. io m' @ [(r, x)] = io m @ ws \<and> fst ` set ws \<subseteq> {SCFTDR2, SCFSR2}"
    if "traces m m'" "r \<in> {SCFTDR2, SCFSR2}" for r x
    using that unfolding traces_def by (elim conjE exE) (rule exI [of _ "ws @ [(r, x)]" for ws], auto)
  show "traces m m' \<Longrightarrow> traces m (reg_w8 SCFTDR2 v m')" "traces m m' \<Longrightarrow> traces m (reg_w16 SCFSR2 w m')"
    using st su io by (simp_all add: traces_def same_state_def reg_w8_def reg_w16_def)
qed

lemma traces_hw: "port_ok E \<Longrightarrow> traces m m' \<Longrightarrow> traces m (scif_hw E m')"
  by (rule traces_trans) (auto simp: port_ok_def traces_def)

lemma traces_wait: "port_ok E \<Longrightarrow> traces m m' \<Longrightarrow> traces m (snd (scif_wait E g m'))"
proof (induction E g m' rule: scif_wait.induct)
  case (1 E g m')
  then show ?case
    using traces_hw [OF 1(2,3)] by (simp add: scif_wait.simps [of E g m'] Let_def)
qed

lemma traces_putc: "port_ok E \<Longrightarrow> traces m m' \<Longrightarrow> traces m (scif_putc E c m')"
  using traces_wait [of E m m' 0]
  by (auto simp: scif_putc_def Let_def traces_regs split: prod.split bool.split)

lemma traces_puts: "port_ok E \<Longrightarrow> traces m m' \<Longrightarrow> traces m (scif_puts E s m')"
  by (induction s arbitrary: m') (simp_all add: scif_puts.simps traces_putc Let_def)

lemma traces_puthex: "port_ok E \<Longrightarrow> traces m m' \<Longrightarrow> traces m (scif_puthex E v m')"
  unfolding scif_puthex_def by (simp add: traces_putc)

lemmas trace_intros = traces_puts traces_puthex traces_putc traces_refl

end
