(* ===== verification/Diag_Lemmas.thy ===== *)
theory Diag_Lemmas
  imports Show Loader
begin

text \<open>
  The diagnostic builds: the start-up timeline and the probes of \<^verbatim>\<open>main.c\<close> paint and count, and change
  nothing else; the clock of the timeline is an invariant over every order of ticks and milestones;
  the loader's timing report prints what was measured.
\<close>

section \<open>Painting only\<close>

text \<open>\<open>shown m m'\<close>: from \<open>m\<close> to \<open>m'\<close> only the screen and the diagnostic statics have changed.\<close>

definition shown :: "machine \<Rightarrow> machine \<Rightarrow> bool" where
  "shown m m' \<longleftrightarrow> paints (m\<lparr>diagd := diagd m'\<rparr>) m'"

lemma live_fb_diagd [simp]: "live_fb (m\<lparr>diagd := d\<rparr>) = live_fb m"
  by (simp add: live_fb_def)

lemma paints_diagd: "paints m m' \<Longrightarrow> paints (m\<lparr>diagd := d\<rparr>) (m'\<lparr>diagd := d\<rparr>)"
  by (simp add: paints_def same_state_def)

lemma shown_trans [trans]: "shown a b \<Longrightarrow> shown b c \<Longrightarrow> shown a c"
proof -
  assume "shown a b" "shown b c"
  then have "paints (a\<lparr>diagd := diagd b\<rparr>) b" "paints (b\<lparr>diagd := diagd c\<rparr>) c" by (simp_all add: shown_def)
  from paints_trans [OF paints_diagd [OF this(1), of "diagd c"] _] this(2) show "shown a c"
    by (simp add: shown_def)
qed

lemma shown_refl [simp, intro]: "shown m m"
  by (simp add: shown_def)

lemma shown_diagd [simp]: "shown m (m\<lparr>diagd := d\<rparr>)"
  by (simp add: shown_def)

lemma shown_paints: "paints m m' \<Longrightarrow> shown m m'"
  by (simp add: shown_def paints_def same_state_def)

lemma shown_hex: "x \<le> 560 \<Longrightarrow> y \<le> 470 \<Longrightarrow> shown m m' \<Longrightarrow> shown m (hex_paint x y v m')"
  by (rule shown_trans [OF _ shown_paints [OF paints_hex [OF paints_refl]]])

lemma shown_hex_c: "x \<le> 560 \<Longrightarrow> y \<le> 470 \<Longrightarrow> shown m m' \<Longrightarrow> shown m (hex_paint_c x y v f b m')"
  by (rule shown_trans [OF _ shown_paints [OF paints_hex_c [OF paints_refl]]])

text \<open>The marks and digits of the on-screen build, the tracer of the drive and the marks of the stream.\<close>

lemma list_paint_paints: "paints m (list_paint E d m)"
  unfolding list_paint_def Let_def by (intro paints_shim_hex paints_mark paints_refl) simp_all

lemma gd_paints:
  "paints m (GD_PHASE E n m)" "paints m (GD_RET E n m)" "paints m (gd_heartbeat E guard s m)"
  by (auto simp: GD_PHASE_def GD_RET_def gd_heartbeat_def GD_DIAG_def intro!: paints_hex_c)

lemma stream_paints: "paints m (stream_mark E tag m)" "paints m (stream_check E dest len m)"
  by (auto simp: stream_mark_def stream_check_def intro!: paints_hex_c)

text \<open>The serial traces.\<close>

lemma traces_all:
  assumes "port_ok E"
  shows "traces m (probe_trace E regs m)" "traces m (list_trace E d m)" "traces m (cart_trace E off len dest m)"
  using assms by (auto simp: probe_trace_def list_trace_def cart_trace_def Let_def split: prod.split intro!: trace_intros)

text \<open>
  The timing report draws texts below each other on a frame buffer that is shown. A line of text is 24 pixels high;
  one that ends above the lower edge and is as short as the loader's buffer stays on the screen.
\<close>

definition text_paints :: "kos \<Rightarrow> bool" where
  "text_paints K \<longleftrightarrow> (\<forall>k s m. vram_s K = live_fb m \<longrightarrow> unat k + 24 * 1280 \<le> 614400 \<longrightarrow> length s \<le> 47 \<longrightarrow>
     paints m (bfont_draw_str K (vram_s K + k) 640 1 s m))"

lemma tmark_row_paints:
  assumes "text_paints K" "vram_s K = live_fb m" "paints m m'" "i \<le> 10" "length s \<le> 47"
  shows "paints m (tmark_row K i s m')"
proof -
  have u: "unat (word_of_nat i :: u32) = i"
    using assms(4) by (simp add: unsigned_of_nat take_bit_nat_eq_self)
  have "unat (2 * ((180 + word_of_nat i * 26) * 640 + 20) :: u32) = 2 * ((180 + i * 26) * 640 + 20)"
    using assms(4) by (simp add: unat_word_ariths u)
  then have "unat (2 * ((180 + word_of_nat i * 26) * 640 + 20) :: u32) + 24 * 1280 \<le> 614400" using assms(4) by simp
  then have "paints m' (tmark_row K i s m')"
    using assms(1,2,5) paints_live_fb [OF assms(3)] unfolding text_paints_def tmark_row_def by metis
  then show ?thesis by (rule paints_trans [OF assms(3)])
qed

lemma tmark_dump_paints:
  assumes "text_paints K" "vram_s K = live_fb (mach l)" "tmk_n l \<le> 10"
  shows "paints (mach l) (mach (tmark_dump K l))"
proof -
  have n: "length (timing_line lbl d) \<le> 47" for lbl d by (simp add: timing_line_def)
  have "paints (mach l) (fold (\<lambda>i. tmark_row K i (timing_line (f i) (g i))) [1 ..< tmk_n l] (mach l))" for f g
    using assms n by (intro paints_fold tmark_row_paints) auto
  from tmark_row_paints [OF assms(1,2) this assms(3) n] show ?thesis
    by (simp add: tmark_dump_def Let_def on_mach_def)
qed

lemma tmark_mach: "mach (tmark K lbl l) = mach l \<and> say_row (tmark K lbl l) = say_row l"
  by (simp add: tmark_def split_beta Let_def)

lemma probe_sound_shown: "shown m m' \<Longrightarrow> shown m (probe_sound m')"
  by (simp add: probe_sound_def Let_def shown_hex)

lemma probe_queue_shown: "shown m m' \<Longrightarrow> shown m (probe_queue m')"
  by (simp add: probe_queue_def Let_def shown_hex)

lemma probe_render_shown: "shown m m' \<Longrightarrow> shown m (probe_render m')"
  by (simp add: probe_render_def Let_def shown_hex shown_trans [OF _ shown_diagd])

lemma steady_probes_shown: "shown m (snd (steady_probes E m))"
  by (simp add: steady_probes_def Let_def shown_hex probe_sound_shown probe_queue_shown probe_render_shown)

lemma la_paint_shown: "shown m m' \<Longrightarrow> shown m (la_paint d m')"
  by (simp add: la_paint_def shown_hex_c)

lemma la_tick_shown: "shown m (la_tick E m)"
  by (simp add: la_tick_def Let_def la_paint_shown)

lemma ls_stampA_shown: "shown m (ls_stampA E slot m)"
  by (simp add: ls_stampA_def Let_def)

lemma ls_begin_shown: "shown m (ls_begin E m)"
  by (simp add: ls_begin_def)

lemma ls_end_shown: "shown m (ls_end E t0 len m)"
  using shown_trans [OF shown_diagd ls_stampA_shown] by (simp add: ls_end_def Let_def shown_hex_c)

lemma la_paint_diagd: "diagd (la_paint d m) = diagd m"
proof -
  have "diagd (hex_paint_c x y v f b m') = diagd m'" if "x \<le> 560" "y \<le> 470" for x y v f b m'
    using hex_paint_c_dev_only [of x y m' v f b] that by (simp add: dev_only_def)
  then show ?thesis by (simp add: la_paint_def)
qed

section \<open>The timeline\<close>

text \<open>What a milestone slot holds.\<close>

definition timeline :: "diag_data \<Rightarrow> u32 \<times> u32 \<times> u32 \<times> u32 list \<times> u8 \<times> u32 list" where
  "timeline d = (la_ticks d, la_last d, la_sh d, la_stamp d, la_seen d, la_mie d)"

text \<open>
  \<open>la_run E m0 n m\<close>: from \<open>m0\<close> to \<open>m\<close> by \<open>n\<close> ticks of the frame loop, milestones of the hooks in any order,
  and anything else that leaves the timeline alone.
\<close>

inductive la_run :: "env \<Rightarrow> machine \<Rightarrow> nat \<Rightarrow> machine \<Rightarrow> bool" for E m0 where
  start: "la_run E m0 0 m0"
| tick: "la_run E m0 n m \<Longrightarrow> la_run E m0 (Suc n) (la_tick E m)"
| milestone: "la_run E m0 n m \<Longrightarrow> slot < 5 \<Longrightarrow> la_run E m0 n (ls_stampA E slot m)"
| other: "la_run E m0 n m \<Longrightarrow> timeline (diagd m') = timeline (diagd m) \<Longrightarrow> la_run E m0 n m'"

declare la_run.intros [intro]

lemma bit_seen: "(s :: u8) AND push_bit slot 1 = 0 \<longleftrightarrow> \<not> bit s slot"
  by (simp add: push_bit_eq_mult and_exp_eq_0_iff_not_bit)

lemma ls_stampA_cases:
  assumes "slot < 5"
  shows "ls_stampA E slot m = m \<or> \<not> bit (la_seen (diagd m)) slot \<and> la_sh (diagd m) \<noteq> 0xff \<and>
    diagd (ls_stampA E slot m) = (diagd m)\<lparr>la_seen := la_seen (diagd m) OR push_bit slot 1,
      la_stamp := (la_stamp (diagd m))[slot := la_ticks (diagd m)],
      la_mie := (la_mie (diagd m))[slot := mie_count (diagd m)]\<rparr>"
  using bit_seen [of "la_seen (diagd m)" slot] by (simp add: ls_stampA_def Let_def)

lemma la_tick_diagd:
  "diagd (la_tick E m) = (if SHIM_LOADSTAT E
    then (let d = la_clock (ucast (ld16 TCR0 m)) (ld32 TCNT0 m) (diagd m) in d\<lparr>la_beat := la_beat d + 1\<rparr>)
    else diagd m)"
  by (simp add: la_tick_def Let_def la_paint_diagd)

lemma la_clock_fields [simp]:
  "la_stamp (la_clock c t d) = la_stamp d" "la_mie (la_clock c t d) = la_mie d"
  by (simp_all add: la_clock_def Let_def)

lemma la_clock_seen: "bit (la_seen (la_clock c t d)) k \<longleftrightarrow> bit (la_seen d) k \<or> k = 0 \<and> la_sh d = 0xff"
  by (simp add: la_clock_def Let_def bit_simps)

lemma la_tick_fields [simp]:
  "la_stamp (diagd (la_tick E m)) = la_stamp (diagd m)" "la_mie (diagd (la_tick E m)) = la_mie (diagd m)"
  by (simp_all add: la_tick_diagd Let_def)

text \<open>Latched slots stay.\<close>

lemma la_run_latched:
  "la_run E m0 n m \<Longrightarrow> bit (la_seen (diagd m0)) k \<Longrightarrow> k < 5 \<Longrightarrow>
    bit (la_seen (diagd m)) k \<and> la_stamp (diagd m) ! k = la_stamp (diagd m0) ! k \<and>
    la_mie (diagd m) ! k = la_mie (diagd m0) ! k"
proof (induction rule: la_run.induct)
  case (tick n m)
  then show ?case by (auto simp: la_tick_diagd Let_def la_clock_seen)
next
  case (milestone n m slot)
  then show ?case
    using ls_stampA_cases [of slot E m] by (cases "slot = k") (auto simp: bit_simps)
qed (auto simp: timeline_def)

text \<open>The clock runs forward and no stamp is ahead of it, for as long as 32 bits hold its ticks.\<close>

definition tick_max :: nat where "tick_max = 12500000"

lemma clock_step: "drop_bit (unat s) (50000000 :: u32) \<le> 12500000" if "2 \<le> unat s" for s :: u32
proof -
  have "(50000000 :: nat) div 2 ^ unat s \<le> 50000000 div 2 ^ 2"
    using that by (intro div_le_mono2 power_increasing) simp_all
  moreover have "unat (drop_bit (unat s) (50000000 :: u32)) = drop_bit (unat s) 50000000"
    by (simp only: unat_drop_bit_eq) simp
  ultimately show ?thesis
    by (simp add: word_le_nat_alt drop_bit_eq_div del: drop_bit_numeral_bit0 drop_bit_numeral_bit1)
qed

definition timeline_ok :: "nat \<Rightarrow> diag_data \<Rightarrow> bool" where
  "timeline_ok n d \<longleftrightarrow> unat (la_ticks d) \<le> n * tick_max \<and> 2 \<le> unat (la_sh d) \<and>
     length (la_stamp d) = 5 \<and> length (la_mie d) = 5 \<and>
     (\<forall>k < 5. unat (la_stamp d ! k) \<le> unat (la_ticks d)) \<and>
     (\<forall>k < 5. \<not> bit (la_seen d) k \<longrightarrow> la_stamp d ! k = 0 \<and> la_mie d ! k = 0)"

lemma diag_init_ok: "timeline_ok 0 diag_init"
proof -
  have "k \<in> {0, 1, 2, 3, 4}" if "k < 5" for k :: nat using that by auto
  then show ?thesis by (auto simp: timeline_ok_def diag_init_def)
qed

lemma timeline_ok_cong: "timeline d' = timeline d \<Longrightarrow> timeline_ok n d' = timeline_ok n d"
  by (simp add: timeline_def timeline_ok_def)

lemma shifts_ok: "2 \<le> unat (word_of_nat (tpsc_shifts ! unat (c AND 7)) :: u32)" for c :: u32
proof -
  have "unat (c AND 7) < 8"
    using word_and_le1 [of c 7] by (simp add: word_le_nat_alt)
  then have "unat (c AND 7) \<in> {0, 1, 2, 3, 4, 5, 6, 7}" by auto
  then show ?thesis by (auto simp: tpsc_shifts_def)
qed

lemma timeline_tick:
  assumes "timeline_ok n d" "Suc n * tick_max < 4294967296"
  shows "timeline_ok (Suc n) (la_clock c t d)"
proof (cases "la_sh d = 0xff")
  case True
  then show ?thesis
    using assms shifts_ok [of c] by (auto simp: la_clock_def timeline_ok_def bit_simps)
next
  case False
  let ?dt = "la_last d - t"
  have s: "unat ?dt \<le> tick_max" if "?dt < drop_bit (unat (la_sh d)) 50000000"
    using that clock_step [of "la_sh d"] assms(1) by (simp add: timeline_ok_def word_less_nat_alt word_le_nat_alt tick_max_def)
  have u: "unat (la_ticks d + ?dt) = unat (la_ticks d) + unat ?dt" if "unat ?dt \<le> tick_max"
    using that assms by (intro unat_add_lt) (simp add: timeline_ok_def)
  show ?thesis
    using False assms s u by (auto simp: la_clock_def timeline_ok_def Let_def intro: trans_le_add1)
qed

lemma timeline_milestone:
  assumes "timeline_ok n (diagd m)" "slot < 5"
  shows "timeline_ok n (diagd (ls_stampA E slot m))"
  using ls_stampA_cases [OF assms(2), of E m]
proof (elim disjE conjE)
  assume "diagd (ls_stampA E slot m) = (diagd m)\<lparr>la_seen := la_seen (diagd m) OR push_bit slot 1,
      la_stamp := (la_stamp (diagd m))[slot := la_ticks (diagd m)],
      la_mie := (la_mie (diagd m))[slot := mie_count (diagd m)]\<rparr>"
  then show ?thesis
    using assms by (auto simp: timeline_ok_def nth_list_update bit_simps)
qed (use assms in simp)

lemma timeline_mono: "timeline_ok n d \<Longrightarrow> n \<le> k \<Longrightarrow> timeline_ok k d"
  using order_trans [OF _ mult_le_mono1 [of n k tick_max]] by (auto simp: timeline_ok_def)

lemma la_run_ok:
  "la_run E m0 n m \<Longrightarrow> timeline_ok 0 (diagd m0) \<Longrightarrow> n * tick_max < 4294967296 \<Longrightarrow> timeline_ok n (diagd m)"
proof (induction rule: la_run.induct)
  case (tick n m)
  then have "timeline_ok n (diagd m)" by simp
  from timeline_tick [OF this tick.prems(2)] timeline_mono [OF this, of "Suc n"] show ?case
    by (auto simp: la_tick_diagd Let_def) (simp add: timeline_ok_def)
next
  case (milestone n m slot)
  then show ?case using timeline_milestone by simp
next
  case (other n m m')
  then show ?case using timeline_ok_cong by blast
qed simp

section \<open>The timing report\<close>

definition undec :: "string \<Rightarrow> nat" where
  "undec s = fold (\<lambda>c a. a * 10 + (of_char c - 48)) s 0"

lemma undec_snoc: "undec (s @ [c]) = undec s * 10 + (of_char c - 48)"
  by (simp add: undec_def)

lemma of_digit: "k < 10 \<Longrightarrow> (of_char (char_of (48 + k) :: char) :: nat) = 48 + k"
  by (simp add: take_bit_nat_eq_self)

lemma undec_dec: "undec (dec n) = n"
proof (induction n rule: dec.induct)
  case (1 n)
  show ?case
  proof (cases "n < 10")
    case True
    then show ?thesis
      using undec_snoc [of "[]" "char_of (48 + n)"] of_digit [of n]
      by (simp add: dec.simps [of n]) (simp add: undec_def)
  next
    case False
    then have "dec n = dec (n div 10) @ [char_of (48 + n mod 10)]" by (simp add: dec.simps [of n])
    then show ?thesis
      using 1 [OF False] of_digit [of "n mod 10"] by (simp only: undec_snoc) simp
  qed
qed

lemma undec_zeros: "undec (replicate k CHR ''0'' @ s) = undec s"
  by (induction k) (simp_all add: undec_def)

lemma undec_pad: "undec (pad_left w CHR ''0'' s) = undec s"
  by (simp add: pad_left_def undec_zeros)

lemma length_dec: "n < 10 ^ Suc k \<Longrightarrow> length (dec n) \<le> Suc k"
proof (induction k arbitrary: n)
  case (0 n)
  then show ?case by (simp add: dec.simps [of n])
next
  case (Suc k)
  show ?case
  proof (cases "n < 10")
    case False
    then have "length (dec (n div 10)) \<le> Suc k"
      using Suc.prems by (intro Suc.IH) (simp add: less_mult_imp_div_less)
    then show ?thesis using False by (simp add: dec.simps [of n])
  qed (simp add: dec.simps [of n])
qed

lemma length_timing_text:
  assumes "length lbl \<le> 16"
  shows "length (timing_text lbl d) \<le> 34"
proof -
  have "length (dec (unat (ucast (d div 1000) :: u32))) \<le> 10"
    using length_dec [of "unat (ucast (d div 1000) :: u32)" 9] unat_u32_less [of "ucast (d div 1000)"] by simp
  moreover have "length (dec (unat (ucast (d mod 1000) :: u32))) \<le> 3"
  proof -
    have "unat (d mod 1000) < 1000" by (simp add: unat_mod)
    then have "unat (ucast (d mod 1000) :: u32) < 10 ^ Suc 2"
      by (simp add: unsigned_ucast_eq take_bit_nat_eq_self)
    then show ?thesis using length_dec [of _ 2] by fastforce
  qed
  ultimately show ?thesis
    using assms by (simp add: timing_text_def pad_left_def pad_right_def)
qed

lemma timing_line_fits: "length lbl \<le> 16 \<Longrightarrow> timing_line lbl d = timing_text lbl d"
  using length_timing_text [of lbl d] by (simp add: timing_line_def)

lemma timing_value:
  fixes d :: u64
  assumes "unat d div 1000 < 4294967296"
  shows "unat (ucast (d div 1000) :: u32) * 1000 + unat (ucast (d mod 1000) :: u32) = unat d"
proof -
  have "unat (d div 1000) < 4294967296" "unat (d mod 1000) < 4294967296"
    using assms by (simp_all add: unat_div unat_mod less_trans [of _ 1000])
  then have "unat (ucast (d div 1000) :: u32) = unat d div 1000" "unat (ucast (d mod 1000) :: u32) = unat d mod 1000"
    by (simp_all add: unsigned_ucast_eq take_bit_nat_eq_self unat_div unat_mod)
  then show ?thesis by simp
qed

text \<open>Reading a line of the report: blanks count as no digits.\<close>

definition line_us :: "string \<Rightarrow> nat" where
  "line_us s = (let t = drop 17 s; w = takeWhile (\<lambda>c. c \<noteq> CHR ''.'') t
     in undec w * 1000 + undec (take 3 (drop (Suc (length w)) t)))"

lemma of_char_dot: "(of_char CHR ''.'' :: nat) = 46"
  by simp

lemma dec_no_dot: "CHR ''.'' \<notin> set (dec n)"
proof (induction n rule: dec.induct)
  case (1 n)
  have d: "char_of (48 + k) \<noteq> CHR ''.''" if "k < 10" for k :: nat
  proof
    assume "char_of (48 + k) = CHR ''.''"
    then have "(48 + k :: nat) = 46" using of_digit [OF that] of_char_dot by simp
    then show False by simp
  qed
  then have "CHR ''.'' \<noteq> char_of (48 + n mod 10)" "n < 10 \<Longrightarrow> CHR ''.'' \<noteq> char_of (48 + n)"
    by (metis mod_less_divisor zero_less_numeral) (metis d)
  then show ?case using 1 by (subst dec.simps) auto
qed

lemma undec_blanks: "undec (pad_left w CHR '' '' s) = undec s"
proof -
  have "undec (replicate k CHR '' '' @ s) = undec s" for k
    by (induction k) (simp_all add: undec_def)
  then show ?thesis by (simp add: pad_left_def)
qed

lemma line_us_text:
  fixes d :: u64
  assumes "length lbl \<le> 16" "unat d div 1000 < 4294967296"
  shows "line_us (timing_line lbl d) = unat d" "take 16 (timing_line lbl d) = pad_right 16 lbl"
proof -
  let ?ms = "pad_left 4 CHR '' '' (dec (unat (ucast (d div 1000) :: u32)))"
  let ?us = "pad_left 3 CHR ''0'' (dec (unat (ucast (d mod 1000) :: u32)))"
  have l: "length (pad_right 16 lbl) = 16" using assms(1) by (simp add: pad_right_def)
  have n: "takeWhile (\<lambda>c. c \<noteq> CHR ''.'') (?ms @ ''.'' @ r) = ?ms" for r
    using dec_no_dot by (subst takeWhile_append2) (auto simp: pad_left_def)
  have "unat (ucast (d mod 1000) :: u32) < 10 ^ Suc 2"
    by (simp add: unsigned_ucast_eq take_bit_nat_eq_self unat_mod less_trans [of _ 1000])
  then have u: "length ?us = 3" using length_dec [of _ 2] by (auto simp: pad_left_def)
  have t: "timing_line lbl d = pad_right 16 lbl @ '' '' @ ?ms @ ''.'' @ ?us @ '' ms''"
    using timing_line_fits [OF assms(1)] by (simp add: timing_text_def)
  have dr: "drop 17 (timing_line lbl d) = ?ms @ ''.'' @ ?us @ '' ms''"
    unfolding t using l by simp
  have "line_us (timing_line lbl d) = undec ?ms * 1000 + undec ?us"
    unfolding line_us_def Let_def dr n using u by simp
  then show "line_us (timing_line lbl d) = unat d"
    using timing_value [OF assms(2)] by (simp only: undec_blanks undec_pad undec_dec)
  show "take 16 (timing_line lbl d) = pad_right 16 lbl"
    unfolding t using l by simp
qed

text \<open>The report: one line for each stage, and their sum.\<close>

definition stage_lines :: "loader \<Rightarrow> string list" where
  "stage_lines l = map (\<lambda>i. timing_line (tmk_lbl l ! Suc i) (tmk_us l ! Suc i - tmk_us l ! i)) [0 ..< tmk_n l - 1]"

lemma stage_sum:
  fixes u :: "nat \<Rightarrow> nat"
  assumes "\<forall>i < n. u i \<le> u (Suc i)"
  shows "(\<Sum>i \<leftarrow> [0 ..< n]. u (Suc i) - u i) = u n - u 0" "u 0 \<le> u n"
proof -
  have "(\<Sum>i \<leftarrow> [0 ..< n]. u (Suc i) - u i) = u n - u 0 \<and> u 0 \<le> u n"
    using assms by (induction n) force+
  then show "(\<Sum>i \<leftarrow> [0 ..< n]. u (Suc i) - u i) = u n - u 0" "u 0 \<le> u n" by auto
qed

text \<open>Marks that a clock running forward has made.\<close>

definition marks_ok :: "loader \<Rightarrow> bool" where
  "marks_ok l \<longleftrightarrow> 0 < tmk_n l \<and> (\<forall>i < tmk_n l. length (tmk_lbl l ! i) \<le> 16 \<and> unat (tmk_us l ! i) < 4294967296000) \<and>
     (\<forall>i < tmk_n l - 1. unat (tmk_us l ! i) \<le> unat (tmk_us l ! Suc i))"

lemma stage_lines_read:
  assumes "marks_ok l" "i < tmk_n l - 1"
  shows "line_us (stage_lines l ! i) = unat (tmk_us l ! Suc i) - unat (tmk_us l ! i)"
    "take 16 (stage_lines l ! i) = pad_right 16 (tmk_lbl l ! Suc i)"
proof -
  have b: "unat (tmk_us l ! Suc i) < 4294967296000" "length (tmk_lbl l ! Suc i) \<le> 16"
    "unat (tmk_us l ! i) \<le> unat (tmk_us l ! Suc i)"
    using assms by (simp_all add: marks_ok_def)
  then have d: "unat (tmk_us l ! Suc i - tmk_us l ! i) = unat (tmk_us l ! Suc i) - unat (tmk_us l ! i)"
    by (intro unat_sub) (simp add: word_le_nat_alt)
  then have "unat (tmk_us l ! Suc i - tmk_us l ! i) div 1000 < 4294967296" using b by linarith
  from line_us_text [OF b(2) this] d show
    "line_us (stage_lines l ! i) = unat (tmk_us l ! Suc i) - unat (tmk_us l ! i)"
    "take 16 (stage_lines l ! i) = pad_right 16 (tmk_lbl l ! Suc i)"
    using assms(2) by (simp_all add: stage_lines_def)
qed

lemma total_reads:
  assumes "marks_ok l"
  shows "line_us (timing_line ''TOTAL'' (tmk_us l ! (tmk_n l - 1) - tmk_us l ! 0)) = sum_list (map line_us (stage_lines l))"
    "sum_list (map line_us (stage_lines l)) = unat (tmk_us l ! (tmk_n l - 1)) - unat (tmk_us l ! 0)"
proof -
  let ?n = "tmk_n l - 1"
  have m: "\<forall>i < ?n. unat (tmk_us l ! i) \<le> unat (tmk_us l ! Suc i)" "unat (tmk_us l ! ?n) < 4294967296000"
    using assms by (simp_all add: marks_ok_def)
  note s = stage_sum [of ?n "\<lambda>i. unat (tmk_us l ! i)", OF m(1)]
  have "map line_us (stage_lines l) = map (\<lambda>i. unat (tmk_us l ! Suc i) - unat (tmk_us l ! i)) [0 ..< ?n]"
    using stage_lines_read(1) [OF assms] by (intro nth_equalityI) (auto simp: stage_lines_def)
  then show t: "sum_list (map line_us (stage_lines l)) = unat (tmk_us l ! ?n) - unat (tmk_us l ! 0)"
    using s(1) by simp
  have d: "unat (tmk_us l ! ?n - tmk_us l ! 0) = unat (tmk_us l ! ?n) - unat (tmk_us l ! 0)"
    using s(2) by (intro unat_sub) (simp add: word_le_nat_alt)
  then have "unat (tmk_us l ! ?n - tmk_us l ! 0) div 1000 < 4294967296" using m(2) by linarith
  from line_us_text(1) [OF _ this, of "''TOTAL''"] show
    "line_us (timing_line ''TOTAL'' (tmk_us l ! ?n - tmk_us l ! 0)) = sum_list (map line_us (stage_lines l))"
    by (simp only: d t) simp
qed

lemma tmark_dump_draws:
  assumes "LOADER_TIMING K"
  shows "mach (tmark_dump K l) = tmark_row K (tmk_n l) (timing_line ''TOTAL'' (tmk_us l ! (tmk_n l - 1) - tmk_us l ! 0))
    (fold (\<lambda>i. tmark_row K i (stage_lines l ! (i - 1))) [1 ..< tmk_n l] (mach l))"
proof -
  have "fold (\<lambda>i. tmark_row K i (timing_line (tmk_lbl l ! i) (tmk_us l ! i - tmk_us l ! (i - 1)))) [1 ..< tmk_n l] (mach l) =
      fold (\<lambda>i. tmark_row K i (stage_lines l ! (i - 1))) [1 ..< tmk_n l] (mach l)"
    by (rule fold_cong) (auto simp: stage_lines_def)
  then show ?thesis using assms by (simp add: tmark_dump_def on_mach_def Let_def)
qed

end
