(* ===== verification/Diag_Props.thy ===== *)
theory Diag_Props
  imports Diag_Lemmas Demo
begin

text \<open>The properties of the diagnostic builds.\<close>

text \<open>
  C35. The diagnostics only show, whichever of their switches are on. The marks and digits of the on-screen build,
  the timeline's tick and milestones, the probes, the syscall tracer and the stream counters change nothing but
  the pixels being shown, the blanking bit of the display control register and the diagnostic variables; the
  serial traces nothing but the registers of the serial port; a mark of the loader's timing no memory, and
  its report the screen.
\<close>

theorem diagnostics_only_show:
  assumes "port_ok E" "slot < 32" "x \<le> 560" "y \<le> 470"
    and "text_paints K" "vram_s K = live_fb (mach l)" "tmk_n l \<le> 10"
  shows "paints m (shim_mark E slot c m) \<and> paints m (shim_hex E x y v m) \<and> paints m (list_paint E d m) \<and>
    shown m (la_tick E m) \<and> shown m (snd (steady_probes E m)) \<and> shown m (ls_stampA E k m) \<and>
    paints m (GD_PHASE E n m) \<and> paints m (GD_RET E n m) \<and> paints m (gd_heartbeat E guard s m) \<and>
    paints m (stream_mark E tag m) \<and> paints m (stream_check E dest len m) \<and>
    shown m (ls_begin E m) \<and> shown m (ls_end E t0 len m) \<and>
    traces m (probe_trace E regs m) \<and> traces m (list_trace E d m) \<and> traces m (cart_trace E off len dest m) \<and>
    mach (tmark K lbl l) = mach l \<and> paints (mach l) (mach (tmark_dump K l))"
  using tmark_mach [of K lbl l] tmark_dump_paints [OF assms(5-7)] assms(2-4)
  by (intro conjI la_tick_shown steady_probes_shown ls_stampA_shown ls_begin_shown ls_end_shown paints_mark
      paints_shim_hex list_paint_paints gd_paints stream_paints traces_all [OF assms(1)] paints_refl) simp_all

text \<open>A build with everything on, and a KallistiOS whose text is a dot.\<close>

definition noisy_env :: env where
  "noisy_env = demo_env\<lparr>SHIM_HUD := True, SHIM_TRACE := True, SHIM_SERIAL := True, SHIM_LOADSTAT := True,
     SHIM_PROBES := True, SHIM_GD_DIAG := True\<rparr>"

definition dot_kos :: kos where
  "dot_kos = \<lparr>LOADER_QUIET = True, LOADER_TIMING = True, vram_s = 0xa5000000, sysbuf = 0, vid_set_mode = id,
     bfont_draw_str = (\<lambda>a w opaque s. st16 a 0xffff),
     cdrom_reinit = id, cdrom_read_sectors = (\<lambda>dst fad n m. (False, m)), dcache_purge_range = (\<lambda>a n m. m),
     irq_disable = id, arch_timer_gettime = (\<lambda>m. (0, 0)), splash_bin = [], shim_bin = [], bios_data = [],
     handoff_stub = [], cleo_patches = []\<rparr>"

lemma diagnostics_only_show_witness:
  "shown demo_zero (la_tick noisy_env demo_zero) \<and> traces demo_zero (cart_trace noisy_env 0 0 0 demo_zero) \<and>
   paints demo_zero (mach (tmark_dump dot_kos (loader_init demo_zero)))"
proof -
  have p: "port_ok noisy_env" by (simp add: port_ok_def noisy_env_def demo_env_def same_state_def)
  have "ld32 FB_R_SOF1 demo_zero = 0" by (simp add: ld32_def ld8_def demo_zero_def)
  then have v: "vram_s dot_kos = live_fb (mach (loader_init demo_zero))" "tmk_n (loader_init demo_zero) \<le> 10"
    by (simp_all add: dot_kos_def live_fb_def VRAM_def loader_init_def)
  have "text_paints dot_kos"
    unfolding text_paints_def
  proof (intro allI impI)
    fix k :: u32 and s and m :: machine
    assume a: "vram_s dot_kos = live_fb m" "unat k + 24 * 1280 \<le> 614400"
    have u: "unat (0xa5000000 + k) = 0xa5000000 + unat k" using a(2) unat_add_lt [of "0xa5000000" k] by simp
    then have "paints m (st16 (0xa5000000 + k) 0xffff m)"
      using a(2) by (intro paints_st16 paints_refl) (simp_all add: dot_kos_def flip: a(1))
    then show "paints m (bfont_draw_str dot_kos (vram_s dot_kos + k) 640 1 s m)"
      by (simp add: dot_kos_def)
  qed
  from diagnostics_only_show [OF p _ _ _ this v, of 0 0 0] show ?thesis by (auto simp: loader_init_def)
qed

text \<open>
  C36. The start-up timeline, for any order of ticks and milestones from power-on: \<open>n\<close> ticks put the clock at
  no more than \<open>n\<close> quarter-seconds of the fastest timer, no stamp is ahead of it, an unreached milestone reads 0,
  and a stamp once latched is never changed.
\<close>

theorem timeline_latches:
  assumes "diagd m0 = diag_init" "la_run E m0 n m" "n * tick_max < 4294967296" "la_run E m k m'" "slot < 5"
  shows "unat (la_ticks (diagd m)) \<le> n * tick_max \<and> unat (la_stamp (diagd m) ! slot) \<le> unat (la_ticks (diagd m)) \<and>
    (\<not> bit (la_seen (diagd m)) slot \<longrightarrow> la_stamp (diagd m) ! slot = 0) \<and>
    (bit (la_seen (diagd m)) slot \<longrightarrow> la_stamp (diagd m') ! slot = la_stamp (diagd m) ! slot \<and>
       la_mie (diagd m') ! slot = la_mie (diagd m) ! slot)"
proof -
  have "timeline_ok n (diagd m)"
    by (rule la_run_ok [OF assms(2) _ assms(3)]) (simp add: assms(1) diag_init_ok)
  then show ?thesis
    using assms(5) la_run_latched [OF assms(4) _ assms(5)] by (simp add: timeline_ok_def)
qed

lemma timeline_latches_witness:
  "unat (la_ticks (diagd (la_tick (demo_env\<lparr>SHIM_LOADSTAT := True\<rparr>) demo_zero))) \<le> 12500000"
proof -
  let ?E = "demo_env\<lparr>SHIM_LOADSTAT := True\<rparr>"
  have r: "la_run ?E demo_zero 1 (la_tick ?E demo_zero)"
    using la_run.tick [OF la_run.start [of ?E demo_zero]] by simp
  have "diagd demo_zero = diag_init" by (simp add: demo_zero_def)
  from timeline_latches [OF this r _ la_run.start, of 0] show ?thesis by (simp add: tick_max_def)
qed

text \<open>
  C37. The timing report of the loader, for marks of a clock that runs forward: below each other it draws one line
  for every stage, with the label of the mark that ends the stage and, read back, the microseconds since
  the mark before; and a last line, which reads as the sum of the stages and as the whole time.
\<close>

theorem timing_report:
  assumes "LOADER_TIMING K" "marks_ok l"
  defines "row \<equiv> \<lambda>i. bfont_draw_str K (vram_s K + 2 * ((180 + word_of_nat i * 26) * 640 + 20)) 640 1"
  shows "\<exists>ls total. mach (tmark_dump K l) = row (tmk_n l) total (fold (\<lambda>i. row i (ls ! (i - 1))) [1 ..< tmk_n l] (mach l)) \<and>
    length ls = tmk_n l - 1 \<and>
    (\<forall>i < tmk_n l - 1. take 16 (ls ! i) = pad_right 16 (tmk_lbl l ! Suc i) \<and>
       line_us (ls ! i) = unat (tmk_us l ! Suc i) - unat (tmk_us l ! i)) \<and>
    take 16 total = pad_right 16 ''TOTAL'' \<and> line_us total = sum_list (map line_us ls) \<and>
    line_us total = unat (tmk_us l ! (tmk_n l - 1)) - unat (tmk_us l ! 0)"
proof -
  let ?total = "timing_line ''TOTAL'' (tmk_us l ! (tmk_n l - 1) - tmk_us l ! 0)"
  have "row = tmark_row K" by (simp add: row_def tmark_row_def [abs_def])
  moreover have "take 16 ?total = pad_right 16 ''TOTAL''"
    by (simp add: timing_line_fits timing_text_def pad_right_def)
  ultimately show ?thesis
    using tmark_dump_draws [OF assms(1), of l] stage_lines_read [OF assms(2)] total_reads [OF assms(2)]
    by (intro exI [of _ "stage_lines l"] exI [of _ ?total]) (simp add: stage_lines_def)
qed

text \<open>Three marks, and a screen that keeps the row and the first letter of every text drawn on it.\<close>

definition demo_marks :: "machine \<Rightarrow> loader" where
  "demo_marks m = (loader_init m)\<lparr>tmk_us := [1000, 2346006, 5000000], tmk_lbl := [''start'', ''gd init'', ''read''], tmk_n := 3\<rparr>"

definition demo_report :: kos where
  "demo_report = dot_kos\<lparr>bfont_draw_str := (\<lambda>a w opaque s m. m\<lparr>io := io m @ [((a - 0xa5000000) div 1280, of_char (hd s))]\<rparr>)\<rparr>"

lemma timing_report_witness:
  "timing_line ''gd init'' 2345006 = ''gd init          2345.006 ms'' \<and>
   (\<exists>ls total m1. mach (tmark_dump demo_report (demo_marks demo_zero)) = (m1 :: machine) \<and>
      line_us (ls ! 0) = 2345006 \<and> line_us total = 4999000 \<and>
      io m1 = [(180 + 26, of_char (hd (ls ! 0))), (180 + 2 * 26, of_char (hd (ls ! 1))), (180 + 3 * 26, of_char (hd total))])"
proof
  show "timing_line ''gd init'' 2345006 = ''gd init          2345.006 ms''" by code_simp
  have m: "marks_ok (demo_marks demo_zero)" "LOADER_TIMING demo_report"
    by (auto simp: marks_ok_def demo_marks_def loader_init_def demo_report_def dot_kos_def numeral_3_eq_3 nth_Cons split: nat.split)
  have l: "tmk_n (demo_marks demo_zero) = 3" "mach (demo_marks demo_zero) = demo_zero"
    "tmk_us (demo_marks demo_zero) = [1000, 2346006, 5000000]" by (simp_all add: demo_marks_def loader_init_def)
  obtain ls total where r: "line_us (ls ! 0) = 2345006" "line_us total = 4999000"
    "mach (tmark_dump demo_report (demo_marks demo_zero)) =
      bfont_draw_str demo_report (vram_s demo_report + 2 * ((180 + word_of_nat 3 * 26) * 640 + 20)) 640 1 total
       (fold (\<lambda>i. bfont_draw_str demo_report (vram_s demo_report + 2 * ((180 + word_of_nat i * 26) * 640 + 20)) 640 1
          (ls ! (i - 1))) [1 ..< 3] demo_zero)"
    using timing_report [OF m(2,1)] unfolding l by (auto dest!: spec [where x = 0])
  have "io demo_zero = []" by (simp add: demo_zero_def)
  then show "\<exists>ls total m1. mach (tmark_dump demo_report (demo_marks demo_zero)) = (m1 :: machine) \<and>
      line_us (ls ! 0) = 2345006 \<and> line_us total = 4999000 \<and>
      io m1 = [(180 + 26, of_char (hd (ls ! 0))), (180 + 2 * 26, of_char (hd (ls ! 1))), (180 + 3 * 26, of_char (hd total))]"
    unfolding r(3) using r(1,2)
    by (intro exI [of _ ls] exI [of _ total]) (simp add: demo_report_def dot_kos_def upt_rec)
qed

end
