(* ===== verification/Screen.thy ===== *)
theory Screen
  imports Hook_Lemmas
begin

text \<open>
  What can be read on the television: the digits \<^verbatim>\<open>hex_paint_c\<close> draws, pixel by pixel, that they read back as
  the number painted, and what the fatal screen of \<^verbatim>\<open>shim_die\<close> shows wherever the frame buffer is.
\<close>

section \<open>The digits\<close>

definition nibble :: "u32 \<Rightarrow> nat \<Rightarrow> nat" where
  "nibble val d = unat (drop_bit ((7 - d) * 4) val AND 0xf)"

definition font_bit :: "nat \<Rightarrow> nat \<Rightarrow> nat \<Rightarrow> bool" where
  "font_bit n r c \<longleftrightarrow> drop_bit (2 - c) (hexfont ! n ! r) AND 1 \<noteq> 0"

text \<open>The picture: eight glyphs of 3 by 5 cells, a cell is 2 by 2 pixels, four columns between glyphs are left.\<close>

definition hex_picture :: "nat \<Rightarrow> nat \<Rightarrow> u32 \<Rightarrow> u16 \<Rightarrow> u16 \<Rightarrow> nat \<Rightarrow> nat \<Rightarrow> u16 \<Rightarrow> u16" where
  "hex_picture x y val fg bg X Y old =
     (if x \<le> X \<and> X < x + 80 \<and> y \<le> Y \<and> Y < y + 10 \<and> (X - x) mod 10 < 6
      then (if font_bit (nibble val ((X - x) div 10)) ((Y - y) div 2) ((X - x) mod 10 div 2) then fg else bg)
      else old)"

definition in_cell :: "nat \<Rightarrow> nat \<Rightarrow> nat \<Rightarrow> nat \<Rightarrow> nat \<Rightarrow> nat \<Rightarrow> nat \<Rightarrow> bool" where
  "in_cell x y X Y d r c \<longleftrightarrow> (X = x + d * 10 + c * 2 \<or> X = x + d * 10 + c * 2 + 1) \<and> (Y = y + r * 2 \<or> Y = y + r * 2 + 1)"

lemma glyph_column:
  fixes z :: nat
  assumes "c < 3"
  shows "z div 10 = d \<and> z mod 10 div 2 = c \<longleftrightarrow> z = d * 10 + c * 2 \<or> z = d * 10 + c * 2 + 1"
proof -
  have "z = z div 10 * 10 + z mod 10" "z mod 10 < 10" by simp_all
  moreover have "q = d \<and> k div 2 = c \<longleftrightarrow> q * 10 + k = d * 10 + c * 2 \<or> q * 10 + k = d * 10 + c * 2 + 1"
    if "k < 10" for q k :: nat
  proof -
    have "k div 2 = c \<longleftrightarrow> k = c * 2 \<or> k = c * 2 + 1" by auto
    moreover have "q * 10 + k = d * 10 + j \<longleftrightarrow> q = d \<and> k = j" if "j < 10" for j
      using \<open>k < 10\<close> that
      by (metis add_right_cancel div_mult_self3 div_less mod_less mod_mult_self3 zero_neq_numeral add.right_neutral)
    from this [of "c * 2"] this [of "c * 2 + 1"] have "q * 10 + k = d * 10 + c * 2 \<longleftrightarrow> q = d \<and> k = c * 2"
      "q * 10 + k = d * 10 + (c * 2 + 1) \<longleftrightarrow> q = d \<and> k = c * 2 + 1" using assms by auto
    ultimately show ?thesis by (simp add: add.assoc) blast
  qed
  ultimately show ?thesis by metis
qed

lemma glyph_range: "z div 10 < 8 \<longleftrightarrow> z < 80" "z mod 10 div 2 < 3 \<longleftrightarrow> z mod 10 < 6" "z div 2 < 5 \<longleftrightarrow> z < 10" for z :: nat
  by linarith+

lemma in_cell_iff:
  assumes "c < 3"
  shows "in_cell x y X Y d r c \<longleftrightarrow> x \<le> X \<and> y \<le> Y \<and> (X - x) div 10 = d \<and> (X - x) mod 10 div 2 = c \<and> (Y - y) div 2 = r"
proof -
  have "(X = x + d * 10 + c * 2 \<or> X = x + d * 10 + c * 2 + 1) \<longleftrightarrow>
      x \<le> X \<and> (X - x = d * 10 + c * 2 \<or> X - x = d * 10 + c * 2 + 1)" by auto
  moreover have "(Y = y + r * 2 \<or> Y = y + r * 2 + 1) \<longleftrightarrow> y \<le> Y \<and> (Y - y) div 2 = r" by auto
  ultimately show ?thesis
    unfolding in_cell_def using glyph_column [OF assms, of "X - x" d] by blast
qed

lemma hex_cell_pixel:
  assumes "fb_ok fb" "X < 640" "Y < 480" "x + 80 \<le> 640" "y + 10 \<le> 480" "d < 8" "r < 5" "c < 3"
  shows "get_px fb (Y * 640 + X) (hex_cell fb x y val fg bg d r c m) =
    (if in_cell x y X Y d r c then hex_picture x y val fg bg X Y 0 else get_px fb (Y * 640 + X) m)"
proof -
  let ?px = "if font_bit (nibble val d) r c then fg else bg"
  have ok: "px_ok fb ((y + r * 2 + j) * 640 + (x + d * 10 + c * 2 + i))" if "i \<le> 1" "j \<le> 1" for i j
    by (rule loadbar_px) (use assms that in simp_all)
  have eq: "(y + r * 2 + j) * 640 + (x + d * 10 + c * 2 + i) = Y * 640 + X \<longleftrightarrow> Y = y + r * 2 + j \<and> X = x + d * 10 + c * 2 + i"
    if "i \<le> 1" for i j
    using row_col [of "x + d * 10 + c * 2 + i" X "y + r * 2 + j" Y] assms that by auto
  have cell: "get_px fb (Y * 640 + X) (hex_cell fb x y val fg bg d r c m) =
    (if in_cell x y X Y d r c then ?px else get_px fb (Y * 640 + X) m)"
    using ok [of 0 0] ok [of 1 0] ok [of 0 1] ok [of 1 1] eq [of 0 0] eq [of 1 0] eq [of 0 1] eq [of 1 1]
      loadbar_px [OF assms(1-3)]
    unfolding hex_cell_def Let_def in_cell_def font_bit_def nibble_def
    by (auto simp: px_get_put add.assoc)
  have "hex_picture x y val fg bg X Y 0 = ?px" if "in_cell x y X Y d r c"
  proof -
    have *: "x \<le> X" "y \<le> Y" "(X - x) div 10 = d" "(X - x) mod 10 div 2 = c" "(Y - y) div 2 = r"
      using that in_cell_iff [OF assms(8)] by blast+
    moreover have "X - x < 80" "Y - y < 10" "(X - x) mod 10 < 6"
      using * assms(6,7,8) glyph_range [of "X - x"] glyph_range [of "Y - y"] by simp_all
    moreover have "X < x + 80" "Y < y + 10" using calculation by linarith+
    ultimately show ?thesis by (simp add: hex_picture_def)
  qed
  with cell show ?thesis by simp
qed

text \<open>\<^verbatim>\<open>live_fb\<close> stays where it is while the painters work.\<close>

lemma live_fb_cong: "ld32 FB_R_SOF1 m' = ld32 FB_R_SOF1 m \<Longrightarrow> live_fb m' = live_fb m"
  by (simp add: live_fb_def)

lemma sof_span: "span FB_R_SOF1 4" "unat (bus FB_R_SOF1) = 0x005f8050" "\<not> cached FB_R_SOF1"
  by (simp_all add: FB_R_SOF1_def span_def bus_def cached_def)

lemma live_fb_unblank [simp]: "live_fb (unblank m) = live_fb m"
proof (rule live_fb_cong)
  have "cells_apart FB_R_SOF1 4 VO_CONTROL 4"
    by (simp add: cells_apart_def sof_span) (simp add: VO_CONTROL_def span_def bus_def)
  then show "ld32 FB_R_SOF1 (unblank m) = ld32 FB_R_SOF1 m"
    by (simp add: unblank_def reg_w_def ld32_st32_other)
qed

lemma hex_paint_pixel:
  assumes "fb = live_fb m" "X < 640" "Y < 480" "x + 80 \<le> 640" "y + 10 \<le> 480"
  shows "get_px fb (Y * 640 + X) (hex_paint_c x y val fg bg m) =
    hex_picture x y val fg bg X Y (get_px fb (Y * 640 + X) m)"
proof -
  let ?j = "Y * 640 + X" and ?pic = "hex_picture x y val fg bg X Y 0"
  have ok: "fb_ok fb" using assms(1) live_fb_ok [of m] by simp
  have row: "get_px fb ?j (fold (\<lambda>c. hex_cell fb x y val fg bg d r c) [0 ..< 3] m') =
    (if \<exists>c \<in> set [0 ..< 3]. in_cell x y X Y d r c then ?pic else get_px fb ?j m')" if "d < 8" "r < 5" for d r m'
    by (rule fb.get_fold) (use hex_cell_pixel [OF ok assms(2-5) that] in simp)
  have digit: "get_px fb ?j (fold (\<lambda>r. fold (\<lambda>c. hex_cell fb x y val fg bg d r c) [0 ..< 3]) [0 ..< 5] m') =
    (if \<exists>r \<in> set [0 ..< 5]. \<exists>c \<in> set [0 ..< 3]. in_cell x y X Y d r c then ?pic else get_px fb ?j m')" if "d < 8" for d m'
    by (rule fb.get_fold) (use row [OF that] in simp)
  have all: "get_px fb ?j (hex_paint_c x y val fg bg m) =
    (if \<exists>d \<in> set [0 ..< 8]. \<exists>r \<in> set [0 ..< 5]. \<exists>c \<in> set [0 ..< 3]. in_cell x y X Y d r c
     then ?pic else get_px fb ?j (unblank m))"
    unfolding hex_paint_c_def Let_def live_fb_unblank assms(1) [symmetric]
    by (rule fb.get_fold) (use digit in simp)
  have "(\<exists>d \<in> set [0 ..< 8]. \<exists>r \<in> set [0 ..< 5]. \<exists>c \<in> set [0 ..< 3]. in_cell x y X Y d r c) \<longleftrightarrow>
    (\<exists>d < 8. \<exists>r < 5. \<exists>c < 3. in_cell x y X Y d r c)" by (simp add: Bex_def)
  also have "\<dots> \<longleftrightarrow> x \<le> X \<and> y \<le> Y \<and> (X - x) div 10 < 8 \<and> (Y - y) div 2 < 5 \<and> (X - x) mod 10 div 2 < 3"
    by (simp only: in_cell_iff cong: conj_cong) blast
  also have "\<dots> \<longleftrightarrow> x \<le> X \<and> X < x + 80 \<and> y \<le> Y \<and> Y < y + 10 \<and> (X - x) mod 10 < 6"
    unfolding glyph_range using less_diff_conv2 [of x X 80] less_diff_conv2 [of y Y 10] by (metis add.commute)
  finally have "(\<exists>d \<in> set [0 ..< 8]. \<exists>r \<in> set [0 ..< 5]. \<exists>c \<in> set [0 ..< 3]. in_cell x y X Y d r c) \<longleftrightarrow>
    x \<le> X \<and> X < x + 80 \<and> y \<le> Y \<and> Y < y + 10 \<and> (X - x) mod 10 < 6" .
  with all show ?thesis
    using unblank_pixel [OF loadbar_px [OF ok assms(2,3)]] by (auto simp: hex_picture_def)
qed

section \<open>Reading the digits back\<close>

text \<open>What a viewer does: look at one pixel of each cell of a glyph, find the glyph in the font, and put the
  eight digits together.\<close>

definition glyph_at :: "u32 \<Rightarrow> nat \<Rightarrow> nat \<Rightarrow> u16 \<Rightarrow> nat \<Rightarrow> machine \<Rightarrow> bool list" where
  "glyph_at fb x y fg d m =
     map (\<lambda>(r, c). get_px fb ((y + r * 2) * 640 + (x + d * 10 + c * 2)) m = fg) (List.product [0 ..< 5] [0 ..< 3])"

definition font_glyph :: "nat \<Rightarrow> bool list" where
  "font_glyph n = map (\<lambda>(r, c). font_bit n r c) (List.product [0 ..< 5] [0 ..< 3])"

definition read_digit :: "bool list \<Rightarrow> nat option" where
  "read_digit g = List.find (\<lambda>n. font_glyph n = g) [0 ..< 16]"

definition read_hex :: "u32 \<Rightarrow> nat \<Rightarrow> nat \<Rightarrow> u16 \<Rightarrow> machine \<Rightarrow> u32 option" where
  "read_hex fb x y fg m =
     fold (\<lambda>d acc. case (acc, read_digit (glyph_at fb x y fg d m)) of
         (Some v, Some n) \<Rightarrow> Some (v * 16 + word_of_nat n) | _ \<Rightarrow> None) [0 ..< 8] (Some 0)"

lemma read_font: "n < 16 \<Longrightarrow> read_digit (font_glyph n) = Some n"
proof -
  have "\<forall>n \<in> set [0 ..< 16]. read_digit (font_glyph n) = Some n" by code_simp
  then show "n < 16 \<Longrightarrow> ?thesis" by simp
qed

lemma nibble_lt: "nibble val d < 16"
proof -
  have "drop_bit ((7 - d) * 4) val AND 0xf \<le> (0xf :: u32)" by (rule word_and_le1)
  then show ?thesis by (simp add: nibble_def word_le_nat_alt)
qed

lemma nibbles: "fold (\<lambda>d v. v * 16 + word_of_nat (nibble val d)) [0 ..< 8] 0 = val"
proof -
  have s: "v * 16 = push_bit 4 v" for v :: u32 by (simp add: push_bit_eq_mult)
  have p: "push_bit 4 v + (w AND 0xf) = push_bit 4 v OR (w AND 0xf)" for v w :: u32
    by (rule disjunctive_add) (auto simp: bit_simps bit_numeral_rec split: nat.splits)
  have n: "word_of_nat (nibble val d) = drop_bit ((7 - d) * 4) val AND 0xf" for d
    by (simp add: nibble_def)
  have "fold (\<lambda>d v. v * 16 + word_of_nat (nibble val d)) [0 ..< 8] 0 = foldr (\<lambda>k w. push_bit k (drop_bit k val AND 0xf) OR w) [28, 24, 20, 16, 12, 8, 4, 0] 0"
    unfolding n s p by (simp add: upt_rec ac_simps)
  also have "\<dots> = val"
  proof (rule bit_word_eqI)
    fix i
    assume "i < LENGTH(32)"
    then have "i < 32" by simp
    have f: "bit (push_bit k (drop_bit k val AND 0xf)) i \<longleftrightarrow> k \<le> i \<and> i < k + 4 \<and> bit val i" for k
    proof -
      have m: "(0xf :: u32) = mask 4" by (simp add: mask_eq_exp_minus_1)
      have "bit (0xf :: u32) j \<longleftrightarrow> j < 4" for j unfolding m by (simp only: bit_mask_iff) auto
      then have "bit (push_bit k (drop_bit k val AND 0xf)) i \<longleftrightarrow> k \<le> i \<and> possible_bit TYPE(32 word) i \<and> bit val (k + (i - k)) \<and> i - k < 4"
        by (simp only: bit_push_bit_iff bit_drop_bit_eq bit_and_iff comp_def)
      then show ?thesis using \<open>i < 32\<close> by auto
    qed
    have "foldr (\<lambda>k w. push_bit k (drop_bit k val AND 0xf) OR w) ks 0 = w \<Longrightarrow>
      bit w i \<longleftrightarrow> (\<exists>k \<in> set ks. k \<le> i \<and> i < k + 4 \<and> bit val i)" for ks and w :: u32
      by (induction ks arbitrary: w) (auto simp: bit_or_iff f simp del: push_bit_and)
    note digits = this [OF refl, of "[28, 24, 20, 16, 12, 8, 4, 0]"]
    have "28 \<le> i \<and> i < 28 + 4 \<or> 24 \<le> i \<and> i < 24 + 4 \<or> 20 \<le> i \<and> i < 20 + 4 \<or> 16 \<le> i \<and> i < 16 + 4 \<or>
        12 \<le> i \<and> i < 12 + 4 \<or> 8 \<le> i \<and> i < 8 + 4 \<or> 4 \<le> i \<and> i < 4 + 4 \<or> 0 \<le> i \<and> i < 0 + 4"
      using \<open>i < 32\<close> by linarith
    then have "\<exists>k \<in> set [28, 24, 20, 16, 12, 8, 4, 0]. k \<le> i \<and> i < k + 4"
      by (simp only: list.set bex_simps simp_thms)
    then show "bit (foldr (\<lambda>k w. push_bit k (drop_bit k val AND 0xf) OR w) [28, 24, 20, 16, 12, 8, 4, 0] 0) i = bit val i"
      using digits by blast
  qed
  finally show ?thesis .
qed

text \<open>Each digit is found where it was painted, if lit and unlit cells can be told apart.\<close>

lemma glyph_painted:
  assumes "fb = live_fb m" "x + 80 \<le> 640" "y + 10 \<le> 480" "fg \<noteq> bg" "d < 8"
    and p: "\<And>X Y. X < 640 \<Longrightarrow> y \<le> Y \<Longrightarrow> Y < y + 10 \<Longrightarrow>
      get_px fb (Y * 640 + X) m' = get_px fb (Y * 640 + X) (hex_paint_c x y val fg bg m)"
  shows "glyph_at fb x y fg d m' = font_glyph (nibble val d)"
  unfolding glyph_at_def font_glyph_def
proof (rule map_cong [OF refl], clarify)
  fix r c :: nat
  assume "(r, c) \<in> set (List.product [0 ..< 5] [0 ..< 3])"
  then have rc: "r < 5" "c < 3" by auto
  let ?X = "x + d * 10 + c * 2" and ?Y = "y + r * 2"
  have i: "x \<le> ?X" "y \<le> ?Y" "(?X - x) div 10 = d" "(?X - x) mod 10 div 2 = c" "(?Y - y) div 2 = r"
    using in_cell_iff [OF rc(2), of x y ?X ?Y d r] by (simp_all add: in_cell_def)
  have r: "?X < x + 80" "?Y < y + 10" using assms(5) rc by linarith+
  then have "?X < 640" "?Y < 480" using assms(2,3) by linarith+
  from hex_paint_pixel [OF assms(1) this assms(2,3)] p [OF this(1) i(2) r(2)]
  have "get_px fb (?Y * 640 + ?X) m' = hex_picture x y val fg bg ?X ?Y (get_px fb (?Y * 640 + ?X) m)"
    by simp
  also have "\<dots> = (if font_bit (nibble val d) r c then fg else bg)"
    using i r glyph_range(2) [of "?X - x"] rc unfolding hex_picture_def by simp
  finally show "(get_px fb ((y + r * 2) * 640 + (x + d * 10 + c * 2)) m' = fg) = font_bit (nibble val d) r c"
    using assms(4) by simp
qed

lemma read_painted:
  assumes "fb = live_fb m" "x + 80 \<le> 640" "y + 10 \<le> 480" "fg \<noteq> bg"
    and "\<And>X Y. X < 640 \<Longrightarrow> y \<le> Y \<Longrightarrow> Y < y + 10 \<Longrightarrow>
      get_px fb (Y * 640 + X) m' = get_px fb (Y * 640 + X) (hex_paint_c x y val fg bg m)"
  shows "read_hex fb x y fg m' = Some val"
proof -
  have "fold (\<lambda>d acc. case (acc, read_digit (glyph_at fb x y fg d m')) of
      (Some v, Some n) \<Rightarrow> Some (v * 16 + word_of_nat n) | _ \<Rightarrow> None) ds (Some v) =
    Some (fold (\<lambda>d v. v * 16 + word_of_nat (nibble val d)) ds v)" if "set ds \<subseteq> {..< 8}" for ds and v :: u32
    using that
  proof (induction ds arbitrary: v)
    case (Cons d ds)
    then have "read_digit (glyph_at fb x y fg d m') = Some (nibble val d)"
      using glyph_painted [OF assms(1-4) _ assms(5)] read_font [OF nibble_lt] by simp
    with Cons show ?case by simp
  qed simp
  moreover have "set [0 ..< 8] \<subseteq> {..< 8 :: nat}" by auto
  ultimately show ?thesis
    unfolding read_hex_def using nibbles [of val] by (simp only:)
qed

section \<open>The fatal screen\<close>

lemma vram_word: "i < 0x40000 \<Longrightarrow> unat (VRAM + 4 * word_of_nat i) = 0xa5000000 + 4 * i"
  using unat_add_of_nat [of VRAM "4 * i"] by (simp add: VRAM_def)

lemma live_fb_st32:
  assumes "cells_apart FB_R_SOF1 4 a 4"
  shows "live_fb (st32 a v m) = live_fb m"
  by (rule live_fb_cong) (simp add: ld32_st32_other [OF assms])

lemma p2_bus: "0xa0000000 \<le> unat a \<Longrightarrow> unat a + 4 \<le> 0xc0000000 \<Longrightarrow>
  span a 4 \<and> \<not> cached a \<and> unat (bus a) = unat a - 0xa0000000"
proof -
  assume a: "0xa0000000 \<le> unat a" "unat a + 4 \<le> 0xc0000000"
  then have "unat a div 536870912 = 5" "unat a mod 536870912 = unat a - 0xa0000000"
    by (simp_all add: div_nat_eqI mod_nat_eqI)
  with a show ?thesis by (simp add: span_def cached_div unat_bus_div)
qed

lemma pixel_st32:
  assumes "px_ok fb i" "0xa0000000 \<le> unat a" "unat a + 4 \<le> 0xc0000000"
    and "unat fb + 2 * i + 2 \<le> unat a \<or> unat a + 4 \<le> unat fb + 2 * i"
  shows "get_px fb i (st32 a v m) = get_px fb i m"
proof -
  let ?p = "fb + 2 * word_of_nat i"
  have "0xa5000000 \<le> unat fb" using assms(1) by (simp add: px_ok_def fb_ok_def)
  then have "cells_apart ?p 2 a 4"
    using assms(4) px_facts [OF assms(1)] p2_bus [OF assms(2,3)] by (auto simp: cells_apart_def)
  then have "mem.apart ?p a 4" "mem.apart (?p + 1) a 4"
    using cells_apart_byte [of ?p 2 a 4 0] cells_apart_byte [of ?p 2 a 4 1] by simp_all
  then show ?thesis
    using p2_bus [OF assms(2,3)] by (simp add: get_px_def ld16_def ld8_st32_other)
qed

text \<open>A word store over a pixel leaves one of its halves there.\<close>

lemma pixel_st32_hit:
  assumes "px_ok fb i" "unat fb + 2 * i = unat a \<or> unat fb + 2 * i = unat a + 2"
    and "0xa0000000 \<le> unat a" "unat a + 4 \<le> 0xc0000000" "v = ucast c OR push_bit 16 (ucast (c :: u16))"
  shows "get_px fb i (st32 a v m) = c"
proof -
  let ?p = "fb + 2 * word_of_nat i"
  have "\<not> bit c (16 + n)" "\<not> bit c (24 + n)" for n
    using bit_imp_le_length [of c "16 + n"] bit_imp_le_length [of c "24 + n"] by auto
  then have b: "ucast (drop_bit 8 v) = (ucast (drop_bit 8 c) :: u8)" "ucast (drop_bit 16 v) = (ucast c :: u8)"
    "ucast (drop_bit 24 v) = (ucast (drop_bit 8 c) :: u8)" "ucast v = (ucast c :: u8)"
    unfolding assms(5) by (auto intro!: bit_eqI simp: bit_simps)
  have s: "span a 4" using p2_bus [OF assms(3,4)] by simp
  have e: "ld8 a (st32 a v m) = ucast c" "ld8 (a + 1) (st32 a v m) = ucast (drop_bit 8 c)"
    "ld8 (a + 2) (st32 a v m) = ucast c" "ld8 (a + 3) (st32 a v m) = ucast (drop_bit 8 c)"
    using b by (simp_all add: st32_bytes store_nth4 [OF s] del: store_bytes.simps)
  have "?p = a \<or> ?p = a + 2"
    using assms(2) px_addr [OF assms(1)] assms(4) by (auto simp: word_unat_eq_iff unat_add_lt)
  then show ?thesis
  proof
    assume "?p = a"
    then show ?thesis using e by (simp add: get_px_def ld16_def bytes_of_u16)
  next
    assume "?p = a + 2"
    then show ?thesis using e by (simp add: get_px_def ld16_def bytes_of_u16 add.assoc)
  qed
qed

definition die_half :: "u32 \<Rightarrow> u16" where
  "die_half code = ucast (die_color code)"

lemma die_color_halves: "die_color code = ucast (die_half code) OR push_bit 16 (ucast (die_half code))"
  by (simp add: die_color_def die_half_def)

text \<open>The fill paints the first megabyte of video memory, and nothing beyond it.\<close>

lemma fill_pixel:
  assumes "px_ok fb j" "even (unat fb)" "k \<le> 0x40000"
  shows "get_px fb j (fold (\<lambda>i. st32 (VRAM + 4 * word_of_nat i) (die_color code)) [0 ..< k] m) =
    (if unat fb + 2 * j < 0xa5000000 + 4 * k then die_half code else get_px fb j m)"
  using assms(3)
proof (induction k)
  case 0
  have "0xa5000000 \<le> unat fb" using assms(1) by (simp add: px_ok_def fb_ok_def)
  then show ?case by simp
next
  case (Suc k)
  let ?a = "VRAM + 4 * word_of_nat k"
  have u: "unat ?a = 0xa5000000 + 4 * k" using Suc.prems by (intro vram_word) simp
  obtain b where b: "unat fb = 2 * b" using assms(2) by (elim evenE)
  consider "b + j < 0x52800000 + 2 * k" | "b + j = 0x52800000 + 2 * k \<or> b + j = 0x52800001 + 2 * k"
    | "0x52800002 + 2 * k \<le> b + j"
    by linarith
  then show ?case
  proof cases
    case 2
    then have "get_px fb j (st32 ?a (die_color code) m') = die_half code" for m'
      using Suc.prems u b by (intro pixel_st32_hit assms(1) die_color_halves) auto
    then show ?thesis using 2 b by auto
  qed (use b u Suc pixel_st32 [OF assms(1), of ?a "die_color code"] in auto)
qed

lemma live_fb_put_px: "px_ok fb i \<Longrightarrow> live_fb (put_px fb i c m) = live_fb m"
proof (rule live_fb_cong)
  assume p: "px_ok fb i"
  let ?a = "fb + 2 * word_of_nat i"
  have "0xa5000000 \<le> unat fb" using p by (simp add: px_ok_def fb_ok_def)
  then have c: "cells_apart FB_R_SOF1 4 ?a 2"
    using px_facts [OF p] sof_span by (auto simp: cells_apart_def)
  show "ld32 FB_R_SOF1 (put_px fb i c m) = ld32 FB_R_SOF1 m"
    unfolding put_px_def ld32_def
    using cells_apart_byte [OF c, of 0] cells_apart_byte [OF c, of 1] cells_apart_byte [OF c, of 2]
      cells_apart_byte [OF c, of 3] px_facts(1) [OF p] by (simp add: ld8_st16_other)
qed

lemma live_fb_fold:
  "(\<And>x m. x \<in> set xs \<Longrightarrow> live_fb (f x m) = live_fb m) \<Longrightarrow> live_fb (fold f xs m) = live_fb m"
  by (induction xs arbitrary: m) simp_all

lemma live_fb_hex_cell:
  assumes "fb_ok fb" "x + 80 \<le> 640" "y + 10 \<le> 480" "d < 8" "r < 5" "c < 3"
  shows "live_fb (hex_cell fb x y val fg bg d r c m) = live_fb m"
proof -
  have "px_ok fb ((y + r * 2 + j) * 640 + (x + d * 10 + c * 2 + i))" if "i \<le> 1" "j \<le> 1" for i j
    by (rule loadbar_px) (use assms that in simp_all)
  from this [of 0 0] this [of 1 0] this [of 0 1] this [of 1 1] show ?thesis
    by (simp add: hex_cell_def Let_def live_fb_put_px add.assoc)
qed

lemma live_fb_hex_paint:
  assumes "x + 80 \<le> 640" "y + 10 \<le> 480"
  shows "live_fb (hex_paint x y val m) = live_fb m"
proof -
  have "live_fb (hex_paint_c x y val fg bg m) = live_fb (unblank m)" for fg bg
    unfolding hex_paint_c_def Let_def
    by (intro live_fb_fold live_fb_hex_cell assms live_fb_ok) simp_all
  then show ?thesis by (simp add: hex_paint_def)
qed

text \<open>The machine the fatal screen is left in, step by step.\<close>

definition die_record :: "u32 \<Rightarrow> u32 \<Rightarrow> u32 \<Rightarrow> machine \<Rightarrow> machine" where
  "die_record code a b m =
     (let e = P2ADDR SHIM_ERR in st32 e code (st32 (e + 12) 0xdeadcafe (st32 (e + 8) b (st32 (e + 4) a m))))"

definition die_fill :: "u32 \<Rightarrow> machine \<Rightarrow> machine" where
  "die_fill code = fold (\<lambda>i. st32 (VRAM + 4 * word_of_nat i) (die_color code)) [0 ..< 0x40000]"

lemma die_steps:
  assumes "\<not> SHIM_SERIAL E"
  shows "(shim_die E code a b m :: 'a outcome) =
    Die code a b (hex_paint 20 128 b (hex_paint 20 114 a (hex_paint 20 100 code (die_fill code (die_record code a b m)))))"
  using assms unfolding shim_die_def Let_def die_record_def die_fill_def by simp

lemma err_words: "unat (P2ADDR SHIM_ERR + 4) = 0xacfc8004" "unat (P2ADDR SHIM_ERR + 8) = 0xacfc8008"
  "unat (P2ADDR SHIM_ERR + 12) = 0xacfc800c" "unat (P2ADDR SHIM_ERR) = 0xacfc8000"
  by (simp_all add: src_consts P2ADDR_def)

lemma record_pixel:
  assumes "px_ok fb j"
  shows "get_px fb j (die_record code a b m) = get_px fb j m"
proof -
  have "unat fb + 2 * j + 2 \<le> 0xacfc8000" using assms by (simp add: px_ok_def fb_ok_def)
  then show ?thesis
    using err_words by (simp add: die_record_def Let_def pixel_st32 [OF assms])
qed

lemma die_fb: "live_fb (die_fill code (die_record code a b m)) = live_fb m"
proof -
  have c: "cells_apart FB_R_SOF1 4 q 4" if "0xa5000000 \<le> unat q" "unat q + 4 \<le> 0xc0000000" for q
    using p2_bus [of q] sof_span that by (auto simp: cells_apart_def)
  have "live_fb (die_fill code m') = live_fb m'" for m'
    unfolding die_fill_def
  proof (rule live_fb_fold)
    fix i m''
    assume "i \<in> set [0 ..< 0x40000]"
    from in_upt [OF this] show "live_fb (st32 (VRAM + 4 * word_of_nat i) (die_color code) m'') = live_fb m''"
      using vram_word [of i] by (intro live_fb_st32 c) simp_all
  qed
  moreover have "live_fb (die_record code a b m) = live_fb m"
    using c err_words by (simp add: die_record_def Let_def live_fb_st32)
  ultimately show ?thesis by simp
qed

lemma live_fb_even: "even (unat (live_fb m))"
proof -
  have "\<not> bit (unat (ld32 FB_R_SOF1 m AND 0x00fffffc)) 0"
    by (simp only: bit_unsigned_iff bit_and_iff) simp
  then have "even (unat (ld32 FB_R_SOF1 m AND 0x00fffffc))"
    by (simp only: bit_0 not_not)
  moreover have "unat (live_fb m) = unat VRAM + unat (ld32 FB_R_SOF1 m AND 0x00fffffc)"
  proof -
    have "unat (ld32 FB_R_SOF1 m AND 0x00fffffc) \<le> 0x00fffffc"
      using word_and_le1 [of "ld32 FB_R_SOF1 m" "0x00fffffc"] by (simp add: word_le_nat_alt)
    then show ?thesis by (simp add: live_fb_def VRAM_def unat_add_lt)
  qed
  ultimately show ?thesis by (simp add: VRAM_def)
qed

text \<open>What is painted at a row of digits stays when later rows are painted below.\<close>

lemma hex_paint_elsewhere:
  assumes "fb = live_fb m" "X < 640" "Y < 480" "x + 80 \<le> 640" "y + 10 \<le> 480" "Y < y \<or> y + 10 \<le> Y"
  shows "get_px fb (Y * 640 + X) (hex_paint x y val m) = get_px fb (Y * 640 + X) m"
  unfolding hex_paint_def hex_paint_pixel [OF assms(1-5)] using assms(6) by (auto simp: hex_picture_def)

lemma die_shows:
  assumes "\<not> SHIM_SERIAL E" "fb = live_fb m"
  shows "\<exists>m1. (shim_die E code a b m :: 'a outcome) = Die code a b m1 \<and> live_fb m1 = fb \<and>
    read_hex fb 20 100 0x07ff m1 = Some code \<and> read_hex fb 20 114 0x07ff m1 = Some a \<and>
    read_hex fb 20 128 0x07ff m1 = Some b \<and>
    (\<forall>X < 640. \<forall>Y < 480. Y < 100 \<or> 138 \<le> Y \<longrightarrow> get_px fb (Y * 640 + X) m1 =
      (if unat fb + 2 * (Y * 640 + X) < 0xa5100000 then die_half code else get_px fb (Y * 640 + X) m))"
proof -
  let ?m0 = "die_fill code (die_record code a b m)"
  let ?m1 = "hex_paint 20 100 code ?m0" let ?m2 = "hex_paint 20 114 a ?m1" let ?m3 = "hex_paint 20 128 b ?m2"
  have f: "fb = live_fb ?m0" "fb = live_fb ?m1" "fb = live_fb ?m2" "fb = live_fb ?m3"
    using assms(2) by (simp_all add: live_fb_hex_paint die_fb)
  note e1 = hex_paint_elsewhere [OF f(1), of _ _ 20 100 code] and e2 = hex_paint_elsewhere [OF f(2), of _ _ 20 114 a]
    and e3 = hex_paint_elsewhere [OF f(3), of _ _ 20 128 b]
  have r: "read_hex fb 20 100 0x07ff ?m3 = Some code"
    by (rule read_painted [OF f(1), where bg = 0]) (use e2 e3 in \<open>simp_all add: hex_paint_def [of 20 100 code ?m0, symmetric]\<close>)
  moreover have "read_hex fb 20 114 0x07ff ?m3 = Some a"
    by (rule read_painted [OF f(2), where bg = 0]) (use e3 in \<open>simp_all add: hex_paint_def [of 20 114 a ?m1, symmetric]\<close>)
  moreover have "read_hex fb 20 128 0x07ff ?m3 = Some b"
    by (rule read_painted [OF f(3), where bg = 0]) (simp_all add: hex_paint_def)
  moreover have "get_px fb (Y * 640 + X) ?m3 =
      (if unat fb + 2 * (Y * 640 + X) < 0xa5100000 then die_half code else get_px fb (Y * 640 + X) m)"
    if "X < 640" "Y < 480" "Y < 100 \<or> 138 \<le> Y" for X Y
  proof -
    have p: "px_ok fb (Y * 640 + X)" by (rule loadbar_px) (use that assms(2) live_fb_ok in simp_all)
    have "get_px fb (Y * 640 + X) ?m3 = get_px fb (Y * 640 + X) ?m0"
      using that e1 [of X Y] e2 [of X Y] e3 [of X Y] by auto
    also have "\<dots> = (if unat fb + 2 * (Y * 640 + X) < 0xa5000000 + 4 * 0x40000 then die_half code
        else get_px fb (Y * 640 + X) (die_record code a b m))"
      unfolding die_fill_def by (rule fill_pixel [OF p]) (use assms(2) live_fb_even in simp_all)
    finally show ?thesis by (simp add: record_pixel [OF p])
  qed
  ultimately show ?thesis
    using die_steps [OF assms(1), of code a b m] f(4) by (intro exI [of _ ?m3]) auto
qed

end
