(* ===== verification/Screen_Props.thy ===== *)
theory Screen_Props
  imports Screen Demo
begin

text \<open>The properties of what is read off the television.\<close>

text \<open>
  C38. Digits are legible: eight glyphs painted anywhere on the live frame buffer read back as the number,
  and pixel by pixel the screen is the documented picture, with everything around it left alone.
\<close>

theorem digits_legible:
  assumes "x + 80 \<le> 640" "y + 10 \<le> 480" "fg \<noteq> bg"
  shows "read_hex (live_fb m) x y fg (hex_paint_c x y val fg bg m) = Some val \<and>
    (\<forall>X < 640. \<forall>Y < 480. get_px (live_fb m) (Y * 640 + X) (hex_paint_c x y val fg bg m) =
       hex_picture x y val fg bg X Y (get_px (live_fb m) (Y * 640 + X) m))"
  by (intro conjI allI impI read_painted [OF refl assms] hex_paint_pixel [OF refl _ _ assms(1,2)] refl)

lemma digits_legible_witness:
  "read_hex (live_fb demo_zero) 470 180 0 (hex_paint_c 470 180 0x12ab 0 0xffff demo_zero) = Some 0x12ab"
  using digits_legible [of 470 180 0 "0xffff" demo_zero "0x12ab"] by simp

text \<open>
  C39. The fatal screen can be read wherever the frame buffer is: the code and both arguments stand on it
  in digits. Its colour fills exactly the part of the frame that lies in the first megabyte of video
  memory; a frame scanned out from beyond it keeps its old picture around the digits.
\<close>

theorem die_screen:
  assumes "\<not> SHIM_SERIAL E"
  shows "\<exists>m1. (shim_die E code a b m :: 'a outcome) = Die code a b m1 \<and> live_fb m1 = live_fb m \<and>
    read_hex (live_fb m) 20 100 0x07ff m1 = Some code \<and> read_hex (live_fb m) 20 114 0x07ff m1 = Some a \<and>
    read_hex (live_fb m) 20 128 0x07ff m1 = Some b \<and>
    (\<forall>X < 640. \<forall>Y < 480. Y < 100 \<or> 138 \<le> Y \<longrightarrow> get_px (live_fb m) (Y * 640 + X) m1 =
      (if unat (live_fb m) + 2 * (Y * 640 + X) < 0xa5100000 then die_half code
       else get_px (live_fb m) (Y * 640 + X) m))"
  by (rule die_shows [OF assms refl])

lemma die_screen_witness:
  "\<exists>m1. (shim_die demo_env 4 0xb000 0x1234 (st32 FB_R_SOF1 0x4fd000 demo_zero) :: unit outcome) = Die 4 0xb000 0x1234 m1 \<and>
     read_hex 0xa54fd000 20 100 0x07ff m1 = Some 4 \<and>
     get_px 0xa54fd000 0 m1 = get_px 0xa54fd000 0 (st32 FB_R_SOF1 0x4fd000 demo_zero)"
proof -
  let ?m = "st32 FB_R_SOF1 0x4fd000 demo_zero"
  have l: "live_fb ?m = 0xa54fd000"
    by (simp add: live_fb_def ld32_st32_same sof_span VRAM_def)
  have "\<not> SHIM_SERIAL demo_env" by (simp add: demo_env_def)
  from die_screen [where 'a = unit, OF this, of 4 "0xb000" "0x1234" ?m] obtain m1 where
    "(shim_die demo_env 4 0xb000 0x1234 ?m :: unit outcome) = Die 4 0xb000 0x1234 m1"
    "read_hex 0xa54fd000 20 100 0x07ff m1 = Some 4"
    "get_px 0xa54fd000 (0 * 640 + 0) m1 = (if unat (0xa54fd000 :: u32) + 2 * (0 * 640 + 0) < 0xa5100000 then die_half 4
       else get_px 0xa54fd000 (0 * 640 + 0) ?m)"
    unfolding l by fastforce
  then show ?thesis by auto
qed

end
