(* ===== verification/Session.thy ===== *)
theory Session
  imports Statics Cart_Lemmas
begin

text \<open>
  The shim over a whole play session. The game calls the cartridge service, the frame service, the builders and
  the hooks in any order, and does in between what it likes as long as it keeps its hands off the shim's
  variables and its own stack where it was: the invariants of all components hold together at every call.
\<close>

section \<open>What the game may do\<close>

definition game_step :: "env \<Rightarrow> machine \<Rightarrow> machine \<Rightarrow> bool" where
  "game_step E m m' \<longleftrightarrow> cartd m' = cartd m \<and> maind m' = maind m \<and> utild m' = utild m \<and> (call_ok E m \<longrightarrow> call_ok E m')"

text \<open>Two routines of the game are called by the shim: the engine and the video initialisation.\<close>

definition game_ok :: "env \<Rightarrow> bool" where
  "game_ok E \<longleftrightarrow> (\<forall>m. game_step E m (snd (engine E m))) \<and> (\<forall>a b c d m. game_step E m (snd (vid_sdk E a b c d m)))"

lemma game_ok_engine: "game_ok E \<Longrightarrow> engine_keeps E"
  by (simp add: game_ok_def game_step_def engine_keeps_def)

text \<open>A session: the cartridge requests served so far, by offset, length and destination.\<close>

inductive session :: "env \<Rightarrow> machine \<Rightarrow> (u32 \<times> u32 \<times> u32) list \<Rightarrow> machine \<Rightarrow> bool" for E :: env and m0 :: machine where
  booted: "session E m0 [] m0"
| streamed: "session E m0 rs m \<Longrightarrow> 0x0c010000 \<le> unat (cart_dest m) \<Longrightarrow> shim_cart_service E m = Ret () m' \<Longrightarrow>
    session E m0 (rs @ [(cart_off m, cart_len m, cart_dest m)]) m'"
| framed: "session E m0 rs m \<Longrightarrow> shim_maple_steady E m = Ret rc m' \<Longrightarrow> session E m0 rs m'"
| built: "session E m0 rs m \<Longrightarrow> rcv_ok (GW (GW 0x8c0e6400 m + 0x04) m) \<Longrightarrow> shim_maple_boot E arg0 m = Ret () m' \<Longrightarrow>
    session E m0 rs m'"
| polled: "session E m0 rs m \<Longrightarrow> (GW (GW 0x8c0e8410 m + 0x0fc0) m = 1 \<Longrightarrow> rcv_ok (entry_recv m)) \<Longrightarrow>
    shim_maple_entry E m = Ret v m' \<Longrightarrow> session E m0 rs m'"
| hooked: "session E m0 rs m \<Longrightarrow> hook E m m' \<Longrightarrow> session E m0 rs m'"
| played: "session E m0 rs m \<Longrightarrow> game_step E m m' \<Longrightarrow> session E m0 rs m'"

section \<open>What every operation leaves alone\<close>

text \<open>The caller's context and the variables of \<^verbatim>\<open>cart.c\<close>.\<close>

definition same_side :: "machine \<Rightarrow> machine \<Rightarrow> bool" where
  "same_side m m' \<longleftrightarrow> cpu m' = cpu m \<and> cartd m' = cartd m"

lemma same_side_refl [simp, intro]: "same_side m m"
  by (simp add: same_side_def)

lemma same_side_trans [trans]: "same_side a b \<Longrightarrow> same_side b c \<Longrightarrow> same_side a c"
  by (simp add: same_side_def)

lemma serves_side: "serves_at R m m' \<Longrightarrow> same_side m m'"
  by (simp add: serves_at_def same_side_def)

lemma dev_side: "dev_only m m' \<Longrightarrow> same_side m m'"
  by (simp add: dev_only_def same_side_def)

lemma HUD_side: "release E \<Longrightarrow> same_side m (HUD_ONCE E b s c m)"
  by (rule serves_side [OF HUD_ONCE_serves [where R = reply_area]])

lemma side_stores [simp]:
  "same_side m (store_bytes a bs m') = same_side m m'" "same_side m (st32 a v m') = same_side m m'"
  "same_side m (upd_main f m') = same_side m m'" "same_side m (reg_w a v m') = same_side m m'"
  by (simp_all add: same_side_def upd_main_def)

lemma game_side: "game_step E m m' \<Longrightarrow> statics_ok m \<Longrightarrow> statics_ok m'"
  by (simp add: game_step_def statics_ok_def)

lemma boot_side:
  assumes "transport_ok E" "rcv_ok (GW (GW 0x8c0e6400 m + 0x04) m)" "shim_maple_boot E arg0 m = Ret () m'"
  shows "same_side m m'"
proof -
  define m1 where "m1 = latch_jvs (ucast (GB (GW 0x8c0e6400 m + 0x0c) m)) (GB (arg0 + 4) m) m"
  obtain m2 where r: "maple_reply E (ucast (GB (GW 0x8c0e6400 m + 0x0c) m)) (GW (GW 0x8c0e6400 m + 0x04) m)
      (GW 0x8c0e6400 m) m1 = Ret () m2" and m': "m' = reg_w SB_MDST 0 m2"
    using assms(3) by (auto simp: shim_maple_boot_def Let_def bindo_eq_Ret m1_def)
  have "same_side m m1" by (simp add: m1_def latch_jvs_def)
  also have "same_side m1 m2"
    using maple_reply_ends [OF assms(1,2) covers_at] r by (metis ends_ok_simps(1) serves_side)
  finally show ?thesis by (simp add: m')
qed

lemma entry_side:
  assumes "transport_ok E" "GW (GW 0x8c0e8410 m + 0x0fc0) m = 1 \<Longrightarrow> rcv_ok (entry_recv m)" "shim_maple_entry E m = Ret v m'"
  shows "same_side m m'"
proof (cases "GW (GW 0x8c0e8410 m + 0x0fc0) m = 1")
  case True
  define m1 where "m1 = GW_set (GW 0x8c0e8410 m + 0x10b8) (GW (GW 0x8c0e8410 m + 0x10b8) m XOR 1)
    (GW_set (GW (GW 0x8c0e8410 m + 0x10f4) m + 0x04) (entry_recv m) m)"
  obtain u m2 where r: "maple_reply E 0x33 (entry_recv m) 0 m1 = Ret u m2" and m': "same_side m m' = same_side m m2"
    using assms(3) True
    by (auto simp: shim_maple_entry_def Let_def bindo_eq_Ret entry_recv_code m1_def GW_set_def)
  have "same_side m m1" by (simp add: m1_def GW_set_def)
  also have "same_side m1 m2"
    using maple_reply_ends [OF assms(1) assms(2) [OF True] covers_at] r by (metis ends_ok_simps(1) serves_side)
  finally show ?thesis by (simp add: m')
qed (use assms(3) in \<open>simp add: shim_maple_entry_def\<close>)

lemma vid_init_step:
  assumes "game_ok E" "release E" "statics_ok m" "call_ok E m"
  shows "call_ok E (snd (shim_vid_init E mode b c d m))" "statics_ok (snd (shim_vid_init E mode b c d m))"
    "cartd (snd (shim_vid_init E mode b c d m)) = cartd m"
proof -
  obtain vga m1 where c: "shim_cable_is_vga m = (vga, m1)" by (metis prod.exhaust)
  define m2 where "m2 = snd (vid_sdk E (if \<not> vga then mode AND NOT 3 else mode) b c d m1)"
  have m1: "same_side m m1" "statics_ok m1"
    using cable_serves [OF covers_at [of 0], of m] cable_statics [OF assms(3)] c by (simp_all add: serves_side)
  have m2: "game_step E m1 m2" using assms(1) by (simp add: game_ok_def m2_def)
  have e: "snd (shim_vid_init E mode b c d m) = (if SHIM_LOADBAR E then loadbar_paint 0 m2 else m2)"
    using release_builds [OF assms(2)] c by (simp add: shim_vid_init_def ls_stampA_def Let_def split_beta m2_def)
  have p: "dev_only m2 (snd (shim_vid_init E mode b c d m))"
    unfolding e using loadbar_paint_dev_only [of m2 0] by simp
  show "call_ok E (snd (shim_vid_init E mode b c d m))"
    using p m2 m1 assms(4) call_ok_cpu [of m1 m E] call_ok_cpu [of "snd (shim_vid_init E mode b c d m)" m2 E]
    by (simp add: game_step_def same_side_def dev_only_def)
  show "cartd (snd (shim_vid_init E mode b c d m)) = cartd m"
    using p m2 m1 by (simp add: game_step_def same_side_def dev_only_def)
  show "statics_ok (snd (shim_vid_init E mode b c d m))"
    using p game_side [OF m2 m1(2)] by (simp add: dev_only_def statics_ok_def)
qed

lemma hook_step:
  assumes "game_ok E" "release E" "statics_ok m" "call_ok E m" "hook E m m'"
  shows "call_ok E m' \<and> statics_ok m' \<and> cartd m' = cartd m"
proof -
  note vid = vid_init_step [OF assms(1-4)]
  have side: "call_ok E m' \<and> cartd m' = cartd m" if "same_side m m'"
    using that assms(4) call_ok_cpu [of m' m E] by (simp add: same_side_def)
  have st: "same_side m (ls_stampA E s m')" if "same_side m m'" for s m'
    using that by (simp add: ls_stampA_def Let_def same_side_def)
  have mark: "same_side m (shim_mark E s c m')" if "s < 32" "same_side m m'" for s c m'
    using same_side_trans [OF that(2) dev_side [OF shim_mark_dev_only [OF that(1)]]] .
  note h = HUD_side [OF assms(2)]
  have q: "same_side m (scif_puts E t m') = same_side m m'" "same_side m (scif_puthex E v m') = same_side m m'" for t v m'
    using assms(2) by simp_all
  from assms(5) have "same_side m m' \<and> statics_ok m' \<or> (\<exists>mode b c d. m' = snd (shim_vid_init E mode b c d m))"
  proof cases
    case 1
    then show ?thesis using cfg_keeps [OF assms(2,3)] st h by (simp add: shim_cfg_tx_def Let_def)
  next
    case 2
    then show ?thesis using cfg_keeps [OF assms(2,3)] h by (simp add: shim_cfg_rx_def Let_def split_beta q)
  next
    case 3
    then show ?thesis using hook_keeps [OF assms(2,3)] st h by (simp add: shim_ee_read_def Let_def q)
  next
    case 9
    then show ?thesis
      using hook_keeps [OF assms(2,3)] serves_side [OF cable_serves [OF covers_at [of 0], of m]]
      by (simp add: shim_monitor_set_def Let_def split_beta)
  next
    case 10
    then show ?thesis by blast
  qed (use hook_keeps [OF assms(2,3)] mark in \<open>auto simp: shim_ee_write_skip_def shim_ee_lib_decode_def
      shim_ee_lib_post_def shim_ee_idx_read_def shim_settings_skip_def\<close>)
  then show ?thesis using side vid by auto
qed

section \<open>The invariant of a session\<close>

definition session_ok :: "env \<Rightarrow> (u32 \<times> u32 \<times> u32) list \<Rightarrow> machine \<Rightarrow> bool" where
  "session_ok E rs m \<longleftrightarrow> call_ok E m \<and> statics_ok m \<and>
     cart_count (cartd m) = 1 + word_of_nat (length rs) \<and>
     unat (pb_left (cartd m)) = unat PB_TOTAL - (\<Sum>(off, len, dest) \<leftarrow> rs. unat len)"

lemma session_ok_side:
  "session_ok E rs m \<Longrightarrow> call_ok E m' \<Longrightarrow> statics_ok m' \<Longrightarrow> cartd m' = cartd m \<Longrightarrow> session_ok E rs m'"
  by (simp add: session_ok_def)

lemma served_fence:
  assumes "shim_cart_service E m = Ret () m'"
  shows "cart_fence (unat (cart_off m)) (unat (cart_len m)) (unat (cart_dest m))"
proof (rule ccontr)
  assume "\<not> ?thesis"
  then have "cart_refused (cart_off m) (cart_len m) (cart_dest m)"
    using cart_refused_fence [OF unat_off unat_dest] by simp
  then show False
    using assms shim_die_Die [where 'a = unit, of E 2 "cart_off m" "cart_dest m" m]
    by (auto simp: shim_cart_service_def Let_def)
qed

lemma session_invariant:
  assumes "transport_ok E" "game_ok E" "drive_ok E job disc" "unat (CART_FAD E) < 0x80000000" "SHIM_LOADBAR E"
    and "session_ok E [] m0" "session E m0 rs m"
  shows "session_ok E rs m"
  using assms(7)
proof induction
  case booted
  then show ?case by (rule assms(6))
next
  case (streamed rs m m')
  have ns: "\<not> SHIM_SERIAL E" using transport_okD(2) [OF assms(1)] by (simp add: release_def)
  have c: "call_ok E m" using streamed.IH by (simp add: session_ok_def)
  from cart_service_ok [OF assms(3) c ns assms(4) served_fence [OF streamed.hyps(3)] streamed.hyps(2)] streamed.hyps(3)
  have *: "call_ok E m'" "maind m' = maind m" "utild m' = utild m" "cart_count (cartd m') = cart_count (cartd m) + 1"
    "pb_left (cartd m') = (if cart_len m \<ge> pb_left (cartd m) then 0 else pb_left (cartd m) - cart_len m)"
    using assms(5) by (auto simp: untouched_def)
  have "unat (pb_left (cartd m')) = unat (pb_left (cartd m)) - unat (cart_len m)"
    unfolding *(5) by (simp add: word_le_nat_alt unat_sub)
  with * streamed.IH show ?case by (simp add: session_ok_def statics_ok_def)
next
  case (framed rs m rc m')
  have s: "statics_ok m" "call_ok E m" using framed.IH by (simp_all add: session_ok_def)
  note t = transport_okD(1,2) [OF assms(1)]
  let ?me = "snd (engine E (st32 0x8c1c9790 1 m))"
  have "game_step E (st32 0x8c1c9790 1 m) ?me" using assms(2) by (simp add: game_ok_def)
  moreover have "serves ?me m'" using steady_cases [OF assms(1), of m] framed.hyps(2) by auto
  ultimately have "call_ok E m' \<and> cartd m' = cartd m"
    using s call_ok_cpu [of "st32 0x8c1c9790 1 m" m E] call_ok_cpu [of m' ?me E] by (simp add: game_step_def serves_at_def)
  moreover have "statics_ok m'"
    using steady_keeps [OF t game_ok_engine [OF assms(2)] s(1)] framed.hyps(2) by (simp add: keeps_def)
  ultimately show ?case using session_ok_side [OF framed.IH] by blast
next
  case (built rs m arg0 m')
  have s: "statics_ok m" "call_ok E m" using built.IH by (simp_all add: session_ok_def)
  have "call_ok E m' \<and> cartd m' = cartd m"
    using boot_side [OF assms(1) built.hyps(2,3)] s call_ok_cpu [of m' m E] by (simp add: same_side_def)
  moreover have "statics_ok m'"
    using boot_keeps [OF transport_okD(1,2) [OF assms(1)] s(1)] built.hyps(3) by (metis keeps_simps(1))
  ultimately show ?case using session_ok_side [OF built.IH] by blast
next
  case (polled rs m v m')
  have s: "statics_ok m" "call_ok E m" using polled.IH by (simp_all add: session_ok_def)
  have "call_ok E m' \<and> cartd m' = cartd m"
    using entry_side [OF assms(1) polled.hyps(2,3)] s call_ok_cpu [of m' m E] by (simp add: same_side_def)
  moreover have "statics_ok m'"
    using entry_keeps [OF transport_okD(1,2) [OF assms(1)] s(1)] polled.hyps(3) by (metis keeps_simps(1))
  ultimately show ?case using session_ok_side [OF polled.IH] by blast
next
  case (hooked rs m m')
  then show ?case
    using hook_step [OF assms(2) transport_okD(2) [OF assms(1)]] session_ok_side [OF hooked.IH]
    by (metis session_ok_def)
next
  case (played rs m m')
  then show ?case
    using game_side session_ok_side [OF played.IH] by (metis game_step_def session_ok_def)
qed

end
