(* ===== verification/Session_Props.thy ===== *)
theory Session_Props
  imports Session Input_Props
begin

text \<open>The property of whole play sessions.\<close>

text \<open>
  C4. Over any session, however the game interleaves requests, frames, both builders and the hooks with its own
  steps, the components keep each other's invariants: the statics stay well formed, the caller's context stays
  fit for a drive call, the request counter has counted every request and the progress counter every byte. The
  shim stays in service: the next request inside the fence is delivered byte for byte; the next frame, and the
  next per-frame build of a game that is ready, return with the transaction observably done, unless the pads ask
  for a reboot or the frame has an unknown subcommand; and after each of them all invariants hold again.
\<close>

theorem session_serves:
  assumes "transport_ok E" "game_ok E" "drive_ok E job disc" "unat (CART_FAD E) < 0x80000000" "SHIM_LOADBAR E"
    and "session_ok E [] m0" "session E m0 rs m"
  shows "session_ok E rs m \<and>
    (cart_fence (unat (cart_off m)) (unat (cart_len m)) (unat (cart_dest m)) \<longrightarrow> 0x0c010000 \<le> unat (cart_dest m) \<longrightarrow>
      (\<exists>m1. shim_cart_service E m = Ret () m1 \<and> session_ok E (rs @ [(cart_off m, cart_len m, cart_dest m)]) m1 \<and>
        load_bytes (P2ADDR (cart_dest m)) (unat (cart_len m)) m1 = map (\<lambda>i. disc (unat (CART_FAD E) * 2048 + i))
          [unat (cart_off m) ..< unat (cart_off m) + unat (cart_len m)])) \<and>
    ((\<exists>m1. shim_maple_steady E m = Ret (fst (engine E (st32 0x8c1c9790 1 m))) m1 \<and> session_ok E rs m1 \<and>
        MMIR 0x18 m1 AND 1 = 0) \<or>
      (\<exists>m1. shim_maple_steady E m = Reboot m1) \<or> (\<exists>a b m1. shim_maple_steady E m = Die 3 a b m1)) \<and>
    (GW (GW 0x8c0e8410 m + 0x0fc0) m = 1 \<longrightarrow> entry_apart m \<longrightarrow>
      (\<exists>m1. shim_maple_entry E m = Ret 0 m1 \<and> session_ok E rs m1 \<and> \<not> bit (GW (entry_desc m + 0x18) m1) 0) \<or>
      (\<exists>m1. shim_maple_entry E m = Reboot m1))"
proof -
  have ok: "session_ok E rs m" by (rule session_invariant [OF assms])
  have ns: "\<not> SHIM_SERIAL E" using transport_okD(2) [OF assms(1)] by (simp add: release_def)
  have c: "call_ok E m" using ok by (simp add: session_ok_def)
  have served: "session_ok E (rs @ [(cart_off m, cart_len m, cart_dest m)]) m1"
    if "shim_cart_service E m = Ret () m1" "0x0c010000 \<le> unat (cart_dest m)" for m1
    by (rule session_invariant [OF assms(1-6) session.streamed [OF assms(7) that(2,1)]])
  have framed: "session_ok E rs m1" if "shim_maple_steady E m = Ret rc m1" for rc m1
    by (rule session_invariant [OF assms(1-6) session.framed [OF assms(7) that]])
  have polled: "session_ok E rs m1" if "shim_maple_entry E m = Ret v m1" "entry_apart m" for v m1
    using that by (intro session_invariant [OF assms(1-6) session.polled [OF assms(7)]]) (auto simp: entry_apart_def)
  have "\<not> bit (w AND NOT 1) 0" for w :: u32 by (simp add: bit_simps)
  then have e: "entry_apart m \<Longrightarrow> GW (GW 0x8c0e8410 m + 0x0fc0) m = 1 \<Longrightarrow>
      (\<exists>m1. shim_maple_entry E m = Ret 0 m1 \<and> session_ok E rs m1 \<and> \<not> bit (GW (entry_desc m + 0x18) m1) 0) \<or>
      (\<exists>m1. shim_maple_entry E m = Reboot m1)"
    using entry_serves [OF assms(1), of m] polled by metis
  have s: "(\<exists>m1. shim_maple_steady E m = Ret (fst (engine E (st32 0x8c1c9790 1 m))) m1 \<and> session_ok E rs m1 \<and>
        MMIR 0x18 m1 AND 1 = 0) \<or>
      (\<exists>m1. shim_maple_steady E m = Reboot m1) \<or> (\<exists>a b m1. shim_maple_steady E m = Die 3 a b m1)"
    using steady_cases [OF assms(1), of m] framed by blast
  show ?thesis
    using ok served cart_service_ok [OF assms(3) c ns assms(4)] s e by blast
qed

lemma pad_drive_ok: "drive_ok pad_env demo_job demo_disc"
  by (rule disc_drive_ok) (simp add: pad_env_def)

lemma session_serves_witness:
  "\<exists>m1. session pad_env demo_m [(256, 5000, 0x0c100000)] m1 \<and> unat (pb_left (cartd m1)) = 10480760 \<and>
     cart_count (cartd m1) = 2"
proof -
  have f: "CART_FAD pad_env = 451878" "SHIM_LOADBAR pad_env" "\<not> SHIM_SERIAL pad_env"
    by (simp_all add: pad_env_def)
  have g: "game_ok pad_env" by (simp add: game_ok_def game_step_def pad_env_def)
  have c: "call_ok pad_env demo_m" using demo_call_ok(2) by (simp add: call_ok_def pad_env_def)
  have ok: "session_ok pad_env [] demo_m"
    using c by (simp add: session_ok_def statics_ok_def main_ok_def demo_m_def demo_zero_def main_init_def
        util_init_def cart_init_def)
  have "cart_fence (unat (cart_off demo_m)) (unat (cart_len demo_m)) (unat (cart_dest demo_m))"
    "0x0c010000 \<le> unat (cart_dest demo_m)"
    by (simp_all add: demo_regs cart_fence_def)
  from cart_service_ok [OF pad_drive_ok c f(3) _ this] f obtain m1 where
    "shim_cart_service pad_env demo_m = Ret () m1" by auto
  with session.streamed [OF session.booted \<open>0x0c010000 \<le> unat (cart_dest demo_m)\<close>, of pad_env m1]
  have s: "session pad_env demo_m [(256, 5000, 0x0c100000)] m1"
    by (simp only: demo_regs append_Nil)
  have "unat (CART_FAD pad_env) < 0x80000000" by (simp add: f)
  from session_serves [OF pad_transport_ok g pad_drive_ok this f(2) ok s] s
  show ?thesis by (intro exI [of _ m1]) (simp add: session_ok_def PB_TOTAL_def)
qed

end
