(* ===== verification/Host_Tests.thy ===== *)
theory Host_Tests
  imports Cart_Split Jvs
begin

text \<open>
  The repository's host tests (\<^verbatim>\<open>shims/test/test_host.c\<close> and \<^verbatim>\<open>test_shim_iface.c\<close>) run against the model: every
  assertion of the two programs, evaluated on the definitions. They tie the definitions to values
  somebody else wrote down.
\<close>

section \<open>test_host.c: the split of a read\<close>

definition split_of :: "u32 \<Rightarrow> u32 \<Rightarrow> (u32 \<times> u32 \<times> u32) \<times> (u32 \<times> u32) \<times> (u32 \<times> u32)" where
  "split_of off len = (let s = cart_split off len
     in ((head_fad s, head_skip s, head_take s), (body_fad s, body_sect s), (tail_fad s, tail_take s)))"

lemma host_split:
  "split_of 0 4096 = ((0, 0, 0), (0, 2), (0, 0))"
  "split_of 100 50 = ((0, 100, 50), (1, 0), (0, 0))"
  "split_of (2048 + 32) (2048 * 3) = ((1, 32, 2048 - 32), (2, 2), (4, 32))"
  "split_of (2048 - 64) (64 + 2048) = ((0, 1984, 64), (1, 1), (0, 0))"
  "split_of (2048 - 32) (32 + 100) = ((0, 2016, 32), (1, 0), (1, 100))"
  "split_of 1000 0 = ((0, 1000, 0), (1, 0), (0, 0))"
  by code_simp+

section \<open>test_host.c: buttons, checksum, pixels, reset\<close>

abbreviation held :: "nat list \<Rightarrow> u16" where
  "held ks \<equiv> NOT (foldr (\<lambda>k w. push_bit k 1 OR w) ks 0)"

lemma host_jvs: "map (dc_to_jvs \<circ> held) [[], [3], [4], [5], [6], [7], [2], [1], [3, 4]] =
    [0, 0x8000, 0x2000, 0x1000, 0x0800, 0x0400, 0x0200, 0x0100, 0xa000]"
  by code_simp

lemma host_template:
  "map ((!) jvs_hasdata) [0x00, 0x03, 0x04, 0x1a, 0x22, 0x23, 0x3a] = [0x87, 0x0f, 0x16, 0xe0, 0, 0, 0x22]"
  "length jvs_hasdata = 64" "jvs_checksum jvs_hasdata = 0x22"
  by code_simp+

lemma host_second_player:
  "let j2 = dc_to_jvs (held [3]); f2 = jvs_hasdata[0x22 := ucast (drop_bit 8 j2), 0x23 := ucast (j2 AND 0xff)]
   in f2 ! 0x22 = 0x80 \<and> f2 ! 0x23 = 0 \<and> jvs_checksum f2 = 0x22 + 0x80"
  by code_simp

lemma host_pixels: "map RGB565_TO_0555 [0x0000, 0xffff, 0xf800, 0x07e0, 0x001f, 0x39e7] =
    [0x0000, 0x7fff, 0x7c00, 0x03e0, 0x001f, 0x1ce7]"
  by code_simp

lemma host_reset: "map (dc_reset_combo \<circ> held) [[2, 1, 10, 9, 3], [2, 1, 10, 9, 3, 4], [2, 1, 10, 3], [2, 1, 10, 9], []] =
    [True, True, False, False, False]"
  by code_simp

section \<open>test_shim_iface.c: addresses and the region map\<close>

lemma host_iface: "P2ADDR 0x8cfc0000 = 0xacfc0000" "P2ADDR 0 = 0xa0000000" "SHIM_ERR = 0x8cfc8000"
    "SHIM_CODE_MAX = 0x8000" "CART_SIZE = 0x06800000"
  by code_simp+

text \<open>Start and length of every region of the home of the shim, in the order of the test.\<close>

definition regions :: "(u32 \<times> u32) list" where
  "regions = [(SHIM_BASE, SHIM_CODE_MAX), (SHIM_ERR, 16), (G1_MIRROR, 0x800), (MAPLE_TX, 0x40), (MAPLE_RX, 132),
     (SHIM_BOUNCE, 2048), (BIOS_DATA_60000, BIOS_DATA_60000_LEN), (BIOS_DATA_1FFD00, BIOS_DATA_1FFD00_LEN),
     (MAPLE_MIRROR, MAPLE_MIRROR_LEN), (GD_STACK_BOTTOM, 0x1000), (GD_STACK_TOP, 0)]"

text \<open>The test compares neighbours; every pair is disjoint, and no end wraps around.\<close>

lemma host_regions:
  "sorted_wrt (\<lambda>(a, n) (b, k). unat a + unat n \<le> unat b) regions"
  "\<forall>(a, n) \<in> set regions. unat a + unat n \<le> 0x8cfe8000"
  by (simp_all add: regions_def src_consts)

end
