(* ===== verification/Spec2Isabelle.thy ===== *)
theory Spec2Isabelle
  imports Drive_Props Loader_Props Transport_Props Diag_Props Screen_Props Session_Props Host_Tests
begin

text \<open>
  A model of the conversion shim that runs the arcade game \<^emph>\<open>Cleopatra Fortune Plus\<close> (Naomi) on the
  Dreamcast, and of the loader that starts it.

  \<^bold>\<open>The program.\<close> \<^verbatim>\<open>src/loader\<close> is a KallistiOS program on the disc. It shows a splash, reads the first
  megabyte of the game, rehearses the disc access the shim will use, patches the image after verifying
  every byte it replaces, places the shim at \<^verbatim>\<open>SHIM_BASE\<close> with the data the game expects, and hands over
  through a relocated assembly stub. \<^verbatim>\<open>src/shims\<close> is the resident shim. The patched game calls it in three
  places: instead of its cartridge DMA (\<^verbatim>\<open>cart.c\<close> over the GD driver \<^verbatim>\<open>gd.c\<close>, which calls the console's
  syscalls through the wrapper \<^verbatim>\<open>gdstack.S\<close>); instead of its per-frame input transport (\<^verbatim>\<open>main.c\<close>, which
  answers the Maple descriptor lists the game's engine leaves in a register mirror, from captured
  replies and from the live pads of \<^verbatim>\<open>maple.c\<close> and \<^verbatim>\<open>jvs.c\<close>); and in the configuration hooks at the end of
  \<^verbatim>\<open>main.c\<close>. \<^verbatim>\<open>util.c\<close> holds the memory routines, the painters, the cable sense and the fatal screen,
  \<^verbatim>\<open>scif.c\<close> the serial output, \<^verbatim>\<open>shim_iface.h\<close> the address map.

  \<^bold>\<open>The model.\<close> One record \<open>machine\<close> (\<^theory_text>\<open>Machine\<close>) holds byte memory by bus address, the operand cache
  in front of it, the log of device stores, the processor context the assembly touches, and the
  statics of each C file as a record of their own. What is not in the repository is the record \<open>env\<close>:
  the build switches, the GD syscall, the Maple engine and the serial port between two polls, the
  game's engine and video routine, the captured blobs; for the loader it is the record \<open>kos\<close>. Routines that
  may not return give an \<open>outcome\<close>: a value, the fatal screen with its code, a reboot, or a hang; the
  stages of the loader give a \<open>boot\<close>. Integers are words of their width, so every wrap-around is there.

  \<^item> \<^theory_text>\<open>Prelude\<close>, \<^theory_text>\<open>Iface\<close>, \<^theory_text>\<open>Machine\<close>, \<^theory_text>\<open>Memory\<close>: word lemmas and the collections \<open>frame\<close> and
    \<open>src_consts\<close>; the address map; the state; loads and stores through the address windows and the cache,
    with the locale \<open>byte_store\<close> of their laws.
  \<^item> \<^theory_text>\<open>Scif\<close>, \<^theory_text>\<open>Util\<close>, \<^theory_text>\<open>Gdstack\<close>, \<^theory_text>\<open>Gd\<close>, \<^theory_text>\<open>Cart_Split\<close>, \<^theory_text>\<open>Cart\<close>, \<^theory_text>\<open>Jvs\<close>, \<^theory_text>\<open>Maple\<close>, \<^theory_text>\<open>Mie\<close>
    (replies), \<^theory_text>\<open>Steady\<close> (transport), \<^theory_text>\<open>Config\<close> (hooks), \<^theory_text>\<open>Loader\<close> (\<^verbatim>\<open>loader/main.c\<close> and \<^verbatim>\<open>handoff.S\<close>):
    the definitions, file by file, under the names of the source.
  \<^item> \<^theory_text>\<open>Show\<close>, \<^theory_text>\<open>Diag_Lemmas\<close>, \<^theory_text>\<open>Diag_Props\<close>: the diagnostic builds. Their code stands in the theories above, in the
    operations it belongs to, under the switches \<open>SHIM_LOADSTAT\<close>, \<open>SHIM_PROBES\<close>, \<open>SHIM_GD_DIAG\<close> and \<open>LOADER_TIMING\<close>;
    here it is shown to change nothing but the shown pixels and the serial port, and the two instruments to
    measure what they say.
  \<^item> \<^theory_text>\<open>Framebuffer\<close>, \<^theory_text>\<open>Paint\<close>: what the painters draw (locale \<open>pixel_store\<close>) and that they stay on the screen.
  \<^item> \<^theory_text>\<open>Footprint\<close>, \<^theory_text>\<open>Blocks\<close>: which bytes an operation may change (locale \<open>footprint\<close>), layouts of disjoint blocks.
  \<^item> \<^theory_text>\<open>Gdstack_Lemmas\<close>, \<^theory_text>\<open>Gd_Lemmas\<close>, \<^theory_text>\<open>Gd_Retry\<close>, \<^theory_text>\<open>Cart_Lemmas\<close>: the wrapper restores the context; a
    drive that keeps its contract (\<open>drive_ok\<close>) delivers; the retry protocol as an inductive relation; a
    cartridge read composed from sector reads (locale \<open>sector_reader\<close>, interpreted for PIO and for DMA).
  \<^item> \<^theory_text>\<open>Input_Lemmas\<close>, \<^theory_text>\<open>Maple_Lemmas\<close>, \<^theory_text>\<open>Mie_Lemmas\<close>, \<^theory_text>\<open>Reply_Lemmas\<close>, \<^theory_text>\<open>Transport_Lemmas\<close>, \<^theory_text>\<open>Hook_Lemmas\<close>,
    \<^theory_text>\<open>Statics\<close>: the same for the input side, and the invariant of the statics. \<^theory_text>\<open>Pad_Bus\<close>: a pad read as
    a conversation with the bus. \<^theory_text>\<open>Walk\<close>: the specification of the
    list walk (parse the list once, then serve its frames in order), which the one loop of \<^verbatim>\<open>main.c\<close> refines.
  \<^item> \<^theory_text>\<open>Loader_Lemmas\<close>, \<^theory_text>\<open>Loader_Boot\<close>: what each stage of the loader leaves in memory.
  \<^item> \<^theory_text>\<open>Screen\<close>: the digits pixel by pixel, that they read back, and what the fatal screen shows. \<^theory_text>\<open>Session\<close>: the
    state machine of a play session, in which the game calls the operations in any order, and its invariant.
  \<^item> \<^theory_text>\<open>Drive_Props\<close>, \<^theory_text>\<open>Input_Props\<close>, \<^theory_text>\<open>Transport_Props\<close>, \<^theory_text>\<open>Loader_Props\<close>, \<^theory_text>\<open>Diag_Props\<close>, \<^theory_text>\<open>Screen_Props\<close>,
    \<^theory_text>\<open>Session_Props\<close>, this theory: the properties, each
    with a concrete witness; \<^theory_text>\<open>Demo\<close> holds the drive, bus and machine of the witnesses. \<^theory_text>\<open>Host_Tests\<close>: the
    assertions of the repository's own host tests, evaluated on the model.

  \<^bold>\<open>What is shown.\<close> A cartridge request inside the fence is served byte for byte and nothing else is
  written; one outside is refused with code 2, and only those. A read ends for every drive, and the
  retry protocol is exactly the documented one. The wrapper restores the whole processor context. The steady
  service never hangs, writes only where replies go, serves the frames of the list as it stood when it was
  triggered, and always completes its transaction. Replies are
  the captured ones, the live frame carries both players' buttons. If the loader jumps, the game finds
  everything in place, through the cache and around it; if it stops, the screen names the cause; and
  it does jump when drive, disc and patch table are as they should be. After a boot the game's engine is
  never refused a frame, and over a whole session the components keep each other's invariants. Digits on the
  screen read back as the numbers painted, on the fatal screen too, and the diagnostic builds only paint.
  The contracts assumed of drive, bus and KallistiOS are the definitions \<open>drive_ok\<close>,
  \<open>maple_ok\<close> and \<open>kos_ok\<close>; each is met by a concrete instance.

  \<^bold>\<open>Bounds and fuel.\<close> The polling loops carry their own 32-bit guards and terminate by them, whatever the
  device does. The cache-invalidation loop and the wait for the Maple bus may not end: the first is a
  partial function with value \<open>None\<close> then, the second searches for the first idle state; both are proved to end
  under the hypotheses stated. The list walk takes the 32 of the source as its fuel.

  \<^bold>\<open>Not modelled.\<close> Every function of the C files and of the two assembly files is translated, but for the
  loader's stub \<^verbatim>\<open>dbgio_init\<close>, which returns 0 to KallistiOS; what the definitions leave out is declarations,
  comments and the preprocessor's guards. Abstracted: the eviction of cache lines (a line leaves the cache
  only when the code says so), time, interrupts, the instruction cache. The game's own code, the BIOS, KallistiOS, the drive and the captured
  data are parameters. The build scripts and the reverse-engineering notes are not part of the
  running program. \<open>LOADER_SERIAL\<close> is taken as 0,
  which is what the source sets.
\<close>

section \<open>From the loader into the frame loop\<close>

text \<open>
  The game's side of a frame is not in the repository: \<open>frames E m0 m\<close> says that \<open>m\<close> can be reached
  from \<open>m0\<close> by calls of the steady service that return, and by anything else the game does that leaves
  the mirrored busy register alone.
\<close>

inductive frames :: "env \<Rightarrow> machine \<Rightarrow> machine \<Rightarrow> bool" for E :: env and m0 :: machine where
  start: "frames E m0 m0"
| serviced: "frames E m0 m \<Longrightarrow> shim_maple_steady E m = Ret rc m' \<Longrightarrow> frames E m0 m'"
| played: "frames E m0 m \<Longrightarrow> MMIR 0x18 m' = MMIR 0x18 m \<Longrightarrow> frames E m0 m'"

inductive_cases framesE: "frames E m0 m"

text \<open>The documented behaviour of the game's engine: it refuses a frame only while the register is busy.\<close>

definition engine_accepts :: "env \<Rightarrow> bool" where
  "engine_accepts E \<longleftrightarrow> (\<forall>m. MMIR 0x18 m AND 1 = 0 \<longrightarrow> fst (engine E m) = 0)"

lemma stamp_MMIR: "MMIR 0x18 (st32 0x8c1c9790 1 m) = MMIR 0x18 m"
  unfolding MMIR_def
  by (rule ld32_st32_other) (simp add: cells_apart_def span_def unat_bus src_consts P2ADDR_def)

lemma frames_idle:
  assumes "transport_ok E" "frames E m0 m" "MMIR 0x18 m0 AND 1 = 0"
  shows "MMIR 0x18 m AND 1 = 0"
  using assms(2)
proof induction
  case (serviced m rc m')
  then show ?case using steady_cases [OF assms(1), of m] by auto
qed (use assms(3) in simp_all)

lemma handed_over_idle: "handed_over K img m \<Longrightarrow> MMIR 0x18 m = 0"
proof -
  assume "handed_over K img m"
  then have l: "load_bytes (P2ADDR MAPLE_MIRROR) 0x100 m = replicate 0x100 0"
    by (simp add: handed_over_def)
  have z: "ld8 (P2ADDR MAPLE_MIRROR + word_of_nat i) m = 0" if "i < 0x100" for i
    using nth_load_bytes [OF that, of "P2ADDR MAPLE_MIRROR" m] that by (simp add: l)
  have a: "P2ADDR (MAPLE_MIRROR + 0x18) = P2ADDR MAPLE_MIRROR + 0x18"
    by (simp add: src_consts P2ADDR_def)
  show ?thesis
    using z [of 24] z [of 25] z [of 26] z [of 27] unfolding MMIR_def a ld32_def
    by (simp add: add.assoc)
qed

text \<open>
  C3. Loader and transport together: after a boot, however many frames are played, the mirrored busy
  bit is clear at every point between two calls, so the game's engine is never refused.
\<close>

theorem boot_never_busy:
  assumes "kos_ok E K disc" "blobs_ok K" "drive_ok E job disc" "sysbuf_ok K"
    "\<forall>p \<in> set (cleo_patches K). patch_fits 0x100000 p" "loader_main E K m = Jumped e m0"
    and "transport_ok E" "engine_accepts E" "frames E m0 m1"
  shows "MMIR 0x18 m1 AND 1 = 0 \<and> fst (engine E (st32 0x8c1c9790 1 m1)) = 0"
proof -
  obtain img where "handed_over K img m0"
    using loader_main_jump [OF assms(1-6)] by blast
  then have "MMIR 0x18 m0 AND 1 = 0" by (simp add: handed_over_idle)
  from frames_idle [OF assms(7,9) this]
  show ?thesis using assms(8) by (simp add: engine_accepts_def stamp_MMIR)
qed

lemma boot_never_busy_witness:
  "\<exists>m0. loader_main (boot_env pad_env) boot_kos demo_zero = Jumped GAME_ENTRY m0 \<and> MMIR 0x18 m0 AND 1 = 0"
proof -
  let ?E = "boot_env pad_env"
  obtain m0 where j: "loader_main ?E boot_kos demo_zero = Jumped GAME_ENTRY m0"
    using boot_jumps by blast
  have "maple_ok ?E" using pad_maple_ok by (simp add: maple_ok_def boot_env_def)
  then have t: "transport_ok ?E"
    using pad_transport_ok by (simp add: transport_ok_def release_def blobs_fit_def boot_env_def)
  have e: "engine_accepts ?E" by (simp add: engine_accepts_def boot_env_def pad_env_def)
  show ?thesis
    using boot_never_busy [OF boot_kos_ok boot_blobs_ok(1) boot_drive_ok boot_blobs_ok(2) boot_patches_fit j t e
        frames.start] j by blast
qed

end
